(* ===== verification/Prelude.thy ===== *)
theory Prelude
  imports Complex_Main
begin

text \<open>
  Shared vocabulary of the development: computations that read and write a state and may
  raise (the shape of every Python function with effects), the program logic used to
  reason about them (what a computation leaves unchanged, what it preserves, what it
  guarantees on return and on raise), JSON values, and generic list lemmas.

  A computation that raises keeps the state changes it made before the exception, as
  Python does: the result is a pair of a sum (\<open>Inl\<close> exception or \<open>Inr\<close> value) and the
  state reached.
\<close>

named_theorems io_run \<open>equations that run a computation from a state\<close>
named_theorems frame_intro \<open>rules for "this computation leaves that part unchanged"\<close>
named_theorems keeps_intro \<open>rules for "this computation preserves that invariant"\<close>

section \<open>Computations with state and exceptions\<close>

type_synonym ('s, 'e, 'a) io = "'s \<Rightarrow> ('e + 'a) \<times> 's"

definition return_io :: "'a \<Rightarrow> ('s, 'e, 'a) io" where
  "return_io x = (\<lambda>s. (Inr x, s))"

definition raise_io :: "'e \<Rightarrow> ('s, 'e, 'a) io" where
  "raise_io e = (\<lambda>s. (Inl e, s))"

definition bind_io :: "('s, 'e, 'a) io \<Rightarrow> ('a \<Rightarrow> ('s, 'e, 'b) io) \<Rightarrow> ('s, 'e, 'b) io" where
  "bind_io m k = (\<lambda>s. case m s of (Inl e, t) \<Rightarrow> (Inl e, t) | (Inr x, t) \<Rightarrow> k x t)"

definition seq_io :: "('s, 'e, 'a) io \<Rightarrow> ('s, 'e, 'b) io \<Rightarrow> ('s, 'e, 'b) io" where
  "seq_io m n = bind_io m (\<lambda>_. n)"

text \<open>\<open>try: m except e: h e\<close>; a handler that does not catch \<open>e\<close> raises it again.\<close>

definition try_io :: "('s, 'e, 'a) io \<Rightarrow> ('e \<Rightarrow> ('s, 'e, 'a) io) \<Rightarrow> ('s, 'e, 'a) io" where
  "try_io m h = (\<lambda>s. case m s of (Inl e, t) \<Rightarrow> h e t | (Inr x, t) \<Rightarrow> (Inr x, t))"

text \<open>\<open>try: m finally: f\<close>; an exception of \<open>f\<close> replaces the outcome of \<open>m\<close>.\<close>

definition finally_io :: "('s, 'e, 'a) io \<Rightarrow> ('s, 'e, unit) io \<Rightarrow> ('s, 'e, 'a) io" where
  "finally_io m f = (\<lambda>s. case m s of (r, t) \<Rightarrow>
     (case f t of (Inl e, u) \<Rightarrow> (Inl e, u) | (Inr _, u) \<Rightarrow> (r, u)))"

text \<open>Both outcomes of a computation as values.\<close>

definition attempt_io :: "('s, 'e, 'a) io \<Rightarrow> ('s, 'e, 'e + 'a) io" where
  "attempt_io m = (\<lambda>s. case m s of (r, t) \<Rightarrow> (Inr r, t))"

definition of_sum :: "'e + 'a \<Rightarrow> ('s, 'e, 'a) io" where
  "of_sum r = (\<lambda>s. (r, s))"

definition gets_io :: "('s \<Rightarrow> 'a) \<Rightarrow> ('s, 'e, 'a) io" where
  "gets_io f = (\<lambda>s. (Inr (f s), s))"

definition modify_io :: "('s \<Rightarrow> 's) \<Rightarrow> ('s, 'e, unit) io" where
  "modify_io f = (\<lambda>s. (Inr (), f s))"

definition when_io :: "bool \<Rightarrow> ('s, 'e, unit) io \<Rightarrow> ('s, 'e, unit) io" where
  "when_io c m = (if c then m else return_io ())"

text \<open>A \<open>for\<close> loop for its effects: stops at the first exception.\<close>

primrec for_io :: "'a list \<Rightarrow> ('a \<Rightarrow> ('s, 'e, unit) io) \<Rightarrow> ('s, 'e, unit) io" where
  "for_io [] f = return_io ()"
| "for_io (x # xs) f = seq_io (f x) (for_io xs f)"

text \<open>A \<open>for\<close> loop that collects a result per element.\<close>

primrec map_io :: "('a \<Rightarrow> ('s, 'e, 'b) io) \<Rightarrow> 'a list \<Rightarrow> ('s, 'e, 'b list) io" where
  "map_io f [] = return_io []"
| "map_io f (x # xs) = bind_io (f x) (\<lambda>y. bind_io (map_io f xs) (\<lambda>ys. return_io (y # ys)))"

subsection \<open>Running a computation\<close>

lemma return_io_run [io_run, simp]: "return_io x s = (Inr x, s)"
  by (simp add: return_io_def)

lemma raise_io_run [io_run, simp]: "raise_io e s = (Inl e, s)"
  by (simp add: raise_io_def)

lemma of_sum_run [io_run, simp]: "of_sum r s = (r, s)"
  by (simp add: of_sum_def)

lemma attempt_io_run [io_run]: "attempt_io m s = (Inr (fst (m s)), snd (m s))"
  by (simp add: attempt_io_def case_prod_beta)

lemma gets_io_run [io_run, simp]: "gets_io f s = (Inr (f s), s)"
  by (simp add: gets_io_def)

lemma modify_io_run [io_run, simp]: "modify_io f s = (Inr (), f s)"
  by (simp add: modify_io_def)

lemma when_io_run [io_run, simp]:
  "when_io c m s = (if c then m s else (Inr (), s))"
  by (simp add: when_io_def)

lemma bind_io_Inr [io_run]: "m s = (Inr x, t) \<Longrightarrow> bind_io m k s = k x t"
  by (simp add: bind_io_def)

lemma bind_io_Inl [io_run]: "m s = (Inl e, t) \<Longrightarrow> bind_io m k s = (Inl e, t)"
  by (simp add: bind_io_def)

lemma bind_io_return [simp]: "bind_io (return_io x) k = k x"
  by (simp add: bind_io_def fun_eq_iff)

lemma bind_io_raise [simp]: "bind_io (raise_io e) k = raise_io e"
  by (simp add: bind_io_def fun_eq_iff)

lemma of_sum_Inr [simp]: "of_sum (Inr x) = return_io x"
  by (simp add: of_sum_def return_io_def)

lemma of_sum_Inl [simp]: "of_sum (Inl e) = raise_io e"
  by (simp add: of_sum_def raise_io_def)

lemma bind_io_assoc: "bind_io (bind_io m k) l = bind_io m (\<lambda>x. bind_io (k x) l)"
  by (auto simp: bind_io_def fun_eq_iff split: prod.splits sum.splits)

lemma bind_io_gets [io_run, simp]: "bind_io (gets_io f) k s = k (f s) s"
  by (simp add: bind_io_def)

lemma seq_io_modify [io_run, simp]: "seq_io (modify_io f) n s = n (f s)"
  by (simp add: seq_io_def bind_io_def)

lemma seq_io_return [simp]: "seq_io (return_io x) n = n"
  by (simp add: seq_io_def)

lemma try_io_Inr [io_run]: "m s = (Inr x, t) \<Longrightarrow> try_io m h s = (Inr x, t)"
  by (simp add: try_io_def)

lemma try_io_Inl [io_run]: "m s = (Inl e, t) \<Longrightarrow> try_io m h s = h e t"
  by (simp add: try_io_def)

lemma bind_io_InrE:
  assumes "bind_io m k s = (Inr y, u)"
  obtains x t where "m s = (Inr x, t)" and "k x t = (Inr y, u)"
  using assms by (auto simp: bind_io_def split: prod.splits sum.splits)

lemma bind_io_InlE:
  assumes "bind_io m k s = (Inl e, u)"
  obtains (first) "m s = (Inl e, u)"
    | (second) x t where "m s = (Inr x, t)" and "k x t = (Inl e, u)"
  using assms by (auto simp: bind_io_def split: prod.splits sum.splits)

lemma seq_io_InrE:
  assumes "seq_io m n s = (Inr y, u)"
  obtains x t where "m s = (Inr x, t)" and "n t = (Inr y, u)"
  using assms unfolding seq_io_def by (rule bind_io_InrE)

lemma try_io_InrE:
  assumes "try_io m h s = (Inr y, u)"
  obtains (normal) "m s = (Inr y, u)"
    | (handled) e t where "m s = (Inl e, t)" and "h e t = (Inr y, u)"
  using assms by (auto simp: try_io_def split: prod.splits sum.splits)

lemma finally_io_run [io_run]:
  "m s = (r, t) \<Longrightarrow> f t = (Inr x, u) \<Longrightarrow> finally_io m f s = (r, u)"
  by (simp add: finally_io_def)

lemma finally_io_total:
  assumes "\<And>t. \<exists>u. f t = (Inr (), u)"
  shows "fst (finally_io m f s) = fst (m s)"
    and "snd (finally_io m f s) = snd (f (snd (m s)))"
proof -
  obtain r t where m: "m s = (r, t)" by (cases "m s")
  obtain u where "f t = (Inr (), u)" using assms by blast
  with m show "fst (finally_io m f s) = fst (m s)"
    and "snd (finally_io m f s) = snd (f (snd (m s)))"
    by (simp_all add: finally_io_def)
qed

section \<open>What a computation leaves unchanged\<close>

text \<open>\<open>frame f m\<close>: \<open>m\<close> never changes the part \<open>f\<close> of the state, raise or not.\<close>

definition frame :: "('s \<Rightarrow> 'b) \<Rightarrow> ('s, 'e, 'a) io \<Rightarrow> bool" where
  "frame f m \<longleftrightarrow> (\<forall>s. f (snd (m s)) = f s)"

lemma frameI: "(\<And>s r t. m s = (r, t) \<Longrightarrow> f t = f s) \<Longrightarrow> frame f m"
  unfolding frame_def by (metis prod.collapse)

lemma frameD: "frame f m \<Longrightarrow> m s = (r, t) \<Longrightarrow> f t = f s"
  unfolding frame_def by (metis snd_conv)

lemma frame_return [frame_intro]: "frame f (return_io x)"
  by (simp add: frame_def)

lemma frame_raise [frame_intro]: "frame f (raise_io e)"
  by (simp add: frame_def)

lemma frame_of_sum [frame_intro]: "frame f (of_sum r)"
  by (simp add: frame_def)

lemma frame_attempt [frame_intro]: "frame f m \<Longrightarrow> frame f (attempt_io m)"
  by (auto simp: frame_def attempt_io_def split: prod.splits) (metis snd_conv)?

lemma frame_gets [frame_intro]: "frame f (gets_io g)"
  by (simp add: frame_def)

lemma frame_modify [frame_intro]: "(\<And>s. f (g s) = f s) \<Longrightarrow> frame f (modify_io g)"
  by (simp add: frame_def)

lemma frame_bind [frame_intro]:
  "frame f m \<Longrightarrow> (\<And>x. frame f (k x)) \<Longrightarrow> frame f (bind_io m k)"
  unfolding frame_def bind_io_def by (auto split: prod.split sum.split) (metis snd_conv)+

lemma frame_seq [frame_intro]: "frame f m \<Longrightarrow> frame f n \<Longrightarrow> frame f (seq_io m n)"
  unfolding seq_io_def by (rule frame_bind)

lemma frame_try [frame_intro]:
  "frame f m \<Longrightarrow> (\<And>e. frame f (h e)) \<Longrightarrow> frame f (try_io m h)"
  unfolding frame_def try_io_def by (auto split: prod.split sum.split) (metis snd_conv)+

lemma frame_finally [frame_intro]:
  "frame f m \<Longrightarrow> frame f g \<Longrightarrow> frame f (finally_io m g)"
  unfolding frame_def finally_io_def by (auto split: prod.split sum.split) (metis snd_conv)+

lemma frame_when [frame_intro]: "(c \<Longrightarrow> frame f m) \<Longrightarrow> frame f (when_io c m)"
  by (simp add: frame_def)

lemma frame_if [frame_intro]:
  "(c \<Longrightarrow> frame f m) \<Longrightarrow> (\<not> c \<Longrightarrow> frame f n) \<Longrightarrow> frame f (if c then m else n)"
  by simp

lemma frame_for [frame_intro]: "(\<And>x. frame f (g x)) \<Longrightarrow> frame f (for_io xs g)"
  by (induction xs) (auto intro: frame_intro)

lemma frame_map [frame_intro]: "(\<And>x. frame f (g x)) \<Longrightarrow> frame f (map_io g xs)"
  by (induction xs) (auto intro!: frame_intro)

section \<open>What a computation preserves\<close>

text \<open>\<open>keeps I m\<close>: from a state where \<open>I\<close> holds, \<open>m\<close> ends in one where it holds, raise or not.\<close>

definition keeps :: "('s \<Rightarrow> bool) \<Rightarrow> ('s, 'e, 'a) io \<Rightarrow> bool" where
  "keeps I m \<longleftrightarrow> (\<forall>s. I s \<longrightarrow> I (snd (m s)))"

lemma keepsI: "(\<And>s r t. I s \<Longrightarrow> m s = (r, t) \<Longrightarrow> I t) \<Longrightarrow> keeps I m"
  unfolding keeps_def by (metis prod.collapse)

lemma keepsD: "keeps I m \<Longrightarrow> I s \<Longrightarrow> m s = (r, t) \<Longrightarrow> I t"
  unfolding keeps_def by (metis snd_conv)

lemma keeps_frame: "frame f m \<Longrightarrow> (\<And>s. I s = J (f s)) \<Longrightarrow> keeps I m"
  by (simp add: keeps_def frame_def)

lemma keeps_return [keeps_intro]: "keeps I (return_io x)"
  by (simp add: keeps_def)

lemma keeps_raise [keeps_intro]: "keeps I (raise_io e)"
  by (simp add: keeps_def)

lemma keeps_of_sum [keeps_intro]: "keeps I (of_sum r)"
  by (simp add: keeps_def)

lemma keeps_gets [keeps_intro]: "keeps I (gets_io g)"
  by (simp add: keeps_def)

lemma keeps_modify [keeps_intro]: "(\<And>s. I s \<Longrightarrow> I (g s)) \<Longrightarrow> keeps I (modify_io g)"
  by (simp add: keeps_def)

lemma keeps_bind [keeps_intro]:
  "keeps I m \<Longrightarrow> (\<And>x. keeps I (k x)) \<Longrightarrow> keeps I (bind_io m k)"
  unfolding keeps_def bind_io_def by (auto split: prod.split sum.split)

lemma keeps_seq [keeps_intro]: "keeps I m \<Longrightarrow> keeps I n \<Longrightarrow> keeps I (seq_io m n)"
  unfolding seq_io_def by (rule keeps_bind)

lemma keeps_try [keeps_intro]:
  "keeps I m \<Longrightarrow> (\<And>e. keeps I (h e)) \<Longrightarrow> keeps I (try_io m h)"
  unfolding keeps_def try_io_def by (auto split: prod.split sum.split)

lemma keeps_finally [keeps_intro]:
  "keeps I m \<Longrightarrow> keeps I g \<Longrightarrow> keeps I (finally_io m g)"
  unfolding keeps_def finally_io_def by (auto split: prod.split sum.split)

lemma keeps_when [keeps_intro]: "(c \<Longrightarrow> keeps I m) \<Longrightarrow> keeps I (when_io c m)"
  by (simp add: keeps_def)

lemma keeps_if [keeps_intro]:
  "(c \<Longrightarrow> keeps I m) \<Longrightarrow> (\<not> c \<Longrightarrow> keeps I n) \<Longrightarrow> keeps I (if c then m else n)"
  by simp

lemma keeps_for [keeps_intro]: "(\<And>x. keeps I (g x)) \<Longrightarrow> keeps I (for_io xs g)"
  by (induction xs) (auto intro: keeps_intro)

lemma keeps_map [keeps_intro]: "(\<And>x. keeps I (g x)) \<Longrightarrow> keeps I (map_io g xs)"
  by (induction xs) (auto intro!: keeps_intro)

section \<open>What a computation guarantees\<close>

text \<open>
  \<open>triple P m Q E\<close>: from a state satisfying \<open>P\<close>, a normal return of \<open>x\<close> in \<open>t\<close> satisfies
  \<open>Q x t\<close> and an exception \<open>e\<close> in \<open>t\<close> satisfies \<open>E e t\<close>. Computations are total functions,
  so this is total correctness.
\<close>

definition triple ::
  "('s \<Rightarrow> bool) \<Rightarrow> ('s, 'e, 'a) io \<Rightarrow> ('a \<Rightarrow> 's \<Rightarrow> bool) \<Rightarrow> ('e \<Rightarrow> 's \<Rightarrow> bool) \<Rightarrow> bool" where
  "triple P m Q E \<longleftrightarrow> (\<forall>s. P s \<longrightarrow>
     (case m s of (Inl e, t) \<Rightarrow> E e t | (Inr x, t) \<Rightarrow> Q x t))"

lemma tripleI:
  assumes "\<And>s x t. P s \<Longrightarrow> m s = (Inr x, t) \<Longrightarrow> Q x t"
    and "\<And>s e t. P s \<Longrightarrow> m s = (Inl e, t) \<Longrightarrow> E e t"
  shows "triple P m Q E"
  using assms unfolding triple_def by (auto split: prod.split sum.split)

lemma triple_InrD: "triple P m Q E \<Longrightarrow> P s \<Longrightarrow> m s = (Inr x, t) \<Longrightarrow> Q x t"
  unfolding triple_def by (metis (mono_tags, lifting) case_prod_conv sum.case(2))

lemma triple_InlD: "triple P m Q E \<Longrightarrow> P s \<Longrightarrow> m s = (Inl e, t) \<Longrightarrow> E e t"
  unfolding triple_def by (metis (mono_tags, lifting) case_prod_conv sum.case(1))

lemma triple_return: "(\<And>s. P s \<Longrightarrow> Q x s) \<Longrightarrow> triple P (return_io x) Q E"
  by (simp add: triple_def)

lemma triple_raise: "(\<And>s. P s \<Longrightarrow> E e s) \<Longrightarrow> triple P (raise_io e) Q E"
  by (simp add: triple_def)

lemma triple_bind:
  assumes "triple P m R E" and "\<And>x. triple (R x) (k x) Q E"
  shows "triple P (bind_io m k) Q E"
  by (rule tripleI)
    (auto elim!: bind_io_InrE bind_io_InlE dest: triple_InrD [OF assms(1)] triple_InlD [OF assms(1)]
      intro: triple_InrD [OF assms(2)] triple_InlD [OF assms(2)])

lemma triple_seq:
  assumes "triple P m (\<lambda>_. R) E" and "triple R n Q E"
  shows "triple P (seq_io m n) Q E"
  unfolding seq_io_def by (rule triple_bind [OF assms(1)]) (rule assms(2))

lemma triple_weaken:
  assumes "triple P' m Q' E'" and "\<And>s. P s \<Longrightarrow> P' s"
    and "\<And>x s. Q' x s \<Longrightarrow> Q x s" and "\<And>e s. E' e s \<Longrightarrow> E e s"
  shows "triple P m Q E"
  using assms unfolding triple_def by (fastforce split: prod.splits sum.splits)

lemma triple_keeps: "keeps I m \<Longrightarrow> triple I m (\<lambda>_. I) (\<lambda>_. I)"
  by (rule tripleI) (auto dest: keepsD)

lemma keeps_triple: "triple I m (\<lambda>_. I) (\<lambda>_. I) \<Longrightarrow> keeps I m"
proof (rule keepsI)
  fix s r t assume "triple I m (\<lambda>_. I) (\<lambda>_. I)" "I s" "m s = (r, t)"
  then show "I t" by (cases r) (auto dest: triple_InrD triple_InlD)
qed

lemma triple_frame: "frame f m \<Longrightarrow> triple (\<lambda>s. f s = x) m (\<lambda>_ s. f s = x) (\<lambda>_ s. f s = x)"
  by (rule tripleI) (auto dest: frameD)

lemma triple_if:
  "(c \<Longrightarrow> triple P m Q E) \<Longrightarrow> (\<not> c \<Longrightarrow> triple P n Q E) \<Longrightarrow> triple P (if c then m else n) Q E"
  by simp

lemma triple_try:
  assumes "triple P m Q R" and "\<And>e. triple (R e) (h e) Q E"
  shows "triple P (try_io m h) Q E"
proof (rule tripleI)
  fix s x t assume "P s" and "try_io m h s = (Inr x, t)"
  then show "Q x t"
    by (auto elim!: try_io_InrE dest: triple_InrD [OF assms(1)] triple_InlD [OF assms(1)]
        triple_InrD [OF assms(2)])
next
  fix s e t assume "P s" and "try_io m h s = (Inl e, t)"
  then obtain f u where "m s = (Inl f, u)" "h f u = (Inl e, t)"
    by (auto simp: try_io_def split: prod.splits sum.splits)
  with \<open>P s\<close> show "E e t" by (auto dest: triple_InlD [OF assms(1)] triple_InlD [OF assms(2)])
qed

lemma triple_conj:
  "triple P m Q E \<Longrightarrow> triple P' m Q' E' \<Longrightarrow>
     triple (\<lambda>s. P s \<and> P' s) m (\<lambda>x s. Q x s \<and> Q' x s) (\<lambda>e s. E e s \<and> E' e s)"
  unfolding triple_def by (fastforce split: prod.splits sum.splits)

lemma triple_finally:
  assumes "triple P m R S" and "\<And>x. triple (R x) f (\<lambda>_. Q x) E" and "\<And>e. triple (S e) f (\<lambda>_. E e) E"
  shows "triple P (finally_io m f) Q E"
proof (rule tripleI)
  fix s x t assume "P s" and "finally_io m f s = (Inr x, t)"
  then obtain u v where "m s = (Inr x, u)" "f u = (Inr v, t)"
    by (auto simp: finally_io_def split: prod.splits sum.splits)
  with \<open>P s\<close> show "Q x t" by (metis triple_InrD assms(1,2))
next
  fix s e t assume "P s" and "finally_io m f s = (Inl e, t)"
  then consider x u where "m s = (Inr x, u)" "f u = (Inl e, t)"
    | e' u where "m s = (Inl e', u)" "f u = (Inl e, t)"
    | u v where "m s = (Inl e, u)" "f u = (Inr v, t)"
    by (cases "fst (m s)") (auto simp: finally_io_def split: prod.splits sum.splits)
  then show "E e t"
    by cases (metis \<open>P s\<close> triple_InrD triple_InlD assms)+
qed

text \<open>Every result of a collecting loop satisfies what one round guarantees.\<close>

lemma map_io_all:
  assumes "map_io f xs s = (Inr ys, t)" and "\<And>x s y t. f x s = (Inr y, t) \<Longrightarrow> P x y"
  shows "list_all2 P xs ys"
  using assms(1)
proof (induction xs arbitrary: ys s)
  case Nil
  then show ?case by simp
next
  case (Cons x xs)
  then show ?case by (auto elim!: bind_io_InrE intro: assms(2))
qed

section \<open>A computation on a part of the state\<close>

text \<open>
  \<open>on_part get put m\<close> runs \<open>m\<close> on the component that \<open>get\<close> reads and \<open>put\<close> writes back.
\<close>

definition on_part ::
  "('s \<Rightarrow> 'p) \<Rightarrow> ('p \<Rightarrow> 's \<Rightarrow> 's) \<Rightarrow> ('p, 'e, 'a) io \<Rightarrow> ('s, 'e, 'a) io" where
  "on_part get put m = (\<lambda>s. case m (get s) of (r, p) \<Rightarrow> (r, put p s))"

lemma on_part_run [io_run]: "m (get s) = (r, p) \<Longrightarrow> on_part get put m s = (r, put p s)"
  by (simp add: on_part_def)

lemma on_partE:
  assumes "on_part get put m s = (r, t)"
  obtains p where "m (get s) = (r, p)" and "t = put p s"
  using assms by (auto simp: on_part_def split: prod.splits)

lemma frame_on_part: "(\<And>p s. f (put p s) = f s) \<Longrightarrow> frame f (on_part get put m)"
  by (auto simp: frame_def on_part_def split: prod.splits)

section \<open>Pure functions that may raise\<close>

definition and_then :: "'e + 'a \<Rightarrow> ('a \<Rightarrow> 'e + 'b) \<Rightarrow> 'e + 'b" where
  "and_then r k = (case r of Inl e \<Rightarrow> Inl e | Inr x \<Rightarrow> k x)"

lemma and_then_simps [simp]:
  "and_then (Inl e) k = Inl e"
  "and_then (Inr x) k = k x"
  by (simp_all add: and_then_def)

lemma and_then_Inr_iff: "and_then r k = Inr y \<longleftrightarrow> (\<exists>x. r = Inr x \<and> k x = Inr y)"
  by (cases r) simp_all

section \<open>JSON values\<close>

text \<open>
  Request bodies, error details, payloads and responses. Objects keep their keys in
  insertion order, as Python dicts do.
\<close>

datatype json =
    JNull
  | JBool bool
  | JInt int
  | JFloat rat
  | JStr string
  | JList "json list"
  | JObj "(string \<times> json) list"

definition lookup :: "(string \<times> 'a) list \<Rightarrow> string \<Rightarrow> 'a option" where
  "lookup = map_of"

definition keys :: "(string \<times> 'a) list \<Rightarrow> string list" where
  "keys = map fst"

lemma lookup_Nil [simp]: "lookup [] k = None"
  by (simp add: lookup_def)

lemma lookup_Cons [simp]: "lookup ((k', v) # kvs) k = (if k = k' then Some v else lookup kvs k)"
  by (simp add: lookup_def)

lemma keys_simps [simp]: "keys [] = []" "keys ((k, v) # kvs) = k # keys kvs"
  by (simp_all add: keys_def)

lemma lookup_None_iff: "lookup kvs k = None \<longleftrightarrow> k \<notin> set (keys kvs)"
  by (simp add: lookup_def keys_def map_of_eq_None_iff)

section \<open>Lists\<close>

text \<open>\<open>enumerate(xs)\<close>.\<close>

definition enum_list :: "'a list \<Rightarrow> (nat \<times> 'a) list" where
  "enum_list xs = zip [0..<length xs] xs"

lemma length_enum_list [simp]: "length (enum_list xs) = length xs"
  by (simp add: enum_list_def)

lemma map_fst_enum_list [simp]: "map fst (enum_list xs) = [0..<length xs]"
  by (simp add: enum_list_def)

lemma map_snd_enum_list [simp]: "map snd (enum_list xs) = xs"
  by (simp add: enum_list_def)

lemma nth_enum_list [simp]: "i < length xs \<Longrightarrow> enum_list xs ! i = (i, xs ! i)"
  by (simp add: enum_list_def)

lemma set_enum_list: "(i, x) \<in> set (enum_list xs) \<longleftrightarrow> i < length xs \<and> x = xs ! i"
  by (auto simp: enum_list_def set_zip intro!: exI [of _ i])

lemma split_at_sep:
  assumes "xs @ c # ys = xs' @ c # ys'" and "c \<notin> set xs" and "c \<notin> set xs'"
  shows "xs = xs' \<and> ys = ys'"
  using assms
proof (induction xs arbitrary: xs')
  case Nil
  then show ?case by (cases xs') auto
next
  case (Cons x xs)
  then show ?case by (cases xs') auto
qed

section \<open>Optional values\<close>

text \<open>\<open>d.get(k)\<close> and \<open>x or default\<close>.\<close>

definition get_field :: "'a option option \<Rightarrow> 'a option" where
  "get_field x = (case x of None \<Rightarrow> None | Some v \<Rightarrow> v)"

definition or_default :: "'a \<Rightarrow> 'a option \<Rightarrow> 'a" where
  "or_default y x = (case x of None \<Rightarrow> y | Some v \<Rightarrow> v)"

end
