(* ===== verification/PyString.thy ===== *)
theory PyString
  imports Prelude "HOL-Library.Word" "HOL-Library.Sublist"
begin

text \<open>
  The Python string operations the source uses. A \<open>str\<close> is a list of characters, one per
  code point, for the code points U+0000 to U+00FF; \<open>len\<close>, slicing and indexing count
  characters. Whitespace is what \<open>str.isspace\<close> says in that range, \<open>lower\<close> maps the ASCII
  and Latin-1 capitals, \<open>encode\<close> is UTF-8.
\<close>

named_theorems py_string \<open>equations that evaluate the string operations\<close>

type_synonym byte = "8 word"

abbreviation code_point :: "char \<Rightarrow> nat" where
  "code_point \<equiv> of_char"

section \<open>Whitespace\<close>

definition py_isspace :: "char \<Rightarrow> bool" where
  "py_isspace c = (code_point c \<in> {9, 10, 11, 12, 13, 28, 29, 30, 31, 32, 133, 160})"

definition py_lstrip :: "string \<Rightarrow> string" where
  "py_lstrip s = dropWhile py_isspace s"

definition py_rstrip :: "string \<Rightarrow> string" where
  "py_rstrip s = rev (dropWhile py_isspace (rev s))"

definition py_strip :: "string \<Rightarrow> string" where
  "py_strip s = py_rstrip (py_lstrip s)"

lemma py_rstrip_Nil [simp]: "py_rstrip [] = []"
  by (simp add: py_rstrip_def)

lemma py_strip_Nil [simp]: "py_strip [] = []"
  by (simp add: py_strip_def py_lstrip_def)

lemma py_rstrip_snoc:
  "py_rstrip (s @ [c]) = (if py_isspace c then py_rstrip s else s @ [c])"
  by (simp add: py_rstrip_def)

lemma py_rstrip_prefix: "prefix (py_rstrip s) s"
proof (induction s rule: rev_induct)
  case (snoc c s)
  then show ?case by (auto simp: py_rstrip_snoc intro: prefix_prefix)
qed simp

lemma length_py_rstrip: "length (py_rstrip s) \<le> length s"
  by (rule prefix_length_le [OF py_rstrip_prefix])

lemma py_rstrip_last:
  "py_rstrip s \<noteq> [] \<Longrightarrow> \<not> py_isspace (last (py_rstrip s))"
  by (induction s rule: rev_induct) (auto simp: py_rstrip_snoc)

lemma py_rstrip_idem [simp]: "py_rstrip (py_rstrip s) = py_rstrip s"
  by (induction s rule: rev_induct) (auto simp: py_rstrip_snoc)

lemma py_rstrip_id: "s = [] \<or> \<not> py_isspace (last s) \<Longrightarrow> py_rstrip s = s"
  by (cases s rule: rev_cases) (auto simp: py_rstrip_snoc)

lemma py_rstrip_eq_Nil: "py_rstrip s = [] \<longleftrightarrow> (\<forall>c \<in> set s. py_isspace c)"
  by (simp add: py_rstrip_def)

lemma py_strip_eq_Nil: "py_strip s = [] \<longleftrightarrow> (\<forall>c \<in> set s. py_isspace c)"
  by (auto simp: py_strip_def py_rstrip_eq_Nil py_lstrip_def dropWhile_eq_Nil_conv
      dest: set_dropWhileD)
     (metis hd_dropWhile hd_in_set dropWhile_eq_Nil_conv)

text \<open>\<open>s == s.strip()\<close>: the string neither starts nor ends with whitespace.\<close>

definition stripped :: "string \<Rightarrow> bool" where
  "stripped s \<longleftrightarrow> s = [] \<or> (\<not> py_isspace (hd s) \<and> \<not> py_isspace (last s))"

lemma py_rstrip_hd: "py_rstrip s \<noteq> [] \<Longrightarrow> hd (py_rstrip s) = hd s"
  using py_rstrip_prefix [of s] by (metis hd_append2 prefixE)

lemma stripped_py_strip: "stripped (py_strip s)"
proof (cases "py_strip s = []")
  case False
  then have ne: "py_rstrip (py_lstrip s) \<noteq> []" by (simp add: py_strip_def)
  then have "py_lstrip s \<noteq> []" by auto
  then have "\<not> py_isspace (hd (py_lstrip s))"
    unfolding py_lstrip_def by (rule hd_dropWhile)
  then have "\<not> py_isspace (hd (py_strip s))"
    using py_rstrip_hd [OF ne] by (simp add: py_strip_def)
  moreover have "\<not> py_isspace (last (py_strip s))"
    unfolding py_strip_def by (rule py_rstrip_last [OF ne])
  ultimately show ?thesis by (simp add: stripped_def)
qed (simp add: stripped_def)

lemma py_strip_stripped: "stripped s \<Longrightarrow> py_strip s = s"
  by (cases s) (auto simp: stripped_def py_strip_def py_lstrip_def py_rstrip_id)

lemma stripped_iff: "stripped s \<longleftrightarrow> py_strip s = s"
  by (metis py_strip_stripped stripped_py_strip)

lemma py_strip_idem [simp]: "py_strip (py_strip s) = py_strip s"
  by (rule py_strip_stripped [OF stripped_py_strip])

lemma stripped_prefix_rstrip:
  assumes "stripped s" and "prefix p s"
  shows "stripped (py_rstrip p)"
proof (cases "py_rstrip p = []")
  case False
  then have "p \<noteq> []" by auto
  with assms(2) have "hd p = hd s" and "s \<noteq> []" by (auto simp: prefix_def hd_append)
  with assms(1) False show ?thesis
    by (simp add: stripped_def py_rstrip_hd py_rstrip_last)
qed (simp add: stripped_def)

lemma stripped_join:
  "stripped s \<Longrightarrow> stripped t \<Longrightarrow> s \<noteq> [] \<Longrightarrow> t \<noteq> [] \<Longrightarrow> stripped (s @ sep @ t)"
  by (auto simp: stripped_def)

section \<open>Searching, replacing, case\<close>

definition py_startswith :: "string \<Rightarrow> string \<Rightarrow> bool" where
  "py_startswith s p = (take (length p) s = p)"

definition py_endswith :: "string \<Rightarrow> string \<Rightarrow> bool" where
  "py_endswith s p = py_startswith (rev s) (rev p)"

text \<open>\<open>p in s\<close>.\<close>

fun py_contains :: "string \<Rightarrow> string \<Rightarrow> bool" where
  "py_contains [] p = (p = [])"
| "py_contains (c # s) p = (py_startswith (c # s) p \<or> py_contains s p)"

definition py_lower_char :: "char \<Rightarrow> char" where
  "py_lower_char c = (let n = code_point c in
     if 65 \<le> n \<and> n \<le> 90 \<or> 192 \<le> n \<and> n \<le> 222 \<and> n \<noteq> 215 then char_of (n + 32) else c)"

definition py_lower :: "string \<Rightarrow> string" where
  "py_lower s = map py_lower_char s"

text \<open>\<open>s.replace(c, "")\<close> for a one-character \<open>c\<close>.\<close>

definition py_remove_char :: "char \<Rightarrow> string \<Rightarrow> string" where
  "py_remove_char c s = filter (\<lambda>x. x \<noteq> c) s"

lemma py_startswith_prefix: "py_startswith s p \<longleftrightarrow> prefix p s"
  unfolding py_startswith_def by (metis append_eq_conv_conj append_take_drop_id prefix_def)

lemma py_contains_append: "py_contains s p \<longleftrightarrow> (\<exists>u v. s = u @ p @ v)"
proof (induction s)
  case step: (Cons c s)
  show ?case
  proof
    assume "py_contains (c # s) p"
    then consider "prefix p (c # s)" | u v where "s = u @ p @ v"
      using step.IH by (auto simp: py_startswith_prefix)
    then show "\<exists>u v. c # s = u @ p @ v"
    proof cases
      case 1
      then show ?thesis by (auto simp: prefix_def intro: exI [of _ "[]"])
    next
      case 2
      then show ?thesis by (metis append_Cons)
    qed
  next
    assume "\<exists>u v. c # s = u @ p @ v"
    then obtain u v where uv: "c # s = u @ p @ v" by blast
    show "py_contains (c # s) p"
    proof (cases u)
      case Nil
      with uv have "prefix p (c # s)" by (simp add: prefix_def)
      then show ?thesis by (simp add: py_startswith_prefix)
    next
      case (Cons d u')
      with uv have "\<exists>u v. s = u @ p @ v" by auto
      then show ?thesis using step.IH by simp
    qed
  qed
qed auto

section \<open>Decimal numbers\<close>

fun show_nat :: "nat \<Rightarrow> string" where
  "show_nat n = (if n < 10 then [char_of (48 + n)] else show_nat (n div 10) @ [char_of (48 + n mod 10)])"

declare show_nat.simps [simp del]

definition show_int :: "int \<Rightarrow> string" where
  "show_int i = (if i < 0 then CHR ''-'' # show_nat (nat (- i)) else show_nat (nat i))"

definition is_digit :: "char \<Rightarrow> bool" where
  "is_digit c = (48 \<le> code_point c \<and> code_point c \<le> 57)"

lemma is_digit_char_of [simp]: "(n::nat) < 10 \<Longrightarrow> is_digit (char_of (48 + n))"
  by (simp add: is_digit_def)

lemma show_nat_digits: "\<forall>c \<in> set (show_nat n). is_digit c"
proof (induction n rule: show_nat.induct)
  case (1 n)
  then show ?case by (subst show_nat.simps) auto
qed

lemma show_nat_nonempty [simp]: "show_nat n \<noteq> []"
  by (subst show_nat.simps) simp

text \<open>\<open>int(s)\<close> on a string of digits, to invert \<open>show_nat\<close>.\<close>

definition read_nat :: "string \<Rightarrow> nat" where
  "read_nat s = foldl (\<lambda>n c. 10 * n + (code_point c - 48)) 0 s"

lemma read_show_nat [simp]: "read_nat (show_nat n) = n"
proof (induction n rule: show_nat.induct)
  case (1 n)
  show ?case
  proof (cases "n < 10")
    case True
    then show ?thesis by (subst show_nat.simps) (simp add: read_nat_def)
  next
    case False
    with 1 have "read_nat (show_nat (n div 10)) = n div 10" by simp
    with False show ?thesis by (subst show_nat.simps) (simp add: read_nat_def)
  qed
qed

lemma show_nat_inject [simp]: "show_nat m = show_nat n \<longleftrightarrow> m = n"
  by (metis read_show_nat)

section \<open>\<open>repr\<close> and UTF-8\<close>

definition hex_digit :: "nat \<Rightarrow> char" where
  "hex_digit n = char_of (if n < 10 then 48 + n else 87 + n)"

definition py_repr_char :: "char \<Rightarrow> char \<Rightarrow> string" where
  "py_repr_char q c = (let n = code_point c in
     if c = q \<or> n = 92 then [char_of (92::nat), c]
     else if n = 9 then [char_of (92::nat), CHR ''t'']
     else if n = 10 then [char_of (92::nat), CHR ''n'']
     else if n = 13 then [char_of (92::nat), CHR ''r'']
     else if n < 32 \<or> 127 \<le> n \<and> n \<le> 160 \<or> n = 173
       then [char_of (92::nat), CHR ''x'', hex_digit (n div 16), hex_digit (n mod 16)]
     else [c])"

text \<open>Single quotes unless the string holds a single quote and no double quote.\<close>

definition py_repr :: "string \<Rightarrow> string" where
  "py_repr s = (let q = (if char_of (39::nat) \<in> set s \<and> char_of (34::nat) \<notin> set s
       then char_of (34::nat) else char_of (39::nat))
     in [q] @ concat (map (py_repr_char q) s) @ [q])"

definition utf8_char :: "char \<Rightarrow> byte list" where
  "utf8_char c = (let n = code_point c in
     if n < 128 then [word_of_nat n] else [word_of_nat (192 + n div 64), word_of_nat (128 + n mod 64)])"

definition py_encode :: "string \<Rightarrow> byte list" where
  "py_encode s = concat (map utf8_char s)"

text \<open>\<open>digest.hex()\<close>.\<close>

definition hex_of_bytes :: "byte list \<Rightarrow> string" where
  "hex_of_bytes bs = concat (map (\<lambda>b. [hex_digit (unat b div 16), hex_digit (unat b mod 16)]) bs)"

lemma length_hex_of_bytes: "length (hex_of_bytes bs) = 2 * length bs"
  by (induction bs) (simp_all add: hex_of_bytes_def)

lemma code_point_less [simp]: "code_point c < 256"
  by (metis of_char_mod_256 mod_less_divisor zero_less_numeral)

lemma utf8_char_ASCII: "code_point c < 128 \<Longrightarrow> utf8_char c = [word_of_nat (code_point c)]"
  by (simp add: utf8_char_def)

lemma utf8_char_nonempty [simp]: "utf8_char c \<noteq> []"
  by (simp add: utf8_char_def Let_def)

lemma word_of_nat_byte_inject:
  "m < 256 \<Longrightarrow> n < 256 \<Longrightarrow> (word_of_nat m :: byte) = word_of_nat n \<longleftrightarrow> m = n"
  by (auto dest!: arg_cong [of "word_of_nat m :: byte" "word_of_nat n" unat] simp: unat_of_nat)

lemma utf8_char_append_inject:
  "utf8_char c @ r = utf8_char d @ r' \<longleftrightarrow> c = d \<and> r = r'"
proof -
  define m where "m = (code_point c :: nat)"
  define n where "n = (code_point d :: nat)"
  have bounds: "m < 256" "n < 256" by (simp_all add: m_def n_def)
  have c: "utf8_char c = (if m < 128 then [word_of_nat m]
      else [word_of_nat (192 + m div 64), word_of_nat (128 + m mod 64)])"
    by (simp add: utf8_char_def Let_def m_def)
  have d: "utf8_char d = (if n < 128 then [word_of_nat n]
      else [word_of_nat (192 + n div 64), word_of_nat (128 + n mod 64)])"
    by (simp add: utf8_char_def Let_def n_def)
  have small: "192 + m div 64 < 256" "192 + n div 64 < 256"
    "128 + m mod 64 < 256" "128 + n mod 64 < 256" using bounds by auto
  have two: "m = n" if "m div 64 = n div 64" "m mod 64 = n mod 64"
    using that by (metis div_mult_mod_eq)
  have "m = n" if eq: "utf8_char c @ r = utf8_char d @ r'"
  proof (cases "m < 128")
    case True
    with eq bounds small show ?thesis
      unfolding c d by (simp add: word_of_nat_byte_inject del: of_nat_add split: if_splits)
  next
    case False
    with eq have "\<not> n < 128"
      using bounds small unfolding c d by (auto simp: word_of_nat_byte_inject simp del: of_nat_add split: if_splits)
    with eq False show ?thesis
      using small two unfolding c d by (simp add: word_of_nat_byte_inject del: of_nat_add)
  qed
  then have "c = d" if "utf8_char c @ r = utf8_char d @ r'"
    using that unfolding m_def n_def by (simp add: of_char_eq_iff)
  then show ?thesis by auto
qed

lemma py_encode_Nil [simp]: "py_encode [] = []"
  by (simp add: py_encode_def)

lemma py_encode_Cons [simp]: "py_encode (c # s) = utf8_char c @ py_encode s"
  by (simp add: py_encode_def)

lemma py_encode_append [simp]: "py_encode (s @ t) = py_encode s @ py_encode t"
  by (induction s) simp_all

lemma py_encode_inject [simp]: "py_encode s = py_encode t \<longleftrightarrow> s = t"
proof (induction s arbitrary: t)
  case Nil
  show ?case by (cases t) auto
next
  case (Cons c s)
  show ?case using Cons.IH by (cases t) (auto simp: utf8_char_append_inject)
qed

end
