(* ===== verification/Errors.thy ===== *)
theory Errors
  imports PyString
begin

text \<open>
  The exceptions of the service: \<^verbatim>\<open>apps/documents/exceptions.py\<close> (the upload errors the
  views turn into HTTP responses), \<^verbatim>\<open>apps/qdrant_core/exceptions.py\<close> (the vector-store
  errors) and the exceptions of the libraries and of Python that the source raises, catches
  or lets through. The class hierarchy is the nesting of the datatypes: \<open>except UploadError\<close>
  is a match on \<open>Upload\<close>, \<open>except QdrantError\<close> a match on \<open>Qdrant\<close>.
\<close>

section \<open>Upload errors\<close>

type_synonym details = "(string \<times> json) list"

datatype upload_error =
    InvalidPayloadError (message: string) (details: details)
  | NoEmbeddableContentError (message: string) (details: details)
  | QdrantWriteError (message: string) (details: details)
  | EmbedderError (message: string) (details: details)
  | ConcurrentUploadError (message: string) (retry_after: int) (details: details)
  | DocumentTooLargeError (message: string) (details: details)
  | DocumentNotFoundError (message: string) (details: details)

primrec http_status :: "upload_error \<Rightarrow> int" where
  "http_status (InvalidPayloadError m d) = 400"
| "http_status (NoEmbeddableContentError m d) = 422"
| "http_status (QdrantWriteError m d) = 500"
| "http_status (EmbedderError m d) = 500"
| "http_status (ConcurrentUploadError m r d) = 409"
| "http_status (DocumentTooLargeError m d) = 422"
| "http_status (DocumentNotFoundError m d) = 404"

primrec error_code :: "upload_error \<Rightarrow> string" where
  "error_code (InvalidPayloadError m d) = ''invalid_payload''"
| "error_code (NoEmbeddableContentError m d) = ''no_embeddable_content''"
| "error_code (QdrantWriteError m d) = ''qdrant_write_failed''"
| "error_code (EmbedderError m d) = ''embedder_failed''"
| "error_code (ConcurrentUploadError m r d) = ''concurrent_upload''"
| "error_code (DocumentTooLargeError m d) = ''too_many_chunks''"
| "error_code (DocumentNotFoundError m d) = ''document_not_found''"

primrec upload_error_class :: "upload_error \<Rightarrow> string" where
  "upload_error_class (InvalidPayloadError m d) = ''InvalidPayloadError''"
| "upload_error_class (NoEmbeddableContentError m d) = ''NoEmbeddableContentError''"
| "upload_error_class (QdrantWriteError m d) = ''QdrantWriteError''"
| "upload_error_class (EmbedderError m d) = ''EmbedderError''"
| "upload_error_class (ConcurrentUploadError m r d) = ''ConcurrentUploadError''"
| "upload_error_class (DocumentTooLargeError m d) = ''DocumentTooLargeError''"
| "upload_error_class (DocumentNotFoundError m d) = ''DocumentNotFoundError''"

section \<open>Vector-store errors\<close>

datatype qdrant_error =
    QdrantConnectionError string
  | CollectionSchemaMismatchError string "(string \<times> string) list"
  | QdrantOperationError string
  | CollectionNotFoundError string

text \<open>\<open>{k!r: v!r, ...}\<close>, the text of a dict of strings.\<close>

fun join_with :: "string \<Rightarrow> string list \<Rightarrow> string" where
  "join_with sep [] = []"
| "join_with sep [x] = x"
| "join_with sep (x # y # zs) = x @ sep @ join_with sep (y # zs)"

definition dict_repr :: "(string \<times> string) list \<Rightarrow> string" where
  "dict_repr d = ''{'' @ join_with '', '' (map (\<lambda>(k, v). py_repr k @ '': '' @ py_repr v) d) @ ''}''"

primrec qdrant_error_text :: "qdrant_error \<Rightarrow> string" where
  "qdrant_error_text (QdrantConnectionError m) = m"
| "qdrant_error_text (CollectionSchemaMismatchError n diff) =
     ''Collection '' @ py_repr n @ '' schema mismatch: '' @ dict_repr diff"
| "qdrant_error_text (QdrantOperationError m) = m"
| "qdrant_error_text (CollectionNotFoundError m) = m"

primrec qdrant_error_class :: "qdrant_error \<Rightarrow> string" where
  "qdrant_error_class (QdrantConnectionError m) = ''QdrantConnectionError''"
| "qdrant_error_class (CollectionSchemaMismatchError n diff) = ''CollectionSchemaMismatchError''"
| "qdrant_error_class (QdrantOperationError m) = ''QdrantOperationError''"
| "qdrant_error_class (CollectionNotFoundError m) = ''CollectionNotFoundError''"

section \<open>All exceptions\<close>

datatype grpc_code =
    OK | CANCELLED | UNKNOWN | INVALID_ARGUMENT | DEADLINE_EXCEEDED | NOT_FOUND
  | ALREADY_EXISTS | PERMISSION_DENIED | RESOURCE_EXHAUSTED | FAILED_PRECONDITION | ABORTED
  | OUT_OF_RANGE | UNIMPLEMENTED | INTERNAL | UNAVAILABLE | DATA_LOSS | UNAUTHENTICATED

text \<open>
  \<open>RpcError cls code msg\<close> is a \<open>grpc.RpcError\<close> of class \<open>cls\<close>, with \<open>code\<close> what its
  \<open>code()\<close> returns (\<open>None\<close>: it has no such method); \<open>UnexpectedResponse status msg\<close> is the
  REST error of the Qdrant client; \<open>OtherError cls msg\<close> is any other exception.
\<close>

datatype exn =
    Upload upload_error
  | Qdrant qdrant_error
  | InvalidIdentifierError string
  | ValueError string
  | KeyError string
  | IndexError string
  | StructError string
  | IntegrityError string
  | DataError string
  | DoesNotExist string string
  | RpcError string "grpc_code option" string
  | UnexpectedResponse "int option" string
  | OtherError string string

text \<open>\<open>str(exc)\<close> and \<open>type(exc).__name__\<close>.\<close>

primrec exn_text :: "exn \<Rightarrow> string" where
  "exn_text (Upload u) = message u"
| "exn_text (Qdrant q) = qdrant_error_text q"
| "exn_text (InvalidIdentifierError m) = m"
| "exn_text (ValueError m) = m"
| "exn_text (KeyError k) = py_repr k"
| "exn_text (IndexError m) = m"
| "exn_text (StructError m) = m"
| "exn_text (IntegrityError m) = m"
| "exn_text (DataError m) = m"
| "exn_text (DoesNotExist cls m) = m"
| "exn_text (RpcError cls c m) = m"
| "exn_text (UnexpectedResponse st m) = m"
| "exn_text (OtherError cls m) = m"

primrec exn_class :: "exn \<Rightarrow> string" where
  "exn_class (Upload u) = upload_error_class u"
| "exn_class (Qdrant q) = qdrant_error_class q"
| "exn_class (InvalidIdentifierError m) = ''InvalidIdentifierError''"
| "exn_class (ValueError m) = ''ValueError''"
| "exn_class (KeyError k) = ''KeyError''"
| "exn_class (IndexError m) = ''IndexError''"
| "exn_class (StructError m) = ''error''"
| "exn_class (IntegrityError m) = ''IntegrityError''"
| "exn_class (DataError m) = ''DataError''"
| "exn_class (DoesNotExist cls m) = ''DoesNotExist''"
| "exn_class (RpcError cls c m) = cls"
| "exn_class (UnexpectedResponse st m) = ''UnexpectedResponse''"
| "exn_class (OtherError cls m) = cls"

definition is_upload_error :: "exn \<Rightarrow> bool" where
  "is_upload_error e = (case e of Upload _ \<Rightarrow> True | _ \<Rightarrow> False)"

definition is_qdrant_error :: "exn \<Rightarrow> bool" where
  "is_qdrant_error e = (case e of Qdrant _ \<Rightarrow> True | _ \<Rightarrow> False)"

lemma is_upload_error_simps [simp]:
  "is_upload_error (Upload u)" "\<not> is_upload_error (Qdrant q)"
  by (simp_all add: is_upload_error_def)

lemma is_qdrant_error_simps [simp]:
  "is_qdrant_error (Qdrant q)" "\<not> is_qdrant_error (Upload u)"
  by (simp_all add: is_qdrant_error_def)

text \<open>Computations of the service raise \<^typ>\<open>exn\<close>.\<close>

type_synonym ('s, 'a) prog = "('s, exn, 'a) io"

lemma http_status_values: "http_status u \<in> {400, 404, 409, 422, 500}"
  by (cases u) simp_all

end
