(* ===== verification/Slugs.thy ===== *)
theory Slugs
  imports Errors
begin

text \<open>
  Tenant and bot identifiers: \<^verbatim>\<open>apps/tenants/validators.py\<close>. An identifier is a slug,
  3 to 40 characters of \<^verbatim>\<open>[a-z0-9_]\<close> that do not start with an underscore;
  \<open>normalize_slug\<close> turns the hyphenated form of a UUID into one.
\<close>

section \<open>The interface names are built on\<close>

text \<open>
  What the code that joins identifiers into names relies on: a valid identifier is not
  empty, has at most \<open>bound\<close> characters, and never holds the separator \<open>bar\<close>.
\<close>

locale identifier_contract =
  fixes valid :: "string \<Rightarrow> bool" and bound :: nat and bar :: char
  assumes valid_nonempty: "valid s \<Longrightarrow> s \<noteq> []"
    and valid_bound: "valid s \<Longrightarrow> length s \<le> bound"
    and valid_no_bar: "valid s \<Longrightarrow> bar \<notin> set s"
begin

text \<open>Two identifiers and any third part, joined by \<open>bar\<close>, determine all three.\<close>

lemma joined_inject:
  assumes "valid t" "valid b" "valid t'" "valid b'"
  shows "t @ bar # b @ bar # d = t' @ bar # b' @ bar # d' \<longleftrightarrow> t = t' \<and> b = b' \<and> d = d'"
  using split_at_sep [of t bar "b @ bar # d" t' "b' @ bar # d'"]
    split_at_sep [of b bar d b' d'] assms valid_no_bar by blast

lemma joined_length:
  assumes "valid t" "valid b"
  shows "length (p @ t @ q @ b) \<le> length p + length q + 2 * bound"
  using assms valid_bound [of t] valid_bound [of b] by simp

end

section \<open>The code\<close>

definition slug_first_char :: "char \<Rightarrow> bool" where
  "slug_first_char c = (let n = (code_point c :: nat) in 97 \<le> n \<and> n \<le> 122 \<or> 48 \<le> n \<and> n \<le> 57)"

definition slug_char :: "char \<Rightarrow> bool" where
  "slug_char c = (slug_first_char c \<or> c = CHR ''_'')"

text \<open>\<^verbatim>\<open>SLUG_REGEX.fullmatch\<close> for \<^verbatim>\<open>^[a-z0-9][a-z0-9_]{2,39}$\<close>.\<close>

definition slug_fullmatch :: "string \<Rightarrow> bool" where
  "slug_fullmatch s = (case s of [] \<Rightarrow> False
     | c # cs \<Rightarrow> slug_first_char c \<and> 2 \<le> length cs \<and> length cs \<le> 39 \<and> list_all slug_char cs)"

definition slug_pattern :: string where
  "slug_pattern = ''^[a-z0-9][a-z0-9_]{2,39}$''"

definition validate_slug :: "string \<Rightarrow> string \<Rightarrow> exn + unit" where
  "validate_slug field_name value = (if \<not> slug_fullmatch value
     then Inl (InvalidIdentifierError
       (field_name @ '' '' @ py_repr value @ '' does not match '' @ slug_pattern))
     else Inr ())"

text \<open>
  The model-field validator searches instead of matching in full, so its \<open>$\<close> also
  accepts one final newline.
\<close>

definition slug_validator :: "string \<Rightarrow> bool" where
  "slug_validator s = (slug_fullmatch s \<or>
     (s \<noteq> [] \<and> last s = char_of (10::nat) \<and> slug_fullmatch (butlast s)))"

definition normalize_slug :: "string \<Rightarrow> string" where
  "normalize_slug value = py_remove_char (CHR ''-'') value"

section \<open>Lemmas\<close>

lemma slug_first_char_not_underscore [simp]: "\<not> slug_first_char (CHR ''_'')"
  by (simp add: slug_first_char_def)

lemma slug_char_not_special:
  "slug_char c \<Longrightarrow> c \<noteq> CHR ''|'' \<and> c \<noteq> CHR ''-'' \<and> \<not> py_isspace c"
  by (auto simp: slug_char_def slug_first_char_def py_isspace_def Let_def)

lemma slug_fullmatch_iff:
  "slug_fullmatch s \<longleftrightarrow>
     3 \<le> length s \<and> length s \<le> 40 \<and> (\<forall>c \<in> set s. slug_char c) \<and> hd s \<noteq> CHR ''_''"
  by (cases s) (auto simp: slug_fullmatch_def slug_char_def list_all_iff)

lemma slug_fullmatch_chars: "slug_fullmatch s \<Longrightarrow> c \<in> set s \<Longrightarrow> slug_char c"
  by (simp add: slug_fullmatch_iff)

lemma validate_slug_Inr [simp]: "validate_slug f v = Inr u \<longleftrightarrow> slug_fullmatch v"
  by (simp add: validate_slug_def)

lemma validate_slug_ok: "slug_fullmatch v \<Longrightarrow> validate_slug f v = Inr ()"
  by (simp add: validate_slug_def)

lemma validate_slug_Inl:
  "validate_slug f v = Inl e \<Longrightarrow> \<not> slug_fullmatch v \<and> (\<exists>m. e = InvalidIdentifierError m)"
  by (auto simp: validate_slug_def split: if_splits)

interpretation slug: identifier_contract slug_fullmatch 40 "CHR ''|''"
proof unfold_locales
  fix s
  assume s: "slug_fullmatch s"
  then show "s \<noteq> []" and "length s \<le> 40" by (auto simp: slug_fullmatch_iff)
  show "CHR ''|'' \<notin> set s" using slug_fullmatch_chars [OF s] slug_char_not_special by blast
qed

lemma normalize_slug_id: "slug_fullmatch s \<Longrightarrow> normalize_slug s = s"
  unfolding normalize_slug_def py_remove_char_def
  by (rule filter_True) (use slug_fullmatch_chars slug_char_not_special in blast)

lemma normalize_slug_idem [simp]: "normalize_slug (normalize_slug s) = normalize_slug s"
  by (simp add: normalize_slug_def py_remove_char_def)

text \<open>The 36-character form of a UUID: 8-4-4-4-12 lower-case hexadecimal digits.\<close>

definition hex_char :: "char \<Rightarrow> bool" where
  "hex_char c = (let n = (code_point c :: nat) in 48 \<le> n \<and> n \<le> 57 \<or> 97 \<le> n \<and> n \<le> 102)"

definition uuid_text :: "string \<Rightarrow> bool" where
  "uuid_text s = (length s = 36 \<and>
     list_all (\<lambda>i. if i \<in> set [8, 13, 18, 23] then s ! i = CHR ''-'' else hex_char (s ! i)) [0..<36])"

lemma hex_char_slug: "hex_char c \<Longrightarrow> slug_first_char c \<and> c \<noteq> CHR ''-''"
  by (auto simp: hex_char_def slug_first_char_def Let_def)

lemma uuid_textD:
  assumes "uuid_text s" and "i < 36"
  shows "s ! i = CHR ''-'' \<longleftrightarrow> i \<in> {8, 13, 18, 23}"
    and "i \<notin> {8, 13, 18, 23} \<Longrightarrow> hex_char (s ! i)"
proof -
  have "i \<in> set [0..<36]" using assms(2) by simp
  then have "if i \<in> set [8, 13, 18, 23] then s ! i = CHR ''-'' else hex_char (s ! i)"
    using assms(1) unfolding uuid_text_def list_all_iff by blast
  then show "s ! i = CHR ''-'' \<longleftrightarrow> i \<in> {8, 13, 18, 23}"
    and "i \<notin> {8, 13, 18, 23} \<Longrightarrow> hex_char (s ! i)"
    using hex_char_slug [of "s ! i"] by (auto split: if_splits)
qed

lemma normalize_uuid_length:
  assumes "uuid_text s"
  shows "length (normalize_slug s) = 32"
proof -
  have len: "length s = 36" using assms by (simp add: uuid_text_def)
  have "{i. i < 36 \<and> s ! i \<noteq> CHR ''-''} = {..<36} - {8, 13, 18, 23}"
    using uuid_textD(1) [OF assms] by auto
  then show ?thesis
    unfolding normalize_slug_def py_remove_char_def length_filter_conv_card len by simp
qed

lemma normalize_uuid_valid:
  assumes "uuid_text s"
  shows "slug_fullmatch (normalize_slug s)"
proof -
  have len: "length s = 36" using assms by (simp add: uuid_text_def)
  have chars: "slug_first_char c" if c: "c \<in> set (normalize_slug s)" for c
  proof -
    from c obtain i where i: "i < 36" "s ! i = c" "c \<noteq> CHR ''-''"
      by (auto simp: normalize_slug_def py_remove_char_def in_set_conv_nth len)
    with uuid_textD [OF assms i(1)] have "hex_char c" by auto
    then show ?thesis by (simp add: hex_char_slug)
  qed
  have ne: "normalize_slug s \<noteq> []" using normalize_uuid_length [OF assms] by auto
  then have "slug_first_char (hd (normalize_slug s))" by (intro chars) simp
  then show ?thesis
    using chars normalize_uuid_length [OF assms]
    by (auto simp: slug_fullmatch_iff slug_char_def)
qed

end
