(* ===== verification/Naming.thy ===== *)
theory Naming
  imports Slugs
begin

text \<open>
  Names derived from identifiers: \<^verbatim>\<open>apps/qdrant_core/naming.py\<close>. One function names the
  Qdrant collection of a bot, the other derives the pair of signed 32-bit keys of the
  Postgres advisory lock that serialises the work on one document. SHA-256 is the
  parameter \<open>sha256\<close>.
\<close>

section \<open>The code\<close>

definition collection_name :: "string \<Rightarrow> string \<Rightarrow> exn + string" where
  "collection_name tenant_id bot_id =
     and_then (validate_slug ''tenant_id'' tenant_id) (\<lambda>_.
     and_then (validate_slug ''bot_id'' bot_id) (\<lambda>_.
     Inr (''t_'' @ tenant_id @ ''__b_'' @ bot_id)))"

text \<open>\<^verbatim>\<open>struct.unpack(">ii", bs)\<close>: two big-endian two's-complement 32-bit integers.\<close>

definition be_word :: "byte list \<Rightarrow> 32 word" where
  "be_word bs = word_of_nat (foldl (\<lambda>n b. 256 * n + unat b) 0 bs)"

definition unpack_ii :: "byte list \<Rightarrow> exn + int \<times> int" where
  "unpack_ii bs = (if length bs \<noteq> 8
     then Inl (StructError ''unpack requires a buffer of 8 bytes'')
     else Inr (sint (be_word (take 4 bs)), sint (be_word (drop 4 bs))))"

definition advisory_lock_key ::
  "(byte list \<Rightarrow> byte list) \<Rightarrow> string \<Rightarrow> string \<Rightarrow> string \<Rightarrow> exn + int \<times> int" where
  "advisory_lock_key sha256 tenant_id bot_id doc_id =
     and_then (validate_slug ''tenant_id'' tenant_id) (\<lambda>_.
     and_then (validate_slug ''bot_id'' bot_id) (\<lambda>_.
     if doc_id = []
     then Inl (ValueError (''doc_id must be a non-empty string, got '' @ py_repr doc_id))
     else unpack_ii (take 8 (sha256 (py_encode (tenant_id @ ''|'' @ bot_id @ ''|'' @ doc_id))))))"

section \<open>Collection names\<close>

lemma collection_name_Inr:
  "collection_name t b = Inr n \<longleftrightarrow>
     slug_fullmatch t \<and> slug_fullmatch b \<and> n = ''t_'' @ t @ ''__b_'' @ b"
  by (auto simp: collection_name_def and_then_Inr_iff)

lemma collection_name_ok:
  "slug_fullmatch t \<Longrightarrow> slug_fullmatch b \<Longrightarrow> collection_name t b = Inr (''t_'' @ t @ ''__b_'' @ b)"
  by (simp add: collection_name_Inr)

lemma collection_name_Inl:
  "collection_name t b = Inl e \<Longrightarrow>
     \<not> (slug_fullmatch t \<and> slug_fullmatch b) \<and> (\<exists>m. e = InvalidIdentifierError m)"
  by (auto simp: collection_name_def and_then_def dest: validate_slug_Inl split: sum.splits)

text \<open>
  Where two splittings of one string at \<^verbatim>\<open>__b_\<close> differ, the longer left part holds the
  separator or the shorter one is followed by an underscore, which no slug starts with.
\<close>

lemma separator_overlap:
  assumes eq: "u @ ''__b_'' @ b = ''__b_'' @ b'" and u: "u \<noteq> []"
    and b': "b' \<noteq> []" "hd b' \<noteq> CHR ''_''"
  shows "prefix ''__b_'' u"
proof (cases "4 \<le> length u")
  case True
  have "take 4 u = ''__b_''"
    using arg_cong [OF eq, of "take 4"] True by simp
  then show ?thesis using take_is_prefix [of 4 u] by simp
next
  case False
  with u consider c where "u = [c]" | c d where "u = [c, d]" | c d e where "u = [c, d, e]"
    by (cases u rule: list.exhaust) (auto simp: length_Suc_conv numeral_eq_Suc not_le
        less_Suc_eq le_Suc_eq)
  then show ?thesis
    using eq b' by cases (auto simp: Cons_eq_append_conv)
qed

lemma name_split_inject:
  assumes eq: "t @ ''__b_'' @ b = t' @ ''__b_'' @ b'"
    and b: "b \<noteq> []" "hd b \<noteq> CHR ''_''" and b': "b' \<noteq> []" "hd b' \<noteq> CHR ''_''"
    and t: "\<not> py_contains t ''__b_''" and t': "\<not> py_contains t' ''__b_''"
  shows "t = t' \<and> b = b'"
proof -
  from eq consider u where "t = t' @ u" "u @ ''__b_'' @ b = ''__b_'' @ b'"
    | u where "t' = t @ u" "u @ ''__b_'' @ b' = ''__b_'' @ b"
    by (auto simp: append_eq_append_conv2)
  then show ?thesis
  proof cases
    case (1 u)
    have "u = []"
    proof (rule ccontr)
      assume "u \<noteq> []"
      then have "prefix ''__b_'' u" using separator_overlap [OF 1(2)] b' by blast
      with 1(1) t show False by (auto simp: py_contains_append prefix_def)
    qed
    with 1 show ?thesis by simp
  next
    case (2 u)
    have "u = []"
    proof (rule ccontr)
      assume "u \<noteq> []"
      then have "prefix ''__b_'' u" using separator_overlap [OF 2(2)] b by blast
      with 2(1) t' show False by (auto simp: py_contains_append prefix_def)
    qed
    with 2 show ?thesis by simp
  qed
qed

text \<open>
  C18 (isolation by naming). Every accepted pair of identifiers names a collection that fits
  the \<^verbatim>\<open>collection_name\<close> column (100 characters), and pairs whose tenant does not contain
  the separator \<^verbatim>\<open>__b_\<close> (so every pair of hyphen-free UUIDs) never share a collection.
\<close>

theorem collection_name_isolates:
  assumes "collection_name t b = Inr n" and "collection_name t' b' = Inr n'"
    and "\<not> py_contains t ''__b_''" and "\<not> py_contains t' ''__b_''"
  shows "(n = n' \<longleftrightarrow> t = t' \<and> b = b') \<and> length n \<le> 86 \<and> length n \<le> 100"
proof -
  from assms(1,2) have v: "slug_fullmatch t" "slug_fullmatch b" "slug_fullmatch t'" "slug_fullmatch b'"
    and n: "n = ''t_'' @ t @ ''__b_'' @ b" and n': "n' = ''t_'' @ t' @ ''__b_'' @ b'"
    by (auto simp: collection_name_Inr)
  have "length n \<le> 86" using slug.joined_length [OF v(1,2), of "''t_''" "''__b_''"] n by simp
  moreover have "n = n' \<longleftrightarrow> t = t' \<and> b = b'"
    using name_split_inject [of t b t' b'] assms(3,4) v slug.valid_nonempty
    by (auto simp: n n' slug_fullmatch_iff)
  ultimately show ?thesis by simp
qed

theorem collection_name_isolates_witness:
  "collection_name ''acme'' ''bot1'' = Inr ''t_acme__b_bot1'' \<and>
   collection_name ''acme'' ''bot2'' = Inr ''t_acme__b_bot2'' \<and>
   length ''t_acme__b_bot1'' \<le> 86"
proof -
  have n: "collection_name ''acme'' ''bot1'' = Inr ''t_acme__b_bot1''"
    "collection_name ''acme'' ''bot2'' = Inr ''t_acme__b_bot2''"
    by code_simp+
  have "\<not> py_contains ''acme'' ''__b_''" by code_simp
  from collection_name_isolates [OF n this this] n show ?thesis by simp
qed

text \<open>
  A defect. Without that side condition the names collide: two different, valid
  (tenant, bot) pairs share one collection, so "each bot gets its own collection" fails.
\<close>

theorem collection_name_collides:
  "\<exists>t b t' b'. t \<noteq> t' \<and> b \<noteq> b' \<and> slug_fullmatch t \<and> slug_fullmatch t' \<and>
     collection_name t b = collection_name t' b' \<and> (\<exists>n. collection_name t b = Inr n)"
proof -
  have "collection_name ''abc__b_def'' ''ghi'' = Inr ''t_abc__b_def__b_ghi''"
    "collection_name ''abc'' ''def__b_ghi'' = Inr ''t_abc__b_def__b_ghi''"
    "slug_fullmatch ''abc__b_def''" "slug_fullmatch ''abc''"
    by code_simp+
  then show ?thesis
    by (intro exI [of _ "''abc__b_def''"] exI [of _ "''ghi''"] exI [of _ "''abc''"]
        exI [of _ "''def__b_ghi''"]) auto
qed

section \<open>Lock keys\<close>

lemma unat_byte_less: "unat (b :: byte) < 256"
  by (rule order_less_le_trans [OF unsigned_less]) simp

lemma unat_word32: "n < 2 ^ 32 \<Longrightarrow> unat (word_of_nat n :: 32 word) = n"
  by (simp add: unat_of_nat)

lemma base256_inject:
  assumes "y < (256::nat)" and "y' < 256"
  shows "256 * x + y = 256 * x' + y' \<longleftrightarrow> x = x' \<and> y = y'"
proof -
  have "(256 * x + y) div 256 = x" and "(256 * x' + y') div 256 = x'" using assms by simp_all
  then have "x = x'" if "256 * x + y = 256 * x' + y'" using that by metis
  then show ?thesis by auto
qed

lemma base256_less: "x < N \<Longrightarrow> y < (256::nat) \<Longrightarrow> 256 * x + y < 256 * N"
  by linarith

lemma be_word_value:
  assumes "length bs = 4"
  shows "unat (be_word bs) = foldl (\<lambda>n b. 256 * n + unat b) 0 bs"
proof -
  obtain b0 b1 b2 b3 where bs: "bs = [b0, b1, b2, b3]"
    using assms by (auto simp: numeral_eq_Suc length_Suc_conv)
  have less: "256 * (256 * (256 * (256 * 0 + unat b0) + unat b1) + unat b2) + unat b3
      < 256 * (256 * (256 * (256 * 1)))"
    by (intro base256_less unat_byte_less zero_less_one)
  have max: "256 * (256 * (256 * (256 * 1))) = (2 ^ 32 :: nat)" by simp
  from less have lt: "foldl (\<lambda>n b. 256 * n + unat b) 0 bs < 2 ^ 32"
    unfolding max bs foldl_Cons foldl_Nil .
  show ?thesis unfolding be_word_def using lt by (rule unat_word32)
qed

lemma be_word_inject:
  assumes "length bs = 4" and "length cs = 4"
  shows "be_word bs = be_word cs \<longleftrightarrow> bs = cs"
proof -
  obtain b0 b1 b2 b3 c0 c1 c2 c3 where bs: "bs = [b0, b1, b2, b3]" and cs: "cs = [c0, c1, c2, c3]"
    using assms by (auto simp: numeral_eq_Suc length_Suc_conv)
  have "bs = cs" if "be_word bs = be_word cs"
  proof -
    have "256 * (256 * (256 * (256 * 0 + unat b0) + unat b1) + unat b2) + unat b3
        = 256 * (256 * (256 * (256 * 0 + unat c0) + unat c1) + unat c2) + unat c3"
      using arg_cong [OF that, of unat] unfolding be_word_value [OF assms(1)] be_word_value [OF assms(2)]
      by (simp add: bs cs)
    then show ?thesis
      by (simp only: base256_inject unat_byte_less bs cs) (auto intro: unsigned_word_eqI)
  qed
  then show ?thesis by auto
qed

lemma unpack_ii_inject:
  assumes "unpack_ii bs = Inr k" and "unpack_ii cs = Inr k"
  shows "bs = cs"
proof -
  from assms have len: "length bs = 8" "length cs = 8"
    and eq: "sint (be_word (take 4 bs)) = sint (be_word (take 4 cs))"
      "sint (be_word (drop 4 bs)) = sint (be_word (drop 4 cs))"
    by (auto simp: unpack_ii_def split: if_splits)
  have "be_word (take 4 bs) = be_word (take 4 cs)" "be_word (drop 4 bs) = be_word (drop 4 cs)"
    using eq by (auto intro: signed_word_eqI)
  with len have "take 4 bs = take 4 cs" "drop 4 bs = drop 4 cs"
    by (simp_all add: be_word_inject)
  then show ?thesis by (metis append_take_drop_id)
qed

lemma sint_word32_range: "- (2 ^ 31) \<le> sint (w :: 32 word) \<and> sint w < 2 ^ 31"
  using sint_greater_eq [of w] sint_less [of w] by simp

lemma unpack_ii_range:
  "unpack_ii bs = Inr (k1, k2) \<Longrightarrow>
     - (2 ^ 31) \<le> k1 \<and> k1 < 2 ^ 31 \<and> - (2 ^ 31) \<le> k2 \<and> k2 < 2 ^ 31"
  using sint_word32_range by (auto simp: unpack_ii_def split: if_splits)

lemma lock_message_inject:
  assumes "slug_fullmatch t" "slug_fullmatch b" "slug_fullmatch t'" "slug_fullmatch b'"
  shows "py_encode (t @ ''|'' @ b @ ''|'' @ d) = py_encode (t' @ ''|'' @ b' @ ''|'' @ d')
     \<longleftrightarrow> t = t' \<and> b = b' \<and> d = d'"
  using slug.joined_inject [OF assms] by (simp del: py_encode_append)

lemma advisory_lock_key_Inr:
  "advisory_lock_key sha t b d = Inr k \<longleftrightarrow> slug_fullmatch t \<and> slug_fullmatch b \<and> d \<noteq> [] \<and>
     unpack_ii (take 8 (sha (py_encode (t @ ''|'' @ b @ ''|'' @ d)))) = Inr k"
  by (auto simp: advisory_lock_key_def and_then_Inr_iff simp del: py_encode_append split: if_splits)

lemma advisory_lock_key_total:
  assumes "\<And>m. length (sha m) = 32" and "slug_fullmatch t" "slug_fullmatch b" "d \<noteq> []"
  shows "\<exists>k1 k2. advisory_lock_key sha t b d = Inr (k1, k2)"
  using assms by (simp add: advisory_lock_key_Inr unpack_ii_def del: py_encode_append)

text \<open>
  Lock keys. For accepted identifiers and a document id, a 32-byte digest gives two
  keys that both fit Postgres' signed \<^verbatim>\<open>int\<close>; and two documents share their lock key only if
  they are the same document of the same bot or the first eight digest bytes of two
  different messages agree, so the text hashed never confuses two documents.
\<close>

theorem advisory_lock_key_sound:
  assumes sha: "\<And>m. length (sha m) = 32"
    and v: "slug_fullmatch t" "slug_fullmatch b" "slug_fullmatch t'" "slug_fullmatch b'"
    and d: "d \<noteq> []" "d' \<noteq> []"
  shows "\<exists>k1 k2. advisory_lock_key sha t b d = Inr (k1, k2) \<and>
      - (2 ^ 31) \<le> k1 \<and> k1 < 2 ^ 31 \<and> - (2 ^ 31) \<le> k2 \<and> k2 < 2 ^ 31 \<and>
      (advisory_lock_key sha t' b' d' = Inr (k1, k2) \<longleftrightarrow>
         (t, b, d) = (t', b', d') \<or>
         (\<exists>m m'. m \<noteq> m' \<and> m = py_encode (t @ ''|'' @ b @ ''|'' @ d) \<and>
            m' = py_encode (t' @ ''|'' @ b' @ ''|'' @ d') \<and> take 8 (sha m) = take 8 (sha m')))"
proof -
  define m where "m = py_encode (t @ ''|'' @ b @ ''|'' @ d)"
  define m' where "m' = py_encode (t' @ ''|'' @ b' @ ''|'' @ d')"
  obtain k1 k2 where k: "advisory_lock_key sha t b d = Inr (k1, k2)"
    using advisory_lock_key_total [of sha, OF sha v(1,2) d(1)] by blast
  then have u: "unpack_ii (take 8 (sha m)) = Inr (k1, k2)"
    unfolding m_def by (simp only: advisory_lock_key_Inr)
  have k': "advisory_lock_key sha t' b' d' = Inr (k1, k2) \<longleftrightarrow> take 8 (sha m') = take 8 (sha m)"
    unfolding m'_def using u v(3,4) d(2) unpack_ii_inject by (metis advisory_lock_key_Inr m'_def)
  have mm: "m = m' \<longleftrightarrow> (t, b, d) = (t', b', d')"
    unfolding m_def m'_def lock_message_inject [OF v] by simp
  have "take 8 (sha m') = take 8 (sha m) \<longleftrightarrow>
      (t, b, d) = (t', b', d') \<or> (m \<noteq> m' \<and> take 8 (sha m) = take 8 (sha m'))"
    using mm by (cases "m = m'") auto
  with k k' unpack_ii_range [OF u] show ?thesis
    unfolding m_def m'_def by blast
qed

theorem advisory_lock_key_sound_witness:
  "\<exists>k1 k2. advisory_lock_key (\<lambda>m. replicate 32 255) ''acme'' ''bot1'' ''d1'' = Inr (k1, k2) \<and>
     - (2 ^ 31) \<le> k1"
  using advisory_lock_key_sound [of "\<lambda>m. replicate 32 255" "''acme''" "''bot1''" "''acme''" "''bot1''"
      "''d1''" "''d2''"]
  by (auto simp: slug_fullmatch_def slug_char_def slug_first_char_def Let_def)

end
