(* ===== verification/Tables.thy ===== *)
theory Tables
  imports Naming
begin

text \<open>
  The relational data, \<^verbatim>\<open>apps/tenants/models.py\<close> and \<^verbatim>\<open>apps/documents/models.py\<close>: tenants,
  bots and documents, each table the list of its rows in insertion order, and the
  statements the service issues on them. Column widths, uniqueness and foreign keys are
  enforced by the statements, which raise what the database adapter raises; a failed
  statement changes nothing.
\<close>

section \<open>Rows\<close>

record tenant_row =
  tn_tenant_id :: string
  tn_name :: string
  tn_created_at :: nat

record bot_row =
  bt_pk :: nat
  bt_tenant_id :: string
  bt_bot_id :: string
  bt_name :: string
  bt_collection_name :: string
  bt_created_at :: nat

definition PENDING :: string where "PENDING = ''pending''"
definition ACTIVE :: string where "ACTIVE = ''active''"
definition DELETED :: string where "DELETED = ''deleted''"
definition FAILED :: string where "FAILED = ''failed''"

record doc_row =
  dc_doc_id :: string
  dc_bot_ref :: nat
  dc_tenant_id :: string
  dc_bot_id :: string
  dc_source_type :: string
  dc_source_filename :: "string option"
  dc_source_url :: "string option"
  dc_content_hash :: string
  dc_chunk_count :: nat
  dc_item_count :: nat
  dc_status :: string
  dc_error_message :: "string option"
  dc_raw_payload :: "json option"
  dc_uploaded_at :: nat
  dc_last_refreshed_at :: nat

record database =
  db_tenants :: "tenant_row list"
  db_bots :: "bot_row list"
  db_docs :: "doc_row list"
  db_next_bot :: nat

type_synonym 'a statement = "(database, 'a) prog"

text \<open>\<open>character varying(n)\<close> and \<open>integer\<close> columns.\<close>

definition too_long :: "nat \<Rightarrow> exn" where
  "too_long n = DataError (''value too long for type character varying('' @ show_nat n @ '')'')"

definition check_widths :: "(nat \<times> string) list \<Rightarrow> exn + unit" where
  "check_widths cols = (case find (\<lambda>(n, v). n < length v) cols of
      None \<Rightarrow> Inr () | Some (n, v) \<Rightarrow> Inl (too_long n))"

definition check_integer :: "int \<Rightarrow> exn + unit" where
  "check_integer n = (if 2147483647 < n then Inl (DataError ''integer out of range'') else Inr ())"

section \<open>Tenants\<close>

definition find_tenant :: "string \<Rightarrow> database \<Rightarrow> tenant_row option" where
  "find_tenant t db = find (\<lambda>r. tn_tenant_id r = t) (db_tenants db)"

definition get_tenant :: "string \<Rightarrow> tenant_row statement" where
  "get_tenant t = (\<lambda>db. case find_tenant t db of
      None \<Rightarrow> (Inl (DoesNotExist ''Tenant'' ''Tenant matching query does not exist.''), db)
    | Some r \<Rightarrow> (Inr r, db))"

definition insert_tenant :: "tenant_row \<Rightarrow> tenant_row statement" where
  "insert_tenant r = (\<lambda>db. case check_widths [(40, tn_tenant_id r), (255, tn_name r)] of
      Inl e \<Rightarrow> (Inl e, db)
    | Inr _ \<Rightarrow> if find_tenant (tn_tenant_id r) db \<noteq> None
        then (Inl (IntegrityError ''duplicate key value violates unique constraint''), db)
        else (Inr r, db\<lparr>db_tenants := db_tenants db @ [r]\<rparr>))"

section \<open>Bots\<close>

definition find_bot :: "string \<Rightarrow> string \<Rightarrow> database \<Rightarrow> bot_row option" where
  "find_bot t b db = find (\<lambda>r. bt_tenant_id r = t \<and> bt_bot_id r = b) (db_bots db)"

definition get_bot :: "string \<Rightarrow> string \<Rightarrow> bot_row statement" where
  "get_bot t b = (\<lambda>db. case find_bot t b db of
      None \<Rightarrow> (Inl (DoesNotExist ''Bot'' ''Bot matching query does not exist.''), db)
    | Some r \<Rightarrow> (Inr r, db))"

definition insert_bot :: "bot_row \<Rightarrow> bot_row statement" where
  "insert_bot r = (\<lambda>db. case check_widths
        [(40, bt_tenant_id r), (40, bt_bot_id r), (255, bt_name r), (100, bt_collection_name r)] of
      Inl e \<Rightarrow> (Inl e, db)
    | Inr _ \<Rightarrow>
        if find_bot (bt_tenant_id r) (bt_bot_id r) db \<noteq> None
          \<or> list_ex (\<lambda>r'. bt_collection_name r' = bt_collection_name r) (db_bots db)
        then (Inl (IntegrityError ''duplicate key value violates unique constraint''), db)
        else if find_tenant (bt_tenant_id r) db = None
        then (Inl (IntegrityError ''insert violates foreign key constraint''), db)
        else let r' = r\<lparr>bt_pk := db_next_bot db\<rparr>
          in (Inr r', db\<lparr>db_bots := db_bots db @ [r'], db_next_bot := Suc (db_next_bot db)\<rparr>))"

text \<open>\<open>Bot.save\<close>: the collection name is always computed from the identifiers.\<close>

definition bot_save :: "bot_row \<Rightarrow> bot_row statement" where
  "bot_save r = bind_io (of_sum (collection_name (bt_tenant_id r) (bt_bot_id r))) (\<lambda>name.
     insert_bot (r\<lparr>bt_collection_name := name\<rparr>))"

section \<open>get\_or\_create\<close>

text \<open>
  Django's \<open>get_or_create\<close>: look up, create if missing, look up once more if creation hit a
  constraint.
\<close>

definition is_does_not_exist :: "exn \<Rightarrow> bool" where
  "is_does_not_exist e = (case e of DoesNotExist _ _ \<Rightarrow> True | _ \<Rightarrow> False)"

definition is_integrity_error :: "exn \<Rightarrow> bool" where
  "is_integrity_error e = (case e of IntegrityError _ \<Rightarrow> True | _ \<Rightarrow> False)"

definition get_or_create :: "'r statement \<Rightarrow> 'r statement \<Rightarrow> 'r statement" where
  "get_or_create look new = try_io look (\<lambda>e.
     if \<not> is_does_not_exist e then raise_io e
     else try_io new (\<lambda>e'.
       if \<not> is_integrity_error e' then raise_io e'
       else try_io look (\<lambda>e''. if is_does_not_exist e'' then raise_io e' else raise_io e'')))"

definition get_or_create_tenant :: "nat \<Rightarrow> string \<Rightarrow> tenant_row statement" where
  "get_or_create_tenant now t = try_io
     (get_or_create (get_tenant t)
       (insert_tenant \<lparr>tn_tenant_id = t, tn_name = t, tn_created_at = now\<rparr>))
     (\<lambda>e. if is_integrity_error e then get_tenant t else raise_io e)"

definition get_or_create_bot :: "nat \<Rightarrow> tenant_row \<Rightarrow> string \<Rightarrow> bot_row statement" where
  "get_or_create_bot now tenant b = try_io
     (get_or_create (get_bot (tn_tenant_id tenant) b)
       (bot_save \<lparr>bt_pk = 0, bt_tenant_id = tn_tenant_id tenant, bt_bot_id = b, bt_name = b,
          bt_collection_name = [], bt_created_at = now\<rparr>))
     (\<lambda>e. if is_integrity_error e then get_bot (tn_tenant_id tenant) b else raise_io e)"

section \<open>Documents\<close>

definition find_doc :: "string \<Rightarrow> database \<Rightarrow> doc_row option" where
  "find_doc d db = find (\<lambda>r. dc_doc_id r = d) (db_docs db)"

text \<open>\<open>first()\<close> under the model's ordering: the row uploaded last.\<close>

definition newest :: "doc_row list \<Rightarrow> doc_row option" where
  "newest rs = (case sort_key (\<lambda>r. - int (dc_uploaded_at r)) rs of [] \<Rightarrow> None | r # _ \<Rightarrow> Some r)"

text \<open>
  \<open>Document.objects.filter(...).exclude(doc_id=...).first()\<close>: an active, non-empty document
  of the bot with this content.
\<close>

definition same_content :: "string \<Rightarrow> string \<Rightarrow> string \<Rightarrow> string \<Rightarrow> doc_row \<Rightarrow> bool" where
  "same_content t b h d r = (dc_tenant_id r = t \<and> dc_bot_id r = b \<and> dc_content_hash r = h \<and>
     dc_status r = ACTIVE \<and> 0 < dc_chunk_count r \<and> dc_doc_id r \<noteq> d)"

definition content_match :: "string \<Rightarrow> string \<Rightarrow> string \<Rightarrow> string \<Rightarrow> database \<Rightarrow> doc_row option" where
  "content_match t b h d db = newest (filter (same_content t b h d) (db_docs db))"

text \<open>\<open>save(update_fields=...)\<close> writes the named fields of the row that is there.\<close>

definition update_doc :: "string \<Rightarrow> (doc_row \<Rightarrow> doc_row) \<Rightarrow> unit statement" where
  "update_doc d f = (\<lambda>db. if find_doc d db = None
     then (Inl (OtherError ''DatabaseError'' ''Save with update_fields did not affect any rows.''), db)
     else (Inr (), db\<lparr>db_docs := map (\<lambda>r. if dc_doc_id r = d then f r else r) (db_docs db)\<rparr>))"

definition refresh_doc :: "nat \<Rightarrow> string \<Rightarrow> unit statement" where
  "refresh_doc now d = update_doc d (\<lambda>r. r\<lparr>dc_last_refreshed_at := now\<rparr>)"

definition mark_deleted :: "nat \<Rightarrow> string \<Rightarrow> unit statement" where
  "mark_deleted now d = update_doc d (\<lambda>r. r\<lparr>dc_status := DELETED, dc_chunk_count := 0,
     dc_error_message := None, dc_last_refreshed_at := now\<rparr>)"

definition check_doc :: "doc_row \<Rightarrow> exn + unit" where
  "check_doc r =
     and_then (check_widths [(40, dc_tenant_id r), (40, dc_bot_id r), (20, dc_source_type r),
       (500, case dc_source_filename r of None \<Rightarrow> [] | Some f \<Rightarrow> f),
       (80, dc_content_hash r), (20, dc_status r)]) (\<lambda>_.
     and_then (check_integer (int (dc_chunk_count r))) (\<lambda>_. check_integer (int (dc_item_count r))))"

text \<open>
  \<open>update_or_create(doc_id=r.doc_id, defaults=...)\<close>: \<open>r\<close> holds the default fields; an
  existing row keeps its upload time.
\<close>

definition update_or_create_doc :: "nat \<Rightarrow> doc_row \<Rightarrow> unit statement" where
  "update_or_create_doc now r = (\<lambda>db. case check_doc r of
      Inl e \<Rightarrow> (Inl e, db)
    | Inr _ \<Rightarrow>
        if \<not> list_ex (\<lambda>b. bt_pk b = dc_bot_ref r) (db_bots db)
        then (Inl (IntegrityError ''insert or update violates foreign key constraint''), db)
        else (case find_doc (dc_doc_id r) db of
            Some old \<Rightarrow> update_doc (dc_doc_id r)
              (\<lambda>r0. r\<lparr>dc_uploaded_at := dc_uploaded_at r0, dc_last_refreshed_at := now\<rparr>) db
          | None \<Rightarrow> (Inr (), db\<lparr>db_docs := db_docs db @
              [r\<lparr>dc_uploaded_at := now, dc_last_refreshed_at := now\<rparr>]\<rparr>)))"


section \<open>Lookups\<close>

lemma find_keySome: "find (\<lambda>x. f x = k) xs = Some y \<Longrightarrow> y \<in> set xs \<and> f y = k"
  by (auto simp: find_Some_iff)

lemma find_key_unique:
  "distinct (map f xs) \<Longrightarrow> x \<in> set xs \<Longrightarrow> find (\<lambda>y. f y = f x) xs = Some x"
  by (induction xs) force+

lemma find_docD: "find_doc d db = Some r \<Longrightarrow> r \<in> set (db_docs db) \<and> dc_doc_id r = d"
  unfolding find_doc_def by (rule find_keySome)

lemma find_doc_None: "find_doc d db = None \<longleftrightarrow> d \<notin> dc_doc_id ` set (db_docs db)"
  by (auto simp: find_doc_def find_None_iff)

lemma find_tenantD: "find_tenant t db = Some r \<Longrightarrow> r \<in> set (db_tenants db) \<and> tn_tenant_id r = t"
  unfolding find_tenant_def by (rule find_keySome)

lemma find_tenant_None: "find_tenant t db = None \<longleftrightarrow> t \<notin> tn_tenant_id ` set (db_tenants db)"
  by (auto simp: find_tenant_def find_None_iff)

lemma find_botD:
  "find_bot t b db = Some r \<Longrightarrow> r \<in> set (db_bots db) \<and> bt_tenant_id r = t \<and> bt_bot_id r = b"
  by (auto simp: find_bot_def find_Some_iff)

lemma find_bot_None:
  "find_bot t b db = None \<longleftrightarrow> (t, b) \<notin> (\<lambda>r. (bt_tenant_id r, bt_bot_id r)) ` set (db_bots db)"
  by (auto simp: find_bot_def find_None_iff)

lemma check_widths_Inr:
  "check_widths cols = Inr u \<longleftrightarrow> (\<forall>(n, v) \<in> set cols. length v \<le> n)"
proof -
  have "check_widths cols = Inr u \<longleftrightarrow> find (\<lambda>(n, v). n < length v) cols = None"
    by (auto simp: check_widths_def split: option.splits)
  then show ?thesis by (auto simp: find_None_iff not_less)
qed

lemma newest_Some: "newest rs = Some r \<Longrightarrow> r \<in> set rs"
  unfolding newest_def by (metis (no_types, lifting) list.case_eq_if list.set_sel(1) option.inject option.distinct(1) set_sort)

lemma newest_None: "newest rs = None \<longleftrightarrow> rs = []"
  unfolding newest_def by (metis list.exhaust list.simps(4,5) option.distinct(1) set_sort set_empty)

lemma content_matchD:
  "content_match t b h d db = Some r \<Longrightarrow> r \<in> set (db_docs db) \<and> same_content t b h d r"
  by (auto simp: content_match_def dest!: newest_Some)

lemma content_match_None:
  "content_match t b h d db = None \<longleftrightarrow> (\<forall>r \<in> set (db_docs db). \<not> same_content t b h d r)"
  by (simp add: content_match_def newest_None filter_empty_conv)

section \<open>The invariant of the tables\<close>

definition bot_ok :: "database \<Rightarrow> bot_row \<Rightarrow> bool" where
  "bot_ok db r \<longleftrightarrow> bt_pk r < db_next_bot db \<and>
     collection_name (bt_tenant_id r) (bt_bot_id r) = Inr (bt_collection_name r) \<and>
     bt_tenant_id r \<in> tn_tenant_id ` set (db_tenants db)"

definition owns :: "database \<Rightarrow> doc_row \<Rightarrow> bool" where
  "owns db r \<longleftrightarrow> (\<exists>b \<in> set (db_bots db). bt_pk b = dc_bot_ref r \<and>
     bt_tenant_id b = dc_tenant_id r \<and> bt_bot_id b = dc_bot_id r)"

definition live_or_deleted :: "doc_row \<Rightarrow> bool" where
  "live_or_deleted r \<longleftrightarrow> (dc_status r = ACTIVE \<and> 0 < dc_chunk_count r) \<or>
     (dc_status r = DELETED \<and> dc_chunk_count r = 0)"

definition doc_ok :: "database \<Rightarrow> doc_row \<Rightarrow> bool" where
  "doc_ok db r \<longleftrightarrow> check_doc r = Inr () \<and> owns db r \<and> live_or_deleted r"

definition db_wf :: "database \<Rightarrow> bool" where
  "db_wf db \<longleftrightarrow>
     distinct (map tn_tenant_id (db_tenants db)) \<and>
     distinct (map bt_pk (db_bots db)) \<and>
     distinct (map bt_collection_name (db_bots db)) \<and>
     (\<forall>r \<in> set (db_bots db). bot_ok db r) \<and>
     distinct (map dc_doc_id (db_docs db)) \<and>
     (\<forall>r \<in> set (db_docs db). doc_ok db r)"

lemma bot_ids_distinct:
  assumes "db_wf db" and "r \<in> set (db_bots db)" and "r' \<in> set (db_bots db)"
    and "bt_tenant_id r = bt_tenant_id r'" and "bt_bot_id r = bt_bot_id r'"
  shows "r = r'"
proof -
  from assms have "bt_collection_name r = bt_collection_name r'"
    unfolding db_wf_def bot_ok_def by (metis sum.inject(2))
  with assms(1-3) show ?thesis by (auto simp: db_wf_def distinct_map inj_on_def)
qed

section \<open>The statements keep the invariant\<close>

lemma keeps_get_or_create [keeps_intro]:
  "keeps I look \<Longrightarrow> keeps I new \<Longrightarrow> keeps I (get_or_create look new)"
  unfolding get_or_create_def by (intro keeps_intro)

lemma frame_get_or_create [frame_intro]:
  "frame f look \<Longrightarrow> frame f new \<Longrightarrow> frame f (get_or_create look new)"
  unfolding get_or_create_def by (intro frame_intro)

lemma triple_get_or_create:
  assumes "triple I look Q (\<lambda>_. I)" and "triple I new Q (\<lambda>_. I)"
  shows "triple I (get_or_create look new) Q (\<lambda>_. I)"
  unfolding get_or_create_def
  by (intro triple_try [OF assms(1)] triple_if triple_raise triple_try [OF assms(2)] triple_try [OF assms(1)])
    simp_all

lemma get_tenant_run: "get_tenant t db = (case find_tenant t db of
    None \<Rightarrow> Inl (DoesNotExist ''Tenant'' ''Tenant matching query does not exist.'') | Some r \<Rightarrow> Inr r, db)"
  by (simp add: get_tenant_def split: option.split)

lemma get_bot_run: "get_bot t b db = (case find_bot t b db of
    None \<Rightarrow> Inl (DoesNotExist ''Bot'' ''Bot matching query does not exist.'') | Some r \<Rightarrow> Inr r, db)"
  by (simp add: get_bot_def split: option.split)

lemma insert_tenant_cases:
  assumes "insert_tenant r db = (res, db')"
  shows "(db' = db \<and> (\<exists>e. res = Inl e)) \<or>
    (res = Inr r \<and> tn_tenant_id r \<notin> tn_tenant_id ` set (db_tenants db) \<and>
     db' = db\<lparr>db_tenants := db_tenants db @ [r]\<rparr>)"
proof (cases "check_widths [(40, tn_tenant_id r), (255, tn_name r)]")
  case (Inl e)
  with assms show ?thesis by (auto simp: insert_tenant_def)
next
  case (Inr u)
  show ?thesis
  proof (cases "find_tenant (tn_tenant_id r) db")
    case None
    with assms Inr have "res = Inr r \<and> db' = db\<lparr>db_tenants := db_tenants db @ [r]\<rparr>"
      by (simp add: insert_tenant_def)
    with None show ?thesis unfolding find_tenant_None by blast
  next
    case (Some r')
    with assms Inr show ?thesis by (auto simp: insert_tenant_def)
  qed
qed

lemma insert_bot_cases:
  assumes "insert_bot r db = (res, db')"
  shows "(db' = db \<and> (\<exists>e. res = Inl e)) \<or>
    (res = Inr (r\<lparr>bt_pk := db_next_bot db\<rparr>) \<and>
     bt_collection_name r \<notin> bt_collection_name ` set (db_bots db) \<and>
     bt_tenant_id r \<in> tn_tenant_id ` set (db_tenants db) \<and>
     db' = db\<lparr>db_bots := db_bots db @ [r\<lparr>bt_pk := db_next_bot db\<rparr>], db_next_bot := Suc (db_next_bot db)\<rparr>)"
proof -
  let ?taken = "find_bot (bt_tenant_id r) (bt_bot_id r) db \<noteq> None
      \<or> list_ex (\<lambda>r'. bt_collection_name r' = bt_collection_name r) (db_bots db)"
  let ?fit = "check_widths
        [(40, bt_tenant_id r), (40, bt_bot_id r), (255, bt_name r), (100, bt_collection_name r)]"
  consider e where "?fit = Inl e" | u where "?fit = Inr u" "?taken" | u where "?fit = Inr u" "\<not> ?taken" "find_tenant (bt_tenant_id r) db = None"
    | u where "?fit = Inr u" "\<not> ?taken" "find_tenant (bt_tenant_id r) db \<noteq> None"
    by (metis sum.exhaust)
  then show ?thesis
  proof cases
    case 4
    from 4(2) have new: "bt_collection_name r \<notin> bt_collection_name ` set (db_bots db)"
      by (auto simp: list_ex_iff)
    from 4(3) have there: "bt_tenant_id r \<in> tn_tenant_id ` set (db_tenants db)"
      unfolding find_tenant_None by blast
    from assms 4 have "res = Inr (r\<lparr>bt_pk := db_next_bot db\<rparr>) \<and>
        db' = db\<lparr>db_bots := db_bots db @ [r\<lparr>bt_pk := db_next_bot db\<rparr>], db_next_bot := Suc (db_next_bot db)\<rparr>"
      by (auto simp: insert_bot_def Let_def)
    with new there show ?thesis by blast
  qed (use assms in \<open>auto simp: insert_bot_def\<close>)
qed

lemma bot_ok_mono:
  "bot_ok db r \<Longrightarrow> db_next_bot db \<le> db_next_bot db' \<Longrightarrow> set (db_tenants db) \<subseteq> set (db_tenants db')
    \<Longrightarrow> bot_ok db' r"
  by (auto simp: bot_ok_def)

lemma doc_ok_mono: "doc_ok db r \<Longrightarrow> set (db_bots db) \<subseteq> set (db_bots db') \<Longrightarrow> doc_ok db' r"
  by (auto simp: doc_ok_def owns_def)

lemma keeps_insert_tenant [keeps_intro]: "keeps db_wf (insert_tenant r)"
proof (rule keepsI)
  fix db res db' assume wf: "db_wf db" and "insert_tenant r db = (res, db')"
  from insert_tenant_cases [OF this(2)] consider "db' = db"
    | "tn_tenant_id r \<notin> tn_tenant_id ` set (db_tenants db)" "db' = db\<lparr>db_tenants := db_tenants db @ [r]\<rparr>"
    by blast
  then show "db_wf db'"
  proof cases
    case 2
    have "\<forall>b \<in> set (db_bots db). bot_ok db' b" and "\<forall>d \<in> set (db_docs db). doc_ok db' d"
      using wf 2(2) by (auto simp: db_wf_def intro: bot_ok_mono doc_ok_mono)
    with wf 2 show ?thesis by (simp add: db_wf_def)
  qed (simp add: wf)
qed

lemma keeps_insert_bot:
  assumes "collection_name (bt_tenant_id r) (bt_bot_id r) = Inr (bt_collection_name r)"
  shows "keeps db_wf (insert_bot r)"
proof (rule keepsI)
  fix db res db' assume wf: "db_wf db" and "insert_bot r db = (res, db')"
  let ?r = "r\<lparr>bt_pk := db_next_bot db\<rparr>"
  from insert_bot_cases [OF \<open>insert_bot r db = (res, db')\<close>] consider "db' = db"
    | "bt_collection_name r \<notin> bt_collection_name ` set (db_bots db)"
      "bt_tenant_id r \<in> tn_tenant_id ` set (db_tenants db)"
      "db' = db\<lparr>db_bots := db_bots db @ [?r], db_next_bot := Suc (db_next_bot db)\<rparr>"
    by blast
  then show "db_wf db'"
  proof cases
    case 2
    have "\<forall>b \<in> set (db_bots db). bot_ok db' b" and "\<forall>d \<in> set (db_docs db). doc_ok db' d"
      using wf 2(3) by (auto simp: db_wf_def intro: bot_ok_mono doc_ok_mono)
    moreover have "bot_ok db' ?r" using assms 2 by (simp add: bot_ok_def)
    moreover have "db_next_bot db \<notin> bt_pk ` set (db_bots db)"
      using wf by (auto simp: db_wf_def bot_ok_def)
    ultimately show ?thesis using wf 2 by (simp add: db_wf_def)
  qed (simp add: wf)
qed

lemma keeps_bot_save [keeps_intro]: "keeps db_wf (bot_save r)"
proof (cases "collection_name (bt_tenant_id r) (bt_bot_id r)")
  case (Inl e)
  then show ?thesis by (simp add: bot_save_def keeps_raise)
next
  case (Inr n)
  then show ?thesis by (simp add: bot_save_def keeps_insert_bot)
qed

lemma frame_get_tenant [frame_intro]: "frame f (get_tenant t)"
  by (simp add: frame_def get_tenant_run)

lemma frame_get_bot [frame_intro]: "frame f (get_bot t b)"
  by (simp add: frame_def get_bot_run)

lemma keeps_of_frame: "frame (\<lambda>s. s) m \<Longrightarrow> keeps I m"
  by (simp add: keeps_def frame_def)

lemma keeps_get_or_create_tenant: "keeps db_wf (get_or_create_tenant now t)"
  unfolding get_or_create_tenant_def by (intro keeps_intro keeps_of_frame frame_intro)

lemma keeps_get_or_create_bot: "keeps db_wf (get_or_create_bot now tn b)"
  unfolding get_or_create_bot_def by (intro keeps_intro keeps_of_frame frame_intro)

lemma frame_docs_insert_tenant [frame_intro]: "frame db_docs (insert_tenant r)"
  by (rule frameI) (auto dest!: insert_tenant_cases)

lemma frame_docs_insert_bot: "frame db_docs (insert_bot r)"
  by (rule frameI) (auto dest!: insert_bot_cases)

lemma frame_docs_bot_save [frame_intro]: "frame db_docs (bot_save r)"
  unfolding bot_save_def by (intro frame_intro frame_docs_insert_bot)

lemma frame_docs_get_or_create_tenant [frame_intro]: "frame db_docs (get_or_create_tenant now t)"
  unfolding get_or_create_tenant_def by (intro frame_intro)

lemma frame_docs_get_or_create_bot [frame_intro]: "frame db_docs (get_or_create_bot now tn b)"
  unfolding get_or_create_bot_def by (intro frame_intro)

lemma triple_any: "triple (\<lambda>_. True) m Q (\<lambda>_ _. True) \<longleftrightarrow> (\<forall>s x t. m s = (Inr x, t) \<longrightarrow> Q x t)"
  unfolding triple_def by (auto split: prod.splits sum.splits)

lemma get_or_create_tenant_row:
  assumes "get_or_create_tenant now t db = (Inr r, db')"
  shows "r \<in> set (db_tenants db') \<and> tn_tenant_id r = t"
proof -
  let ?Q = "\<lambda>r db. r \<in> set (db_tenants db) \<and> tn_tenant_id r = t"
  have look: "triple (\<lambda>_. True) (get_tenant t) ?Q (\<lambda>_ _. True)"
    by (auto simp: triple_any get_tenant_run dest!: find_tenantD split: option.splits)
  have "triple (\<lambda>_. True) (insert_tenant \<lparr>tn_tenant_id = t, tn_name = t, tn_created_at = now\<rparr>) ?Q (\<lambda>_ _. True)"
    by (auto simp: triple_any dest!: insert_tenant_cases)
  note triple_get_or_create [OF look this]
  then have "triple (\<lambda>_. True) (get_or_create_tenant now t) ?Q (\<lambda>_ _. True)"
    unfolding get_or_create_tenant_def
    by (rule triple_try) (intro triple_if look triple_raise, simp)
  from triple_InrD [OF this _ assms] show ?thesis by simp
qed

lemma get_or_create_bot_row:
  assumes "get_or_create_bot now tn b db = (Inr r, db')"
  shows "r \<in> set (db_bots db') \<and> bt_tenant_id r = tn_tenant_id tn \<and> bt_bot_id r = b"
proof -
  let ?Q = "\<lambda>r db. r \<in> set (db_bots db) \<and> bt_tenant_id r = tn_tenant_id tn \<and> bt_bot_id r = b"
  let ?new = "\<lparr>bt_pk = 0, bt_tenant_id = tn_tenant_id tn, bt_bot_id = b, bt_name = b,
          bt_collection_name = [], bt_created_at = now\<rparr>"
  have look: "triple (\<lambda>_. True) (get_bot (tn_tenant_id tn) b) ?Q (\<lambda>_ _. True)"
    by (auto simp: triple_any get_bot_run dest!: find_botD split: option.splits)
  have "triple (\<lambda>_. True) (bot_save ?new) ?Q (\<lambda>_ _. True)"
    by (auto simp: triple_any bot_save_def elim!: bind_io_InrE dest!: insert_bot_cases)
  note triple_get_or_create [OF look this]
  then have "triple (\<lambda>_. True) (get_or_create_bot now tn b) ?Q (\<lambda>_ _. True)"
    unfolding get_or_create_bot_def
    by (rule triple_try) (intro triple_if look triple_raise, simp)
  from triple_InrD [OF this _ assms] show ?thesis by simp
qed

section \<open>Documents\<close>

lemma update_doc_cases:
  assumes "update_doc d f db = (res, db')"
  shows "(db' = db \<and> find_doc d db = None \<and> (\<exists>e. res = Inl e)) \<or>
    (res = Inr () \<and> find_doc d db \<noteq> None \<and>
     db' = db\<lparr>db_docs := map (\<lambda>r. if dc_doc_id r = d then f r else r) (db_docs db)\<rparr>)"
  using assms by (auto simp: update_doc_def split: if_splits)

lemma db_wf_update:
  assumes wf: "db_wf db" and f: "\<And>r. r \<in> set (db_docs db) \<Longrightarrow> dc_doc_id r = d \<Longrightarrow> dc_doc_id (f r) = d \<and> doc_ok db (f r)"
  shows "db_wf (db\<lparr>db_docs := map (\<lambda>r. if dc_doc_id r = d then f r else r) (db_docs db)\<rparr>)"
proof -
  let ?g = "\<lambda>r. if dc_doc_id r = d then f r else r"
  let ?db = "db\<lparr>db_docs := map ?g (db_docs db)\<rparr>"
  have "map dc_doc_id (map ?g (db_docs db)) = map dc_doc_id (db_docs db)"
    using f by simp
  moreover have "doc_ok ?db r \<longleftrightarrow> doc_ok db r" and "bot_ok ?db b \<longleftrightarrow> bot_ok db b" for r b
    by (simp_all add: doc_ok_def owns_def bot_ok_def)
  moreover have "\<forall>r \<in> set (db_docs db). doc_ok db (?g r)"
    using wf f by (simp add: db_wf_def)
  ultimately have "doc_ok ?db (?g r)" if "r \<in> set (db_docs db)" for r using that by blast
  then have "\<forall>r \<in> set (map ?g (db_docs db)). doc_ok ?db r" unfolding set_map by blast
  with wf \<open>map dc_doc_id (map ?g (db_docs db)) = map dc_doc_id (db_docs db)\<close> \<open>\<And>b. bot_ok ?db b \<longleftrightarrow> bot_ok db b\<close>
  show ?thesis unfolding db_wf_def by (simp del: map_map set_map)
qed

lemma keeps_refresh_doc [keeps_intro]: "keeps db_wf (refresh_doc now d)"
proof (rule keepsI)
  fix db r db' assume wf: "db_wf db" and run: "refresh_doc now d db = (r, db')"
  have "db_wf (db\<lparr>db_docs := map (\<lambda>r. if dc_doc_id r = d then r\<lparr>dc_last_refreshed_at := now\<rparr> else r) (db_docs db)\<rparr>)"
    using wf by (rule db_wf_update)
      (use wf in \<open>auto simp: db_wf_def doc_ok_def owns_def live_or_deleted_def check_doc_def\<close>)
  with wf update_doc_cases [OF run [unfolded refresh_doc_def]] show "db_wf db'" by auto
qed

lemma keeps_mark_deleted [keeps_intro]: "keeps db_wf (mark_deleted now d)"
proof (rule keepsI)
  fix db r db' assume wf: "db_wf db" and run: "mark_deleted now d db = (r, db')"
  have "db_wf (db\<lparr>db_docs := map (\<lambda>r. if dc_doc_id r = d then r\<lparr>dc_status := DELETED, dc_chunk_count := 0,
     dc_error_message := None, dc_last_refreshed_at := now\<rparr> else r) (db_docs db)\<rparr>)"
    using wf by (rule db_wf_update)
      (use wf in \<open>auto simp: db_wf_def doc_ok_def owns_def live_or_deleted_def check_doc_def DELETED_def
        check_widths_Inr check_integer_def and_then_Inr_iff\<close>)
  with wf update_doc_cases [OF run [unfolded mark_deleted_def]] show "db_wf db'" by auto
qed

lemma update_or_create_doc_cases:
  assumes "update_or_create_doc now r db = (res, db')"
  shows "(db' = db \<and> (\<exists>e. res = Inl e)) \<or>
    (res = Inr () \<and> check_doc r = Inr () \<and>
      ((\<exists>old. find_doc (dc_doc_id r) db = Some old \<and>
         db' = db\<lparr>db_docs := map (\<lambda>r0. if dc_doc_id r0 = dc_doc_id r
           then r\<lparr>dc_uploaded_at := dc_uploaded_at r0, dc_last_refreshed_at := now\<rparr> else r0) (db_docs db)\<rparr>) \<or>
       (find_doc (dc_doc_id r) db = None \<and>
         db' = db\<lparr>db_docs := db_docs db @ [r\<lparr>dc_uploaded_at := now, dc_last_refreshed_at := now\<rparr>]\<rparr>)))"
proof (cases "check_doc r")
  case (Inl e)
  with assms have "res = Inl e \<and> db' = db" by (simp add: update_or_create_doc_def)
  then show ?thesis by blast
next
  case (Inr u)
  show ?thesis
  proof (cases "list_ex (\<lambda>b. bt_pk b = dc_bot_ref r) (db_bots db)")
    case False
    with assms Inr show ?thesis by (auto simp: update_or_create_doc_def)
  next
    case True
    with assms Inr show ?thesis
      by (cases "find_doc (dc_doc_id r) db") (auto simp: update_or_create_doc_def update_doc_def)
  qed
qed

lemma update_or_create_doc_wf:
  assumes wf: "db_wf db" and run: "update_or_create_doc now r db = (res, db')"
    and r: "owns db r" "live_or_deleted r"
  shows "db_wf db'"
  using update_or_create_doc_cases [OF run]
proof (elim disjE exE conjE)
  assume check: "check_doc r = Inr ()" and none: "find_doc (dc_doc_id r) db = None"
    and db': "db' = db\<lparr>db_docs := db_docs db @ [r\<lparr>dc_uploaded_at := now, dc_last_refreshed_at := now\<rparr>]\<rparr>"
  from none have new: "dc_doc_id r \<notin> dc_doc_id ` set (db_docs db)" unfolding find_doc_None .
  have "doc_ok db' x \<longleftrightarrow> doc_ok db x" and "bot_ok db' b \<longleftrightarrow> bot_ok db b" for x b
    by (simp_all add: db' doc_ok_def owns_def bot_ok_def)
  moreover have "doc_ok db (r\<lparr>dc_uploaded_at := now, dc_last_refreshed_at := now\<rparr>)"
    using r check by (simp add: doc_ok_def owns_def live_or_deleted_def check_doc_def)
  ultimately show ?thesis using wf new by (simp add: db_wf_def db')
next
  fix old assume check: "check_doc r = Inr ()"
    and db': "db' = db\<lparr>db_docs := map (\<lambda>r0. if dc_doc_id r0 = dc_doc_id r
      then r\<lparr>dc_uploaded_at := dc_uploaded_at r0, dc_last_refreshed_at := now\<rparr> else r0) (db_docs db)\<rparr>"
  show ?thesis unfolding db'
    by (rule db_wf_update [OF wf])
      (use r check in \<open>simp add: doc_ok_def owns_def live_or_deleted_def check_doc_def\<close>)
qed (simp add: wf)

text \<open>What a lookup returns after the row was written, and that other rows stay.\<close>

lemma find_doc_update:
  assumes "\<And>r. dc_doc_id r = d \<Longrightarrow> dc_doc_id (f r) = d"
  shows "find_doc d' (db\<lparr>db_docs := map (\<lambda>r. if dc_doc_id r = d then f r else r) (db_docs db)\<rparr>)
    = (if d' = d then map_option f (find_doc d db) else find_doc d' db)"
proof -
  have "find (\<lambda>r. dc_doc_id r = d') (map (\<lambda>r. if dc_doc_id r = d then f r else r) rs)
    = (if d' = d then map_option f (find (\<lambda>r. dc_doc_id r = d) rs) else find (\<lambda>r. dc_doc_id r = d') rs)" for rs
    by (induction rs) (use assms in auto)
  then show ?thesis by (simp add: find_doc_def)
qed

lemma find_append: "find P (xs @ ys) = (case find P xs of None \<Rightarrow> find P ys | Some x \<Rightarrow> Some x)"
  by (induction xs) auto

lemma update_or_create_doc_found:
  assumes "update_or_create_doc now r db = (Inr u, db')"
  shows "find_doc d db' = (if d = dc_doc_id r then
     Some (r\<lparr>dc_uploaded_at := (case find_doc d db of None \<Rightarrow> now | Some old \<Rightarrow> dc_uploaded_at old),
       dc_last_refreshed_at := now\<rparr>) else find_doc d db)"
proof -
  from update_or_create_doc_cases [OF assms] show ?thesis
  proof (elim disjE exE conjE)
    fix old assume "find_doc (dc_doc_id r) db = Some old"
      and "db' = db\<lparr>db_docs := map (\<lambda>r0. if dc_doc_id r0 = dc_doc_id r
           then r\<lparr>dc_uploaded_at := dc_uploaded_at r0, dc_last_refreshed_at := now\<rparr> else r0) (db_docs db)\<rparr>"
    then show ?thesis by (simp add: find_doc_update)
  next
    assume none: "find_doc (dc_doc_id r) db = None"
      and db': "db' = db\<lparr>db_docs := db_docs db @ [r\<lparr>dc_uploaded_at := now, dc_last_refreshed_at := now\<rparr>]\<rparr>"
    have "find_doc d db' = (case find_doc d db of
        None \<Rightarrow> if d = dc_doc_id r then Some (r\<lparr>dc_uploaded_at := now, dc_last_refreshed_at := now\<rparr>) else None
      | Some x \<Rightarrow> Some x)" unfolding db' by (simp add: find_doc_def find_append split: option.split)
    with none show ?thesis by (cases "find_doc d db") auto
  qed simp
qed

section \<open>Colliding names\<close>

lemma collection_name_width:
  "collection_name t b = Inr n \<Longrightarrow> length t \<le> 40 \<and> length b \<le> 40 \<and> length n \<le> 100"
  by (auto simp: collection_name_Inr slug_fullmatch_def split: list.splits)

text \<open>
  Name collisions are refused. A bot whose collection name belongs to another bot
  never gets a row: creation ends in \<open>DoesNotExist\<close>, not in a second owner of the
  collection, and the tables stay as they were.
\<close>

theorem get_or_create_bot_collision:
  assumes "collection_name (tn_tenant_id tn) b = Inr n" and "find_bot (tn_tenant_id tn) b db = None"
    and "n \<in> bt_collection_name ` set (db_bots db)"
  shows "get_or_create_bot now tn b db =
    (Inl (DoesNotExist ''Bot'' ''Bot matching query does not exist.''), db)"
proof -
  let ?r = "\<lparr>bt_pk = 0, bt_tenant_id = tn_tenant_id tn, bt_bot_id = b, bt_name = b,
    bt_collection_name = [], bt_created_at = now\<rparr>"
  have taken: "list_ex (\<lambda>r'. bt_collection_name r' = n) (db_bots db)"
    using assms(3) by (auto simp: list_ex_iff)
  have "check_widths [(40, tn_tenant_id tn), (40, b), (255, b), (100, n)] = Inr ()"
    using collection_name_width [OF assms(1)] by (simp add: check_widths_Inr)
  then have "insert_bot (?r\<lparr>bt_collection_name := n\<rparr>) db =
      (Inl (IntegrityError ''duplicate key value violates unique constraint''), db)"
    using taken by (simp add: insert_bot_def)
  then have "bot_save ?r db = (Inl (IntegrityError ''duplicate key value violates unique constraint''), db)"
    by (simp add: bot_save_def assms(1))
  then show ?thesis
    by (simp add: get_or_create_bot_def get_or_create_def try_io_def get_bot_run assms(2)
        is_does_not_exist_def is_integrity_error_def)
qed

theorem get_or_create_bot_collision_witness:
  "get_or_create_bot 7 \<lparr>tn_tenant_id = ''acme__b_x'', tn_name = ''acme__b_x'', tn_created_at = 0\<rparr> ''bot''
     \<lparr>db_tenants = [], db_bots = [\<lparr>bt_pk = 1, bt_tenant_id = ''acme'', bt_bot_id = ''x__b_bot'',
        bt_name = ''x__b_bot'', bt_collection_name = ''t_acme__b_x__b_bot'', bt_created_at = 0\<rparr>],
      db_docs = [], db_next_bot = 2\<rparr> =
   (Inl (DoesNotExist ''Bot'' ''Bot matching query does not exist.''),
    \<lparr>db_tenants = [], db_bots = [\<lparr>bt_pk = 1, bt_tenant_id = ''acme'', bt_bot_id = ''x__b_bot'',
        bt_name = ''x__b_bot'', bt_collection_name = ''t_acme__b_x__b_bot'', bt_created_at = 0\<rparr>],
      db_docs = [], db_next_bot = 2\<rparr>)"
proof -
  have "collection_name ''acme__b_x'' ''bot'' = Inr ''t_acme__b_x__b_bot''" by code_simp
  then show ?thesis
    by (intro get_or_create_bot_collision) (simp_all add: find_bot_def)
qed

end
