(* ===== verification/Embedder.thy ===== *)
theory Embedder
  imports Errors
begin

text \<open>
  The embedding model's adapter, \<^verbatim>\<open>apps/ingestion/embedder.py\<close>. The tokenizer and the
  BGE-M3 model are third-party: \<open>tokenize\<close> (token ids of a text, without special tokens)
  and \<open>encode\<close> (the model's batch call, which may raise) are parameters. Vectors are lists
  of numbers; the sparse output is a dict from token id, as text, to weight.
\<close>

section \<open>The interface the chunker uses\<close>

text \<open>
  A token counter: a function from text to a number that is 0 on the empty text. The
  chunker's loops and limits rest on nothing else.
\<close>

locale token_counter =
  fixes count :: "string \<Rightarrow> nat"
  assumes count_Nil [simp]: "count [] = 0"
begin

lemma nonempty_if_positive: "0 < count s \<Longrightarrow> s \<noteq> []"
  by auto

end

section \<open>The code\<close>

record embeddings =
  dense :: "rat list list"
  sparse :: "(string \<times> rat) list list"
  colbert :: "rat list list list"

definition DENSE_DIM :: nat where
  "DENSE_DIM = 1024"

definition COLBERT_DIM :: nat where
  "COLBERT_DIM = 1024"

definition count_tokens :: "(string \<Rightarrow> int list) \<Rightarrow> string \<Rightarrow> nat" where
  "count_tokens tokenize text = (if text = [] then 0 else length (tokenize text))"

text \<open>The index of the first blank text, as the check of \<open>embed_passages\<close> finds it.\<close>

fun first_blank :: "nat \<Rightarrow> string list \<Rightarrow> nat option" where
  "first_blank i [] = None"
| "first_blank i (t # ts) = (if py_strip t = [] then Some i else first_blank (Suc i) ts)"

definition embed_passages ::
  "(string list \<Rightarrow> exn + embeddings) \<Rightarrow> string list \<Rightarrow> exn + embeddings" where
  "embed_passages encode texts =
     (if texts = [] then Inl (ValueError ''embed_passages requires at least one input'')
      else case first_blank 0 texts of
        Some i \<Rightarrow> Inl (ValueError (''texts['' @ show_nat i @ ''] is empty or not a string''))
      | None \<Rightarrow> encode texts)"

text \<open>\<open>xs[0]\<close>.\<close>

definition py_head :: "'a list \<Rightarrow> exn + 'a" where
  "py_head xs = (case xs of [] \<Rightarrow> Inl (IndexError ''list index out of range'') | x # _ \<Rightarrow> Inr x)"

record query_embedding =
  q_dense :: "rat list"
  q_sparse :: "(string \<times> rat) list"
  q_colbert :: "rat list list"

definition embed_query ::
  "(string list \<Rightarrow> exn + embeddings) \<Rightarrow> string \<Rightarrow> exn + query_embedding" where
  "embed_query encode text =
     (if py_strip text = [] then Inl (ValueError ''embed_query requires a non-empty string'')
      else and_then (embed_passages encode [text]) (\<lambda>out.
        and_then (py_head (dense out)) (\<lambda>d.
        and_then (py_head (sparse out)) (\<lambda>s.
        and_then (py_head (colbert out)) (\<lambda>c.
        Inr \<lparr>q_dense = d, q_sparse = s, q_colbert = c\<rparr>)))))"

text \<open>
  \<open>int(s)\<close>: surrounding whitespace, a sign, then digits with single underscores between them;
  any other text raises.
\<close>

fun int_literal :: "string \<Rightarrow> bool" where
  "int_literal [] = False"
| "int_literal [c] = is_digit c"
| "int_literal (c # d # r) = (is_digit c \<and> (if d = CHR ''_'' then int_literal r else int_literal (d # r)))"

definition py_int :: "string \<Rightarrow> exn + int" where
  "py_int s = (let t = py_strip s;
       neg = (t \<noteq> [] \<and> hd t = CHR ''-'');
       body = (if t \<noteq> [] \<and> hd t \<in> {CHR ''-'', CHR ''+''} then tl t else t);
       n = int (read_nat (py_remove_char (CHR ''_'') body))
     in if int_literal body then Inr (if neg then - n else n)
        else Inl (ValueError (''invalid literal for int() with base 10: '' @ py_repr s)))"

record sparse_vector =
  indices :: "int list"
  sparse_values :: "rat list"

fun sparse_loop :: "(string \<times> rat) list \<Rightarrow> int list \<Rightarrow> rat list \<Rightarrow> exn + sparse_vector" where
  "sparse_loop [] is vs = Inr \<lparr>indices = is, sparse_values = vs\<rparr>"
| "sparse_loop ((token_id, weight) # rest) is vs =
     and_then (py_int token_id) (\<lambda>i. sparse_loop rest (is @ [i]) (vs @ [weight]))"

definition sparse_to_qdrant :: "(string \<times> rat) list \<Rightarrow> exn + sparse_vector" where
  "sparse_to_qdrant d = (if d = [] then Inr \<lparr>indices = [], sparse_values = []\<rparr>
     else sparse_loop d [] [])"

definition colbert_to_qdrant :: "rat list list \<Rightarrow> rat list list" where
  "colbert_to_qdrant v = map (\<lambda>row. row) v"

section \<open>Lemmas\<close>

interpretation ct: token_counter "count_tokens tok" for tok
  by unfold_locales (simp add: count_tokens_def)

lemma first_blank_None: "first_blank i ts = None \<longleftrightarrow> (\<forall>t \<in> set ts. py_strip t \<noteq> [])"
  by (induction ts arbitrary: i) auto

lemma first_blank_Suc: "first_blank (Suc i) ts = map_option Suc (first_blank i ts)"
  by (induction ts arbitrary: i) auto

lemma first_blank_Some:
  "first_blank 0 ts = Some k \<Longrightarrow> k < length ts \<and> py_strip (ts ! k) = []"
  by (induction ts arbitrary: k) (auto simp: first_blank_Suc split: if_splits)

lemma embed_passages_ok:
  "texts \<noteq> [] \<Longrightarrow> \<forall>t \<in> set texts. py_strip t \<noteq> [] \<Longrightarrow> embed_passages encode texts = encode texts"
  unfolding embed_passages_def by (simp add: first_blank_None [THEN iffD2])

lemma embed_passages_Inr:
  "embed_passages encode texts = Inr out \<longleftrightarrow>
     texts \<noteq> [] \<and> (\<forall>t \<in> set texts. py_strip t \<noteq> []) \<and> encode texts = Inr out"
  by (auto simp: embed_passages_def first_blank_None split: option.splits)
    (metis first_blank_None option.distinct(1))

lemma is_digit_plain:
  "is_digit c \<Longrightarrow> \<not> py_isspace c \<and> c \<noteq> CHR ''_'' \<and> c \<noteq> CHR ''-'' \<and> c \<noteq> CHR ''+''"
  by (auto simp: is_digit_def py_isspace_def)

lemma int_literal_digits: "s \<noteq> [] \<Longrightarrow> list_all is_digit s \<Longrightarrow> int_literal s"
  by (induction s rule: int_literal.induct) (auto dest: is_digit_plain)

lemma py_int_digits:
  assumes "s \<noteq> []" and "list_all is_digit s"
  shows "py_int s = Inr (int (read_nat s))"
proof -
  have plain: "\<not> py_isspace c \<and> c \<noteq> CHR ''_'' \<and> c \<noteq> CHR ''-'' \<and> c \<noteq> CHR ''+''"
    if "c \<in> set s" for c
    using that assms(2) is_digit_plain by (simp add: list_all_iff)
  from assms(1) plain have strip: "py_strip s = s"
    by (intro py_strip_stripped) (simp add: stripped_def)
  from plain have "py_remove_char (CHR ''_'') s = s"
    unfolding py_remove_char_def by (intro filter_True) blast
  then show ?thesis
    using assms plain [of "hd s"] int_literal_digits [OF assms]
    by (simp add: py_int_def Let_def strip)
qed

lemma py_int_show_nat [simp]: "py_int (show_nat n) = Inr (int n)"
  using py_int_digits [of "show_nat n"] show_nat_digits [of n] by (simp add: list_all_iff)

lemma sparse_loop_show_nat:
  "sparse_loop (map (\<lambda>(i, w). (show_nat i, w)) d) is vs =
     Inr \<lparr>indices = is @ map (\<lambda>(i, w). int i) d, sparse_values = vs @ map snd d\<rparr>"
  by (induction d arbitrary: "is" vs) auto

lemma sparse_loop_length:
  "sparse_loop d is vs = Inr v \<Longrightarrow>
     length (indices v) = length is + length d \<and> sparse_values v = vs @ map snd d"
  by (induction d arbitrary: "is" vs) (auto simp: and_then_Inr_iff)

lemma sparse_to_qdrant_length:
  "sparse_to_qdrant d = Inr v \<Longrightarrow> length (indices v) = length d \<and> sparse_values v = map snd d"
  by (auto simp: sparse_to_qdrant_def dest: sparse_loop_length split: if_splits)

lemma colbert_to_qdrant_id [simp]: "colbert_to_qdrant v = v"
  by (simp add: colbert_to_qdrant_def)

text \<open>
  Sparse vectors. The model's sparse dict, keyed by the decimal text of distinct token
  ids, becomes index and value lists that pair up again to the same dict: same length, no
  index twice, nothing lost and nothing reordered.
\<close>

theorem sparse_to_qdrant_roundtrip:
  "\<exists>v. sparse_to_qdrant (map (\<lambda>(i, w). (show_nat i, w)) d) = Inr v \<and>
     zip (indices v) (sparse_values v) = map (\<lambda>(i, w). (int i, w)) d \<and>
     length (indices v) = length (sparse_values v) \<and>
     (distinct (map fst d) \<longleftrightarrow> distinct (indices v))"
proof -
  let ?v = "\<lparr>indices = map int (map fst d), sparse_values = map snd d\<rparr> :: sparse_vector"
  have "sparse_to_qdrant (map (\<lambda>(i, w). (show_nat i, w)) d) = Inr ?v"
    using sparse_loop_show_nat [of d "[]" "[]"]
    by (simp add: sparse_to_qdrant_def case_prod_beta comp_def)
  moreover have "zip (map int (map fst d)) (map snd d) = map (\<lambda>(i, w). (int i, w)) d"
    by (induction d) auto
  moreover have "distinct (map fst d) \<longleftrightarrow> distinct (map int (map fst d))"
    by (subst distinct_map) simp
  ultimately show ?thesis by (intro exI [of _ ?v]) simp
qed

end
