(* ===== verification/Chunker.thy ===== *)
theory Chunker
  imports Embedder
begin

text \<open>
  The chunker, \<^verbatim>\<open>apps/ingestion/chunker.py\<close>: one item's content becomes a list of chunks
  of at most \<open>MAX_CHUNK_TOKENS\<close> tokens. The recursive text splitter of LangChain is the
  parameter \<open>split_text chunk_size chunk_overlap content\<close>; tokens are counted by a
  \<open>token_counter\<close>. The float products of the source (\<open>int(len(t) * 0.95)\<close>,
  \<open>int(len(t) * MAX / n)\<close>, \<open>int(size * overlap_pct)\<close>) are the integer quotients they equal.
\<close>

section \<open>The code\<close>

record chunk_config_entry =
  cfg_size :: nat
  cfg_overlap_pct :: nat

definition CHUNK_CONFIG :: "(string \<times> chunk_config_entry) list" where
  "CHUNK_CONFIG =
    [(''pdf'', \<lparr>cfg_size = 500, cfg_overlap_pct = 15\<rparr>),
     (''docx'', \<lparr>cfg_size = 500, cfg_overlap_pct = 15\<rparr>),
     (''url'', \<lparr>cfg_size = 400, cfg_overlap_pct = 10\<rparr>),
     (''html'', \<lparr>cfg_size = 400, cfg_overlap_pct = 10\<rparr>),
     (''csv'', \<lparr>cfg_size = 200, cfg_overlap_pct = 10\<rparr>),
     (''faq'', \<lparr>cfg_size = 200, cfg_overlap_pct = 10\<rparr>),
     (''image'', \<lparr>cfg_size = 300, cfg_overlap_pct = 10\<rparr>),
     (''text'', \<lparr>cfg_size = 200, cfg_overlap_pct = 15\<rparr>)]"

definition DEFAULT_CHUNK_CONFIG :: chunk_config_entry where
  "DEFAULT_CHUNK_CONFIG = \<lparr>cfg_size = 400, cfg_overlap_pct = 10\<rparr>"

definition MIN_CHUNK_CHARS :: nat where
  "MIN_CHUNK_CHARS = 50"

definition MAX_CHUNK_TOKENS :: nat where
  "MAX_CHUNK_TOKENS = 600"

definition CHARS_PER_TOKEN :: nat where
  "CHARS_PER_TOKEN = 4"

record chunk =
  c_text :: string
  c_index :: nat
  c_chars :: nat
  c_tokens :: nat

text \<open>The loop of \<open>_truncate_to_max_tokens\<close>: drop 5% of the characters until it fits.\<close>

function shrink :: "(string \<Rightarrow> nat) \<Rightarrow> string \<Rightarrow> string" where
  "shrink count truncated =
     (if MAX_CHUNK_TOKENS < count truncated \<and> truncated \<noteq> []
      then shrink count (py_rstrip (take (length truncated * 95 div 100) truncated))
      else truncated)"
  by pat_completeness auto
termination
proof (relation "measure (\<lambda>(count, t). length t)")
  fix count :: "string \<Rightarrow> nat" and t :: string
  assume "MAX_CHUNK_TOKENS < count t \<and> t \<noteq> []"
  then have "length t * 95 div 100 < length t" by (cases t) auto
  then have "length (py_rstrip (take (length t * 95 div 100) t)) < length t"
    using length_py_rstrip [of "take (length t * 95 div 100) t"] by simp
  then show "((count, py_rstrip (take (length t * 95 div 100) t)), count, t)
      \<in> measure (\<lambda>(count, t). length t)"
    by simp
qed simp

declare shrink.simps [simp del]

definition truncate_to_max_tokens :: "(string \<Rightarrow> nat) \<Rightarrow> string \<Rightarrow> string" where
  "truncate_to_max_tokens count text =
     (if text = [] then text
      else let n = count text in
        if n \<le> MAX_CHUNK_TOKENS then text
        else shrink count (py_rstrip (take (length text * MAX_CHUNK_TOKENS div n) text)))"

definition new_chunk :: "(string \<Rightarrow> nat) \<Rightarrow> string \<Rightarrow> nat \<Rightarrow> chunk" where
  "new_chunk count text i =
     \<lparr>c_text = text, c_index = i, c_chars = length text, c_tokens = count text\<rparr>"

text \<open>One iteration of the loop over the raw chunks.\<close>

definition chunk_step :: "(string \<Rightarrow> nat) \<Rightarrow> chunk list \<Rightarrow> string \<Rightarrow> chunk list" where
  "chunk_step count chunks raw_text =
     (let text = truncate_to_max_tokens count raw_text in
      if text = [] then chunks
      else if length text < MIN_CHUNK_CHARS \<and> chunks \<noteq> [] \<and>
          count (c_text (last chunks) @ '' '' @ text) \<le> MAX_CHUNK_TOKENS
        then butlast chunks
          @ [new_chunk count (c_text (last chunks) @ '' '' @ text) (c_index (last chunks))]
      else chunks @ [new_chunk count text (length chunks)])"

definition config_for :: "string \<Rightarrow> chunk_config_entry" where
  "config_for source_type = (case lookup CHUNK_CONFIG source_type of
     Some c \<Rightarrow> c | None \<Rightarrow> DEFAULT_CHUNK_CONFIG)"

definition splitter_size :: "string \<Rightarrow> nat" where
  "splitter_size source_type = cfg_size (config_for source_type) * CHARS_PER_TOKEN"

definition splitter_overlap :: "string \<Rightarrow> nat" where
  "splitter_overlap source_type = (let c = config_for source_type in
     (cfg_size c * cfg_overlap_pct c div 100) * CHARS_PER_TOKEN)"

definition chunk_item ::
  "(nat \<Rightarrow> nat \<Rightarrow> string \<Rightarrow> string list) \<Rightarrow> (string \<Rightarrow> nat) \<Rightarrow> string \<Rightarrow> string \<Rightarrow> chunk list" where
  "chunk_item split_text count content source_type =
     (if py_strip content = [] then []
      else
        let raw_chunks = map py_strip (filter (\<lambda>c. py_strip c \<noteq> [])
              (split_text (splitter_size source_type) (splitter_overlap source_type) content));
            chunks = foldl (chunk_step count) [] raw_chunks
        in if chunks = []
           then [new_chunk count (truncate_to_max_tokens count (py_strip content)) 0]
           else chunks)"

section \<open>Truncation\<close>

context token_counter
begin

lemma shrink_bound: "count (shrink count t) \<le> MAX_CHUNK_TOKENS"
proof (induction t rule: measure_induct_rule [of length])
  case (less t)
  show ?case
  proof (cases "MAX_CHUNK_TOKENS < count t \<and> t \<noteq> []")
    case True
    let ?t = "py_rstrip (take (length t * 95 div 100) t)"
    from True have "length t * 95 div 100 < length t" by (cases t) auto
    then have "length ?t < length t"
      using length_py_rstrip [of "take (length t * 95 div 100) t"] by simp
    from less.IH [OF this] True show ?thesis by (subst shrink.simps) simp
  next
    case False
    then show ?thesis by (subst shrink.simps) auto
  qed
qed

lemma truncate_bound: "count (truncate_to_max_tokens count t) \<le> MAX_CHUNK_TOKENS"
  by (simp add: truncate_to_max_tokens_def Let_def shrink_bound)

end

lemma shrink_prefix: "prefix (shrink count t) t"
proof (induction count t rule: shrink.induct)
  case (1 count t)
  show ?case
  proof (cases "MAX_CHUNK_TOKENS < count t \<and> t \<noteq> []")
    case True
    from 1 [OF True] have "prefix (shrink count t) (py_rstrip (take (length t * 95 div 100) t))"
      using True by (subst shrink.simps) simp
    also have "prefix \<dots> (take (length t * 95 div 100) t)" by (rule py_rstrip_prefix)
    also have "prefix \<dots> t" by (rule take_is_prefix)
    finally show ?thesis .
  next
    case False
    then show ?thesis by (subst shrink.simps) auto
  qed
qed

lemma shrink_stripped: "stripped t \<Longrightarrow> stripped (shrink count t)"
proof (induction count t rule: shrink.induct)
  case (1 count t)
  show ?case
  proof (cases "MAX_CHUNK_TOKENS < count t \<and> t \<noteq> []")
    case True
    have "stripped (py_rstrip (take (length t * 95 div 100) t))"
      by (rule stripped_prefix_rstrip [OF 1(2) take_is_prefix])
    with 1(1) True show ?thesis by (subst shrink.simps) simp
  next
    case False
    with 1(2) show ?thesis by (subst shrink.simps) auto
  qed
qed

lemma truncate_prefix: "prefix (truncate_to_max_tokens count t) t"
proof -
  have "prefix (shrink count (py_rstrip (take n t))) t" for n
    by (rule prefix_order.trans [OF shrink_prefix
          prefix_order.trans [OF py_rstrip_prefix take_is_prefix]])
  then show ?thesis by (simp add: truncate_to_max_tokens_def Let_def)
qed

lemma truncate_stripped: "stripped t \<Longrightarrow> stripped (truncate_to_max_tokens count t)"
  by (cases "t = []") (simp_all add: truncate_to_max_tokens_def Let_def shrink_stripped
      stripped_prefix_rstrip take_is_prefix)

lemma truncate_short: "count t \<le> MAX_CHUNK_TOKENS \<Longrightarrow> truncate_to_max_tokens count t = t"
  by (simp add: truncate_to_max_tokens_def)

text \<open>A counter that never gives one character more than the limit never shrinks to nothing.\<close>

lemma shrink_nonempty:
  assumes small: "\<And>s. count s \<le> MAX_CHUNK_TOKENS * length s"
  shows "stripped t \<Longrightarrow> t \<noteq> [] \<Longrightarrow> shrink count t \<noteq> []"
proof (induction t rule: measure_induct_rule [of length])
  case (less t)
  show ?case
  proof (cases "MAX_CHUNK_TOKENS < count t \<and> t \<noteq> []")
    case True
    let ?k = "length t * 95 div 100" and ?t = "py_rstrip (take (length t * 95 div 100) t)"
    have "2 \<le> length t"
    proof (rule ccontr)
      assume "\<not> 2 \<le> length t"
      then have "length t = 1" using less.prems(2) by (cases t) (auto simp: not_le)
      then show False using True small [of t] by simp
    qed
    then have k: "0 < ?k" "?k < length t" by simp_all
    have st: "stripped ?t" by (rule stripped_prefix_rstrip [OF less.prems(1) take_is_prefix])
    have "hd t \<in> set (take ?k t)" using k(1) less.prems(2) by (cases t; cases ?k) auto
    moreover have "\<not> py_isspace (hd t)" using less.prems by (simp add: stripped_def)
    ultimately have ne: "?t \<noteq> []" by (auto simp: py_rstrip_eq_Nil)
    have "length ?t < length t" using length_py_rstrip [of "take ?k t"] k by simp
    from less.IH [OF this st ne] True show ?thesis by (subst shrink.simps) simp
  next
    case False
    then show ?thesis using less.prems by (subst shrink.simps) auto
  qed
qed

lemma truncate_nonempty:
  assumes small: "\<And>s. count s \<le> MAX_CHUNK_TOKENS * length s"
    and t: "stripped t" "t \<noteq> []"
  shows "truncate_to_max_tokens count t \<noteq> []"
proof (cases "count t \<le> MAX_CHUNK_TOKENS")
  case True
  then show ?thesis using t(2) by (simp add: truncate_short)
next
  case False
  let ?k = "length t * MAX_CHUNK_TOKENS div count t"
  have pos: "0 < count t" using False by simp
  have "count t \<le> length t * MAX_CHUNK_TOKENS" using small [of t] by (simp add: mult.commute)
  then have k: "0 < ?k" using pos by (simp add: div_greater_zero_iff)
  have "hd t \<in> set (take ?k t)" using k t(2) by (cases t; cases ?k) auto
  moreover have "\<not> py_isspace (hd t)" using t by (simp add: stripped_def)
  ultimately have "py_rstrip (take ?k t) \<noteq> []" by (auto simp: py_rstrip_eq_Nil)
  with shrink_nonempty [OF small stripped_prefix_rstrip [OF t(1) take_is_prefix]] False t(2)
  show ?thesis by (simp add: truncate_to_max_tokens_def Let_def)
qed

section \<open>Chunks\<close>

text \<open>What every chunk at position \<open>i\<close> satisfies.\<close>

definition chunk_ok :: "(string \<Rightarrow> nat) \<Rightarrow> nat \<Rightarrow> chunk \<Rightarrow> bool" where
  "chunk_ok count i c \<longleftrightarrow> c_index c = i \<and> c_chars c = length (c_text c) \<and>
     c_tokens c = count (c_text c) \<and> c_tokens c \<le> MAX_CHUNK_TOKENS \<and> stripped (c_text c)"

definition chunks_wf :: "(string \<Rightarrow> nat) \<Rightarrow> chunk list \<Rightarrow> bool" where
  "chunks_wf count cs \<longleftrightarrow> (\<forall>i < length cs. chunk_ok count i (cs ! i))"

definition texts_nonempty :: "chunk list \<Rightarrow> bool" where
  "texts_nonempty cs \<longleftrightarrow> (\<forall>c \<in> set cs. c_text c \<noteq> [])"

lemma new_chunk_simps [simp]:
  "c_text (new_chunk count t i) = t" "c_index (new_chunk count t i) = i"
  "c_chars (new_chunk count t i) = length t" "c_tokens (new_chunk count t i) = count t"
  by (simp_all add: new_chunk_def)

lemma chunks_wf_Nil [simp]: "chunks_wf count []"
  by (simp add: chunks_wf_def)

lemma chunks_wf_snoc [simp]:
  "chunks_wf count (cs @ [c]) \<longleftrightarrow> chunks_wf count cs \<and> chunk_ok count (length cs) c"
  by (auto simp: chunks_wf_def nth_append less_Suc_eq)

lemma texts_nonempty_simps [simp]:
  "texts_nonempty []" "texts_nonempty (cs @ [c]) \<longleftrightarrow> texts_nonempty cs \<and> c_text c \<noteq> []"
  by (auto simp: texts_nonempty_def)

lemma chunk_step_cases:
  obtains (skip) "truncate_to_max_tokens count raw = []" and "chunk_step count cs raw = cs"
    | (merge) cs' c where "cs = cs' @ [c]" and "truncate_to_max_tokens count raw \<noteq> []"
        and "length (truncate_to_max_tokens count raw) < MIN_CHUNK_CHARS"
        and "count (c_text c @ '' '' @ truncate_to_max_tokens count raw) \<le> MAX_CHUNK_TOKENS"
        and "chunk_step count cs raw = cs' @
          [new_chunk count (c_text c @ '' '' @ truncate_to_max_tokens count raw) (c_index c)]"
    | (push) "truncate_to_max_tokens count raw \<noteq> []"
        and "chunk_step count cs raw =
          cs @ [new_chunk count (truncate_to_max_tokens count raw) (length cs)]"
proof -
  let ?t = "truncate_to_max_tokens count raw"
  consider "?t = []" | cs' c where "cs = cs' @ [c]" "?t \<noteq> []" "length ?t < MIN_CHUNK_CHARS"
      "count (c_text c @ '' '' @ ?t) \<le> MAX_CHUNK_TOKENS"
    | "?t \<noteq> []" "\<not> (length ?t < MIN_CHUNK_CHARS \<and> cs \<noteq> [] \<and>
        count (c_text (last cs) @ '' '' @ ?t) \<le> MAX_CHUNK_TOKENS)"
    by (cases cs rule: rev_cases) auto
  then show ?thesis
  proof cases
    case 1
    then show ?thesis by (intro skip) (simp_all add: chunk_step_def)
  next
    case (2 cs' c)
    then show ?thesis by (intro merge [of cs' c]) (simp_all add: chunk_step_def)
  next
    case 3
    then show ?thesis by (intro push) (auto simp: chunk_step_def Let_def)
  qed
qed

text \<open>The texts already in chunks stay in chunks, and the new raw text gets into one.\<close>

lemma chunk_step_keeps_text:
  "c \<in> set cs \<Longrightarrow> \<exists>d \<in> set (chunk_step count cs raw). prefix (c_text c) (c_text d)"
  by (cases rule: chunk_step_cases [of count raw cs]) auto

lemma chunk_step_adds_text:
  "truncate_to_max_tokens count raw \<noteq> [] \<Longrightarrow>
     \<exists>d \<in> set (chunk_step count cs raw). suffix (truncate_to_max_tokens count raw) (c_text d)"
  by (cases rule: chunk_step_cases [of count raw cs]) (auto simp: suffix_def)

lemma foldl_chunk_step_keeps_text:
  "c \<in> set cs \<Longrightarrow> \<exists>d \<in> set (foldl (chunk_step count) cs raws). prefix (c_text c) (c_text d)"
proof (induction raws arbitrary: c cs)
  case (Cons raw raws)
  from chunk_step_keeps_text [OF Cons.prems]
  obtain d where d: "d \<in> set (chunk_step count cs raw)" "prefix (c_text c) (c_text d)" by blast
  from Cons.IH [OF d(1)] d(2) show ?case by (auto intro: prefix_order.trans)
qed auto

lemma foldl_chunk_step_covers:
  assumes "raw \<in> set raws" and "truncate_to_max_tokens count raw \<noteq> []"
  shows "\<exists>d \<in> set (foldl (chunk_step count) cs raws).
     sublist (truncate_to_max_tokens count raw) (c_text d)"
proof -
  obtain xs ys where raws: "raws = xs @ raw # ys" using assms(1) by (auto simp: in_set_conv_decomp)
  let ?cs = "foldl (chunk_step count) cs xs"
  obtain d where d: "d \<in> set (chunk_step count ?cs raw)"
    "suffix (truncate_to_max_tokens count raw) (c_text d)"
    using chunk_step_adds_text [OF assms(2)] by blast
  from foldl_chunk_step_keeps_text [OF d(1), of count ys]
  obtain e where "e \<in> set (foldl (chunk_step count) (chunk_step count ?cs raw) ys)"
    "prefix (c_text d) (c_text e)" by blast
  then have "e \<in> set (foldl (chunk_step count) cs raws)" by (simp add: raws)
  moreover have "sublist (truncate_to_max_tokens count raw) (c_text e)"
    using d(2) \<open>prefix (c_text d) (c_text e)\<close>
    by (metis sublist_order.order_trans suffix_imp_sublist prefix_imp_sublist)
  ultimately show ?thesis by blast
qed

context token_counter
begin

lemma chunk_step_wf:
  assumes "chunks_wf count cs" and "texts_nonempty cs" and "stripped raw"
  shows "chunks_wf count (chunk_step count cs raw) \<and> texts_nonempty (chunk_step count cs raw)"
proof (cases rule: chunk_step_cases [of count raw cs])
  case (merge cs' c)
  have "stripped (truncate_to_max_tokens count raw)" by (rule truncate_stripped [OF assms(3)])
  then have "stripped (c_text c @ '' '' @ truncate_to_max_tokens count raw)"
    using assms merge(1,2) by (intro stripped_join) (auto simp: chunk_ok_def)
  with assms merge show ?thesis by (simp add: chunk_ok_def)
next
  case push
  then show ?thesis
    using assms truncate_stripped [OF assms(3)] truncate_bound by (simp add: chunk_ok_def)
qed (use assms in simp)

lemma foldl_chunk_step_wf:
  "chunks_wf count cs \<Longrightarrow> texts_nonempty cs \<Longrightarrow> \<forall>r \<in> set raws. stripped r \<Longrightarrow>
     chunks_wf count (foldl (chunk_step count) cs raws) \<and>
     texts_nonempty (foldl (chunk_step count) cs raws)"
proof (induction raws arbitrary: cs)
  case (Cons r raws)
  from chunk_step_wf [OF Cons.prems(1,2), of r] Cons.prems(3) show ?case
    by (simp add: Cons.IH)
qed simp

lemma chunk_item_wf: "chunks_wf count (chunk_item split_text count content source_type)"
proof -
  have "\<forall>r \<in> set (map py_strip xs). stripped r" for xs by (simp add: stripped_py_strip)
  note wf = foldl_chunk_step_wf [OF _ _ this, of "[]", simplified]
  have one: "chunk_ok count 0 (new_chunk count (truncate_to_max_tokens count (py_strip content)) 0)"
    by (simp add: chunk_ok_def truncate_bound truncate_stripped stripped_py_strip)
  have "chunks_wf count [new_chunk count (truncate_to_max_tokens count (py_strip content)) 0]"
    using chunks_wf_snoc [of count "[]"] one by simp
  with wf show ?thesis by (simp add: chunk_item_def Let_def)
qed

lemma chunk_item_texts:
  assumes small: "\<And>s. count s \<le> MAX_CHUNK_TOKENS * length s"
  shows "texts_nonempty (chunk_item split_text count content source_type)"
proof (cases "py_strip content = []")
  case False
  have "\<forall>r \<in> set (map py_strip xs). stripped r" for xs by (simp add: stripped_py_strip)
  note wf = foldl_chunk_step_wf [OF _ _ this, of "[]", simplified]
  have "truncate_to_max_tokens count (py_strip content) \<noteq> []"
    by (rule truncate_nonempty [OF small stripped_py_strip False])
  then show ?thesis using wf by (simp add: chunk_item_def Let_def texts_nonempty_def)
qed (simp add: chunk_item_def)

end

lemma chunk_item_Nil_iff: "chunk_item split_text count content st = [] \<longleftrightarrow> py_strip content = []"
  by (simp add: chunk_item_def Let_def)

text \<open>
  Chunks are well-formed. Whatever the splitter and the tokenizer return: chunk \<open>i\<close> of
  an item carries index \<open>i\<close>, the length and the token count of its own text, at most 600
  tokens, and a text without surrounding whitespace; and an item yields no chunk exactly
  when its content is blank.
\<close>

theorem chunk_item_well_formed:
  "chunks_wf (count_tokens tok) (chunk_item split_text (count_tokens tok) content st) \<and>
   (chunk_item split_text (count_tokens tok) content st = [] \<longleftrightarrow> py_strip content = [])"
  by (simp add: ct.chunk_item_wf chunk_item_Nil_iff)



text \<open>
  C28 (truncation). The shrinking loop ends, its result is a prefix of the text that fits
  the limit, a text that fits is returned as it is, and a tokenizer that never gives one
  character more than 600 tokens never truncates a stripped text to nothing, so every chunk
  of every item has a text that the embedder accepts.
\<close>

theorem truncate_to_max_tokens_correct:
  assumes "\<And>s. length (tok s) \<le> 600 * length s"
  shows "prefix (truncate_to_max_tokens (count_tokens tok) t) t \<and>
     count_tokens tok (truncate_to_max_tokens (count_tokens tok) t) \<le> 600 \<and>
     (count_tokens tok t \<le> 600 \<longrightarrow> truncate_to_max_tokens (count_tokens tok) t = t) \<and>
     (t \<noteq> [] \<and> stripped t \<longrightarrow> truncate_to_max_tokens (count_tokens tok) t \<noteq> []) \<and>
     (\<forall>c \<in> set (chunk_item split_text (count_tokens tok) t st). py_strip (c_text c) \<noteq> [])"
proof -
  let ?ct = "count_tokens tok"
  have small: "?ct s \<le> MAX_CHUNK_TOKENS * length s" for s
    using assms by (simp add: count_tokens_def MAX_CHUNK_TOKENS_def)
  have "c_text c \<noteq> [] \<and> stripped (c_text c)"
    if "c \<in> set (chunk_item split_text ?ct t st)" for c
    using ct.chunk_item_texts [OF small, of split_text t st]
      ct.chunk_item_wf [of tok split_text t st] that
    by (auto simp: texts_nonempty_def chunks_wf_def chunk_ok_def in_set_conv_nth)
  then have "\<forall>c \<in> set (chunk_item split_text ?ct t st). py_strip (c_text c) \<noteq> []"
    by (auto simp: py_strip_stripped)
  then show ?thesis
    using truncate_prefix [of ?ct t] ct.truncate_bound [of tok t] truncate_short [of ?ct t]
      truncate_nonempty [OF small, of t]
    by (auto simp: MAX_CHUNK_TOKENS_def)
qed

theorem truncate_to_max_tokens_correct_witness:
  "(\<forall>s. length (map of_char s :: int list) \<le> 600 * length s) \<and>
   truncate_to_max_tokens (count_tokens (map of_char)) ''abc'' = ''abc''"
  using truncate_to_max_tokens_correct [of "map of_char" "''abc''"]
  by (auto simp: count_tokens_def)

text \<open>Every call of the splitter has an overlap smaller than its chunk size, which it demands.\<close>

lemma splitter_config:
  "0 < splitter_size st \<and> splitter_overlap st < splitter_size st \<and> splitter_size st \<le> 2000"
  by (auto simp: splitter_size_def splitter_overlap_def config_for_def CHUNK_CONFIG_def
      DEFAULT_CHUNK_CONFIG_def CHARS_PER_TOKEN_def Let_def)

end
