(* ===== verification/Payload.thy ===== *)
theory Payload
  imports Chunker
begin

text \<open>
  The payload stored with every chunk, \<^verbatim>\<open>apps/ingestion/payload.py\<close>: a dict of 17 keys, in
  the order the code writes them. The text of the upload time is an argument
  (\<open>now.isoformat()\<close>).
\<close>

section \<open>The code\<close>

record scraped_source =
  src_type :: string
  src_filename :: "string option"
  src_url :: "string option"
  src_content_hash :: string

record scraped_item =
  si_item_index :: nat
  si_section_path :: "string list"
  si_page_number :: "int option"

definition build_chunk_id :: "string \<Rightarrow> nat \<Rightarrow> nat \<Rightarrow> string" where
  "build_chunk_id doc_id item_index chunk_index =
     doc_id @ ''__i'' @ show_nat item_index @ ''__c'' @ show_nat chunk_index"

text \<open>An optional string or number as JSON: \<open>None\<close> is \<open>null\<close>.\<close>

definition json_opt :: "('a \<Rightarrow> json) \<Rightarrow> 'a option \<Rightarrow> json" where
  "json_opt f x = (case x of None \<Rightarrow> JNull | Some y \<Rightarrow> f y)"

definition build_payload ::
  "chunk \<Rightarrow> string \<Rightarrow> string \<Rightarrow> string \<Rightarrow> scraped_item \<Rightarrow> scraped_source \<Rightarrow> string
     \<Rightarrow> (string \<times> json) list" where
  "build_payload chunk tenant_id bot_id doc_id item source now_iso =
    [(''tenant_id'', JStr tenant_id),
     (''bot_id'', JStr bot_id),
     (''doc_id'', JStr doc_id),
     (''chunk_id'', JStr (build_chunk_id doc_id (si_item_index item) (c_index chunk))),
     (''version'', JInt 1),
     (''is_active'', JBool True),
     (''uploaded_at'', JStr now_iso),
     (''source_type'', JStr (src_type source)),
     (''source_filename'', json_opt JStr (src_filename source)),
     (''source_url'', json_opt JStr (src_url source)),
     (''source_item_index'', JInt (int (si_item_index item))),
     (''source_content_hash'', JStr (src_content_hash source)),
     (''section_path'', JList (map JStr (si_section_path item))),
     (''page_number'', json_opt JInt (si_page_number item)),
     (''text'', JStr (c_text chunk)),
     (''char_count'', JInt (int (c_chars chunk))),
     (''token_count'', JInt (int (c_tokens chunk)))]"

section \<open>Chunk ids\<close>

lemma digits_not_sep: "CHR ''_'' \<notin> set (show_nat n)" "CHR ''c'' \<notin> set (show_nat n)"
    "CHR ''i'' \<notin> set (show_nat n)"
  using show_nat_digits [of n] by (auto simp: is_digit_def)

text \<open>The last occurrence of a character splits a string in one way.\<close>

lemma split_at_last_sep:
  assumes "xs @ c # ys = xs' @ c # ys'" and "c \<notin> set ys" and "c \<notin> set ys'"
  shows "xs = xs' \<and> ys = ys'"
proof -
  have "rev ys @ c # rev xs = rev ys' @ c # rev xs'"
    using arg_cong [OF assms(1), of rev] by simp
  from split_at_sep [OF this] assms(2,3) show ?thesis by simp
qed

text \<open>
  Chunk ids. The id of a chunk determines the document, the item and the position of
  the chunk in it: no two chunks of the service share an id.
\<close>

theorem build_chunk_id_inject:
  "build_chunk_id d i c = build_chunk_id d' i' c' \<longleftrightarrow> d = d' \<and> i = i' \<and> c = c'"
proof
  assume "build_chunk_id d i c = build_chunk_id d' i' c'"
  then have eq: "(d @ ''__i'' @ show_nat i @ ''__'') @ CHR ''c'' # show_nat c =
      (d' @ ''__i'' @ show_nat i' @ ''__'') @ CHR ''c'' # show_nat c'"
    by (simp add: build_chunk_id_def)
  from split_at_last_sep [OF this] digits_not_sep
  have c: "c = c'" and "d @ ''__i'' @ show_nat i @ ''__'' = d' @ ''__i'' @ show_nat i' @ ''__''"
    by (metis show_nat_inject)+
  then have "(d @ ''__'') @ CHR ''i'' # show_nat i @ ''__'' = (d' @ ''__'') @ CHR ''i'' # show_nat i' @ ''__''"
    by simp
  from split_at_last_sep [OF this] digits_not_sep
  have "d @ ''__'' = d' @ ''__''" and "show_nat i @ ''__'' = show_nat i' @ ''__''"
    by auto
  with c show "d = d' \<and> i = i' \<and> c = c'" by simp
qed simp

section \<open>Payload keys\<close>

definition payload_keys :: "string list" where
  "payload_keys = [''tenant_id'', ''bot_id'', ''doc_id'', ''chunk_id'', ''version'', ''is_active'',
     ''uploaded_at'', ''source_type'', ''source_filename'', ''source_url'', ''source_item_index'',
     ''source_content_hash'', ''section_path'', ''page_number'', ''text'', ''char_count'', ''token_count'']"

lemma keys_build_payload: "keys (build_payload c t b d i s now) = payload_keys"
  by (simp add: build_payload_def payload_keys_def)

lemma build_payload_lookup [simp]:
  "lookup (build_payload c t b d i s now) ''tenant_id'' = Some (JStr t)"
  "lookup (build_payload c t b d i s now) ''bot_id'' = Some (JStr b)"
  "lookup (build_payload c t b d i s now) ''doc_id'' = Some (JStr d)"
  "lookup (build_payload c t b d i s now) ''chunk_id'' =
     Some (JStr (build_chunk_id d (si_item_index i) (c_index c)))"
  "lookup (build_payload c t b d i s now) ''is_active'' = Some (JBool True)"
  "lookup (build_payload c t b d i s now) ''source_type'' = Some (JStr (src_type s))"
  "lookup (build_payload c t b d i s now) ''text'' = Some (JStr (c_text c))"
  by (simp_all add: build_payload_def)

lemma build_payload_no_key: "k \<notin> set payload_keys \<Longrightarrow> lookup (build_payload c t b d i s now) k = None"
  by (simp add: lookup_None_iff keys_build_payload)

end
