(* ===== verification/QdrantClient.thy ===== *)
theory QdrantClient
  imports Payload
begin

text \<open>
  The vector database as the service sees it, and \<^verbatim>\<open>apps/qdrant_core/client.py\<close>. The data
  classes of the client library that the source builds and reads are records and datatypes.
  The database itself is not part of the repository: its operations are the fields of a
  \<open>client\<close> record, computations over a database state \<open>'q\<close> that nothing is assumed about
  here. \<open>with_retry\<close> is the decorator around every operation on it.
\<close>

section \<open>The library's data\<close>

datatype distance = COSINE | EUCLID | DOT | MANHATTAN

datatype modifier = IDF | NO_MODIFIER

datatype multivector_comparator = MAX_SIM

record hnsw_config =
  hnsw_m :: nat
  hnsw_ef_construct :: "nat option"

record vector_params =
  vp_size :: nat
  vp_distance :: distance
  vp_multivector :: "multivector_comparator option"
  vp_hnsw :: hnsw_config

record sparse_vector_params =
  sp_on_disk :: bool
  sp_modifier :: "modifier option"

text \<open>\<open>params.vectors\<close>: absent, one unnamed vector, or named vectors.\<close>

datatype vectors_field =
    NoVectors
  | SingleVector vector_params
  | NamedVectors "(string \<times> vector_params) list"

record collection_params =
  cp_vectors :: vectors_field
  cp_sparse :: "(string \<times> sparse_vector_params) list option"

datatype index_schema = KEYWORD | BOOL | KEYWORD_TENANT

datatype field_match = MatchValue json | MatchAny "string list"

record field_condition =
  fc_key :: string
  fc_match :: field_match

text \<open>A filter is its \<open>must\<close> list.\<close>

type_synonym qfilter = "field_condition list"

record point =
  p_id :: string
  p_dense :: "rat list"
  p_bm25 :: sparse_vector
  p_colbert :: "rat list list"
  p_payload :: "(string \<times> json) list"

datatype query = DenseQuery "rat list" | SparseQuery sparse_vector | FusionRRF

datatype prefetch =
  Prefetch (pf_prefetch: "prefetch list") (pf_query: query) (pf_using: "string option")
    (pf_limit: nat) (pf_filter: "qfilter option")

record query_request =
  qr_collection :: string
  qr_prefetch :: "prefetch list"
  qr_query :: "rat list list"
  qr_using :: string
  qr_limit :: int
  qr_score_threshold :: rat
  qr_with_payload :: bool
  qr_with_vectors :: bool
  qr_filter :: qfilter

record scored_point =
  sc_payload :: "(string \<times> json) list option"
  sc_score :: rat

record 'q client =
  collection_exists :: "string \<Rightarrow> ('q, bool) prog"
  create_collection :: "string \<Rightarrow> (string \<times> vector_params) list \<Rightarrow>
    (string \<times> sparse_vector_params) list \<Rightarrow> ('q, unit) prog"
  create_payload_index :: "string \<Rightarrow> string \<Rightarrow> index_schema \<Rightarrow> ('q, unit) prog"
  get_collection :: "string \<Rightarrow> ('q, collection_params) prog"
  count_points :: "string \<Rightarrow> qfilter \<Rightarrow> ('q, nat) prog"
  delete_points :: "string \<Rightarrow> qfilter \<Rightarrow> ('q, unit) prog"
  delete_collection :: "string \<Rightarrow> ('q, unit) prog"
  upsert_points :: "string \<Rightarrow> point list \<Rightarrow> ('q, unit) prog"
  query_points :: "query_request \<Rightarrow> ('q, scored_point list) prog"
  get_collections :: "('q, unit) prog"

section \<open>Retry with backoff\<close>

definition retryable_grpc_codes :: "grpc_code list" where
  "retryable_grpc_codes = [UNAVAILABLE, DEADLINE_EXCEEDED, RESOURCE_EXHAUSTED]"

definition is_transient :: "exn \<Rightarrow> bool" where
  "is_transient e = (case e of
      RpcError cls (Some code) msg \<Rightarrow> code \<in> set retryable_grpc_codes
    | RpcError cls None msg \<Rightarrow> False
    | _ \<Rightarrow> exn_class e \<in> set [''ResponseHandlingException'', ''ConnectionError'', ''TimeoutException''])"

text \<open>
  The loop \<open>for attempt in range(attempts)\<close>, with \<open>left\<close> attempts to go: \<open>sleep\<close> is
  \<open>time.sleep\<close>, \<open>jitter left\<close> the value \<open>random.uniform(-0.2, 0.2)\<close> gives in this attempt.
\<close>

definition exhausted :: "nat \<Rightarrow> exn option \<Rightarrow> exn" where
  "exhausted attempts last_exc = Qdrant (QdrantConnectionError
     (''Exhausted '' @ show_nat attempts @ '' retry attempts: '' @
      (case last_exc of None \<Rightarrow> ''None'' | Some e \<Rightarrow> exn_text e)))"

primrec retry_loop ::
  "(rat \<Rightarrow> ('s, unit) prog) \<Rightarrow> (nat \<Rightarrow> rat) \<Rightarrow> nat \<Rightarrow> rat \<Rightarrow> ('s, 'a) prog \<Rightarrow>
     nat \<Rightarrow> rat \<Rightarrow> exn option \<Rightarrow> ('s, 'a) prog" where
  "retry_loop sleep jitter attempts backoff fn 0 delay last_exc =
     raise_io (exhausted attempts last_exc)"
| "retry_loop sleep jitter attempts backoff fn (Suc left) delay last_exc =
     try_io fn (\<lambda>e.
       if \<not> is_transient e then raise_io e
       else if left = 0 then raise_io (exhausted attempts (Some e))
       else seq_io (sleep (delay * (1 + jitter left)))
         (retry_loop sleep jitter attempts backoff fn left (delay * backoff) (Some e)))"

definition with_retry ::
  "(rat \<Rightarrow> ('s, unit) prog) \<Rightarrow> (nat \<Rightarrow> rat) \<Rightarrow> nat \<Rightarrow> rat \<Rightarrow> rat \<Rightarrow> ('s, 'a) prog \<Rightarrow> ('s, 'a) prog" where
  "with_retry sleep jitter attempts initial_delay backoff fn =
     retry_loop sleep jitter attempts backoff fn attempts initial_delay None"

text \<open>
  The decorator as the source applies it, \<open>@with_retry()\<close>: three attempts, half a second,
  doubled. Sleeping changes nothing in the database.
\<close>

definition retried :: "('s, 'a) prog \<Rightarrow> ('s, 'a) prog" where
  "retried fn = with_retry (\<lambda>_. return_io ()) (\<lambda>_. 0) 3 (1 / 2) 2 fn"

section \<open>Lemmas\<close>

lemma exhausted_not_transient [simp]: "\<not> is_transient (exhausted n e)"
  by (simp add: exhausted_def is_transient_def)

lemma upload_error_not_transient [simp]: "\<not> is_transient (Upload u)"
  by (cases u) (simp_all add: is_transient_def)

lemma qdrant_error_not_transient [simp]: "\<not> is_transient (Qdrant q)"
  by (cases q) (simp_all add: is_transient_def)

lemma not_transient_simps [simp]:
  "\<not> is_transient (UnexpectedResponse st m)" "\<not> is_transient (ValueError v)"
  "\<not> is_transient (InvalidIdentifierError v)"
  by (simp_all add: is_transient_def)

declare retry_loop.simps(2) [simp del]

lemma retry_loop_run:
  "retry_loop sleep jitter attempts backoff fn (Suc left) delay last_exc s =
     (case fn s of (Inr x, t) \<Rightarrow> (Inr x, t)
      | (Inl e, t) \<Rightarrow> if \<not> is_transient e then (Inl e, t)
          else if left = 0 then (Inl (exhausted attempts (Some e)), t)
          else seq_io (sleep (delay * (1 + jitter left)))
            (retry_loop sleep jitter attempts backoff fn left (delay * backoff) (Some e)) t)"
  by (simp add: retry_loop.simps(2) try_io_def split: prod.splits sum.splits)

lemma retried_run:
  "retried fn s = (case fn s of (Inr x, t) \<Rightarrow> (Inr x, t)
     | (Inl e, t) \<Rightarrow> if \<not> is_transient e then (Inl e, t) else
       (case fn t of (Inr x, u) \<Rightarrow> (Inr x, u)
        | (Inl f, u) \<Rightarrow> if \<not> is_transient f then (Inl f, u) else
          (case fn u of (Inr x, v) \<Rightarrow> (Inr x, v)
           | (Inl g, v) \<Rightarrow> (Inl (if is_transient g then exhausted 3 (Some g) else g), v))))"
  by (simp add: retried_def with_retry_def retry_loop_run numeral_3_eq_3 seq_io_def
      split: prod.split sum.split)

lemma frame_retry_loop:
  assumes "frame f fn" and "\<And>d. frame f (sleep d)"
  shows "frame f (retry_loop sleep jitter attempts backoff fn left delay e)"
  by (induction left arbitrary: delay e)
    (auto simp: retry_loop.simps(2) intro!: frame_intro assms)

lemma frame_retried [frame_intro]: "frame f fn \<Longrightarrow> frame f (retried fn)"
  unfolding retried_def with_retry_def by (intro frame_retry_loop frame_return)

lemma keeps_retry_loop:
  assumes "keeps I fn" and "\<And>d. keeps I (sleep d)"
  shows "keeps I (retry_loop sleep jitter attempts backoff fn left delay e)"
  by (induction left arbitrary: delay e)
    (auto simp: retry_loop.simps(2) intro!: keeps_intro assms)

lemma keeps_retried [keeps_intro]: "keeps I fn \<Longrightarrow> keeps I (retried fn)"
  unfolding retried_def with_retry_def by (intro keeps_retry_loop keeps_return)

text \<open>What an attempt guarantees from any state satisfying \<open>I\<close>, the decorated call guarantees.\<close>

definition retry_error :: "(exn \<Rightarrow> 's \<Rightarrow> bool) \<Rightarrow> nat \<Rightarrow> exn \<Rightarrow> 's \<Rightarrow> bool" where
  "retry_error E attempts e s \<longleftrightarrow> (\<not> is_transient e \<and> E e s) \<or>
     (\<exists>f. e = exhausted attempts (Some f) \<and> is_transient f \<and> E f s)"

lemma triple_retry_loop:
  assumes fn: "triple I fn Q E" and again: "\<And>e s. is_transient e \<Longrightarrow> E e s \<Longrightarrow> I s"
    and sleep: "\<And>d. triple I (sleep d) (\<lambda>_. I) (\<lambda>_ _. False)"
  shows "triple I (retry_loop sleep jitter attempts backoff fn (Suc left) delay last_exc)
    Q (retry_error E attempts)"
proof (induction left arbitrary: delay last_exc)
  case 0
  show ?case
  proof (rule tripleI)
    fix s x t assume "I s" "retry_loop sleep jitter attempts backoff fn (Suc 0) delay last_exc s = (Inr x, t)"
    then show "Q x t"
      by (auto simp: retry_loop_run split: prod.splits sum.splits if_splits dest: triple_InrD [OF fn])
  next
    fix s e t assume "I s" "retry_loop sleep jitter attempts backoff fn (Suc 0) delay last_exc s = (Inl e, t)"
    then show "retry_error E attempts e t"
      by (auto simp: retry_error_def retry_loop_run split: prod.splits sum.splits if_splits
          dest: triple_InlD [OF fn])
  qed
next
  case (Suc left)
  let ?next = "\<lambda>e. seq_io (sleep (delay * (1 + jitter (Suc left))))
    (retry_loop sleep jitter attempts backoff fn (Suc left) (delay * backoff) (Some e))"
  have "next": "triple I (?next e) Q (retry_error E attempts)" for e
    by (rule triple_seq [OF triple_weaken [OF sleep] Suc.IH]) auto
  show ?case
  proof (rule tripleI)
    fix s x t assume "I s" "retry_loop sleep jitter attempts backoff fn (Suc (Suc left)) delay last_exc s = (Inr x, t)"
    then show "Q x t"
      by (auto simp: retry_loop_run [of _ _ _ _ _ "Suc left"] split: prod.splits sum.splits if_splits
          dest: triple_InrD [OF fn] triple_InlD [OF fn] intro: triple_InrD [OF "next"] again)
  next
    fix s e t assume "I s" "retry_loop sleep jitter attempts backoff fn (Suc (Suc left)) delay last_exc s = (Inl e, t)"
    then show "retry_error E attempts e t"
      by (auto simp: retry_loop_run [of _ _ _ _ _ "Suc left"] split: prod.splits sum.splits if_splits
          dest: triple_InlD [OF fn] intro: triple_InlD [OF "next"] again)
        (auto simp: retry_error_def dest: triple_InlD [OF fn])
  qed
qed

lemma triple_retried:
  assumes "triple I fn Q E" and "\<And>e s. is_transient e \<Longrightarrow> E e s \<Longrightarrow> I s"
  shows "triple I (retried fn) Q (retry_error E 3)"
  unfolding retried_def with_retry_def numeral_3_eq_3
  by (rule triple_retry_loop [OF assms]) (auto intro: triple_return)

section \<open>What the decorator promises\<close>

text \<open>The calls of \<open>fn\<close> counted and the sleeps logged, beside the state.\<close>

definition traced :: "('s, 'a) prog \<Rightarrow> (nat \<times> rat list \<times> 's, 'a) prog" where
  "traced fn = (\<lambda>(n, ds, s). case fn s of (r, t) \<Rightarrow> (r, (Suc n, ds, t)))"

definition log_sleep :: "rat \<Rightarrow> (nat \<times> rat list \<times> 's, unit) prog" where
  "log_sleep d = modify_io (\<lambda>(n, ds, s). (n, ds @ [d], s))"

lemma traced_run: "traced fn (n, ds, s) = (fst (fn s), (Suc n, ds, snd (fn s)))"
  by (simp add: traced_def split: prod.split)

lemma log_sleep_run: "seq_io (log_sleep d) k (n, ds, s) = k (n, ds @ [d], s)"
  by (simp add: log_sleep_def)

lemma retry_loop_traced:
  assumes "retry_loop log_sleep jitter attempts backoff (traced fn) (Suc left) delay le (n, ds, s)
      = (r, (n', ds', t))"
    and j: "\<And>k. - (1 / 5) \<le> jitter k \<and> jitter k \<le> 1 / 5"
    and b: "0 \<le> delay" "0 \<le> backoff"
  shows "\<exists>new. ds' = ds @ new \<and> n' = n + Suc (length new) \<and> length new \<le> left \<and>
    (\<forall>k < length new. 4 / 5 * (delay * backoff ^ k) \<le> new ! k \<and> new ! k \<le> 6 / 5 * (delay * backoff ^ k)) \<and>
    (\<forall>e. r = Inl e \<longrightarrow> \<not> is_transient e)"
  using assms(1) b(1)
proof (induction left arbitrary: delay le n ds s)
  case 0
  then show ?case
    by (intro exI [of _ "[]"])
      (auto simp: retry_loop_run traced_run split: prod.splits sum.splits if_splits)
next
  case (Suc left)
  let ?s = "snd (fn s)"
  show ?case
  proof (cases "\<exists>e. fst (fn s) = Inl e \<and> is_transient e")
    case False
    then show ?thesis using Suc.prems
      by (intro exI [of _ "[]"])
        (auto simp: retry_loop_run traced_run split: prod.splits sum.splits if_splits)
  next
    case True
    then obtain e where e: "fst (fn s) = Inl e" "is_transient e" by blast
    let ?d = "delay * (1 + jitter (Suc left))"
    from Suc.prems(1) e have run: "retry_loop log_sleep jitter attempts backoff (traced fn) (Suc left)
        (delay * backoff) (Some e) (Suc n, ds @ [?d], ?s) = (r, (n', ds', t))"
      by (subst (asm) retry_loop_run) (simp add: traced_run log_sleep_run)
    from Suc.IH [OF run] Suc.prems(2) b(2)
    obtain new where new: "ds' = (ds @ [?d]) @ new" "n' = Suc n + Suc (length new)" "length new \<le> left"
      "\<forall>k < length new. 4 / 5 * (delay * backoff * backoff ^ k) \<le> new ! k \<and>
          new ! k \<le> 6 / 5 * (delay * backoff * backoff ^ k)"
      "\<forall>e. r = Inl e \<longrightarrow> \<not> is_transient e" by auto
    have "4 / 5 * delay \<le> ?d" and "?d \<le> 6 / 5 * delay"
      using mult_left_mono [of "4 / 5" "1 + jitter (Suc left)" delay]
        mult_left_mono [of "1 + jitter (Suc left)" "6 / 5" delay] j [of "Suc left"] Suc.prems(2)
      by (simp_all add: mult.commute)
    with new show ?thesis
      by (intro exI [of _ "?d # new"]) (auto simp: nth_Cons mult.assoc split: nat.split)
  qed
qed



lemma retried_Inl_not_transient: "retried fn s = (Inl e, t) \<Longrightarrow> \<not> is_transient e"
  by (auto simp: retried_run split: prod.splits sum.splits if_splits)

text \<open>
  Nested retries. Decorating a decorated operation again changes nothing: the inner
  decorator's exceptions are never retried, so nesting (\<open>get_or_create_collection\<close> calls
  \<open>create_collection_for_bot\<close>) does not multiply the attempts. The decorated operation is the
  first attempt that returns or fails for good, of at most three.
\<close>

theorem retried_idem: "retried (retried fn) = (retried fn :: ('s, 'a) prog)"
proof
  fix s
  show "retried (retried fn) s = retried fn s"
    by (subst (1) retried_run)
      (auto split: prod.split sum.split dest: retried_Inl_not_transient)
qed

end
