(* ===== verification/Collection.thy ===== *)
theory Collection
  imports QdrantClient Naming
begin

text \<open>
  Management of the per-bot collections, \<^verbatim>\<open>apps/qdrant_core/collection.py\<close>: the locked
  schema, creation with payload indexes, the idempotent get-or-create, the schema
  comparison, deletion by document and dropping. Every operation is a computation over the
  database state through the \<open>client\<close> record.
\<close>

section \<open>The schema\<close>

definition DENSE_VECTOR_NAME :: string where "DENSE_VECTOR_NAME = ''dense''"
definition DENSE_VECTOR_SIZE :: nat where "DENSE_VECTOR_SIZE = 1024"
definition DENSE_HNSW_M :: nat where "DENSE_HNSW_M = 16"
definition DENSE_HNSW_EF_CONSTRUCT :: nat where "DENSE_HNSW_EF_CONSTRUCT = 128"
definition SPARSE_VECTOR_NAME :: string where "SPARSE_VECTOR_NAME = ''bm25''"
definition COLBERT_VECTOR_NAME :: string where "COLBERT_VECTOR_NAME = ''colbert''"
definition COLBERT_VECTOR_SIZE :: nat where "COLBERT_VECTOR_SIZE = 1024"

definition PAYLOAD_INDEXES :: "(string \<times> index_schema) list" where
  "PAYLOAD_INDEXES = [
     (''doc_id'', KEYWORD),
     (''source_type'', KEYWORD),
     (''source_url'', KEYWORD),
     (''language'', KEYWORD),
     (''tags'', KEYWORD),
     (''category'', KEYWORD),
     (''is_active'', BOOL),
     (''tenant_id'', KEYWORD_TENANT)]"

definition expected_vectors_config :: "(string \<times> vector_params) list" where
  "expected_vectors_config = [
     (DENSE_VECTOR_NAME, \<lparr>vp_size = DENSE_VECTOR_SIZE, vp_distance = COSINE, vp_multivector = None,
        vp_hnsw = \<lparr>hnsw_m = DENSE_HNSW_M, hnsw_ef_construct = Some DENSE_HNSW_EF_CONSTRUCT\<rparr>\<rparr>),
     (COLBERT_VECTOR_NAME, \<lparr>vp_size = COLBERT_VECTOR_SIZE, vp_distance = COSINE,
        vp_multivector = Some MAX_SIM, vp_hnsw = \<lparr>hnsw_m = 0, hnsw_ef_construct = None\<rparr>\<rparr>)]"

definition expected_sparse_vectors_config :: "(string \<times> sparse_vector_params) list" where
  "expected_sparse_vectors_config = [
     (SPARSE_VECTOR_NAME, \<lparr>sp_on_disk = False, sp_modifier = Some IDF\<rparr>)]"

section \<open>Comparing schemas\<close>

primrec distance_text :: "distance \<Rightarrow> string" where
  "distance_text COSINE = ''Distance.COSINE''"
| "distance_text EUCLID = ''Distance.EUCLID''"
| "distance_text DOT = ''Distance.DOT''"
| "distance_text MANHATTAN = ''Distance.MANHATTAN''"

definition modifier_text :: "modifier option \<Rightarrow> string" where
  "modifier_text m = (case m of None \<Rightarrow> ''None'' | Some IDF \<Rightarrow> ''Modifier.IDF''
     | Some NO_MODIFIER \<Rightarrow> ''Modifier.NONE'')"

text \<open>
  \<open>actual.vectors.get(name) if actual.vectors else None\<close>: an unnamed vector is an object
  with no \<open>get\<close>.
\<close>

definition vector_named :: "collection_params \<Rightarrow> string \<Rightarrow> exn + vector_params option" where
  "vector_named p name = (case cp_vectors p of
      NoVectors \<Rightarrow> Inr None
    | SingleVector v \<Rightarrow> Inl (OtherError ''AttributeError'' ''VectorParams object has no attribute get'')
    | NamedVectors vs \<Rightarrow> Inr (lookup vs name))"

definition size_text :: "vector_params option \<Rightarrow> string" where
  "size_text v = (case v of None \<Rightarrow> ''MISSING'' | Some p \<Rightarrow> show_nat (vp_size p))"

definition schema_diff :: "collection_params \<Rightarrow> exn + (string \<times> string) list" where
  "schema_diff actual =
     and_then (vector_named actual DENSE_VECTOR_NAME) (\<lambda>actual_dense.
     and_then (vector_named actual COLBERT_VECTOR_NAME) (\<lambda>actual_colbert.
     let d1 = (if (case actual_dense of None \<Rightarrow> True | Some v \<Rightarrow> vp_size v \<noteq> DENSE_VECTOR_SIZE)
           then [(''dense.size'', ''expected '' @ show_nat DENSE_VECTOR_SIZE @ '', got '' @ size_text actual_dense)]
           else []);
         d2 = (case actual_dense of
             Some v \<Rightarrow> if vp_distance v \<noteq> COSINE
               then [(''dense.distance'', ''expected COSINE, got '' @ distance_text (vp_distance v))] else []
           | None \<Rightarrow> []);
         d3 = (if (case actual_colbert of None \<Rightarrow> True | Some v \<Rightarrow> vp_size v \<noteq> COLBERT_VECTOR_SIZE)
           then [(''colbert.size'', ''expected '' @ show_nat COLBERT_VECTOR_SIZE @ '', got '' @ size_text actual_colbert)]
           else []);
         d4 = (case actual_colbert of
             Some v \<Rightarrow> if vp_multivector v = None
               then [(''colbert.multivector'', ''expected enabled, got disabled'')] else []
           | None \<Rightarrow> []);
         actual_sparse = (case cp_sparse actual of None \<Rightarrow> [] | Some s \<Rightarrow> s);
         d5 = (case lookup actual_sparse SPARSE_VECTOR_NAME of
             None \<Rightarrow> [(''sparse.'' @ SPARSE_VECTOR_NAME, ''MISSING'')]
           | Some sp \<Rightarrow> if sp_modifier sp \<noteq> Some IDF
               then [(''sparse.'' @ SPARSE_VECTOR_NAME @ ''.modifier'',
                      ''expected IDF, got '' @ modifier_text (sp_modifier sp))] else [])
     in Inr (d1 @ d2 @ d3 @ d4 @ d5)))"

definition compare_schema :: "'q client \<Rightarrow> string \<Rightarrow> ('q, (string \<times> string) list) prog" where
  "compare_schema client name =
     bind_io (get_collection client name) (\<lambda>params. of_sum (schema_diff params))"

section \<open>The operations\<close>

definition create_collection_for_bot :: "'q client \<Rightarrow> string \<Rightarrow> string \<Rightarrow> ('q, string) prog" where
  "create_collection_for_bot client tenant_id bot_id = retried (
     bind_io (of_sum (collection_name tenant_id bot_id)) (\<lambda>name.
     seq_io (create_collection client name expected_vectors_config expected_sparse_vectors_config)
    (seq_io (for_io PAYLOAD_INDEXES
        (\<lambda>(field_name, schema). create_payload_index client name field_name schema))
     (return_io name))))"

definition get_or_create_collection :: "'q client \<Rightarrow> string \<Rightarrow> string \<Rightarrow> ('q, string) prog" where
  "get_or_create_collection client tenant_id bot_id = retried (
     bind_io (of_sum (collection_name tenant_id bot_id)) (\<lambda>name.
     bind_io (collection_exists client name) (\<lambda>there.
     if there then
       bind_io (compare_schema client name) (\<lambda>diff.
       if diff \<noteq> [] then raise_io (Qdrant (CollectionSchemaMismatchError name diff))
       else return_io name)
     else
       try_io (create_collection_for_bot client tenant_id bot_id) (\<lambda>exc.
         case exc of
           UnexpectedResponse status_code msg \<Rightarrow>
             if status_code = Some 409 then
               bind_io (compare_schema client name) (\<lambda>diff.
               if diff \<noteq> [] then raise_io (Qdrant (CollectionSchemaMismatchError name diff))
               else return_io name)
             else raise_io (Qdrant (QdrantOperationError
               (''create_collection failed: '' @ exn_text exc)))
         | _ \<Rightarrow> raise_io exc))))"

definition doc_selector :: "string \<Rightarrow> qfilter" where
  "doc_selector doc_id = [\<lparr>fc_key = ''doc_id'', fc_match = MatchValue (JStr doc_id)\<rparr>]"

definition delete_by_doc_id :: "'q client \<Rightarrow> string \<Rightarrow> string \<Rightarrow> string \<Rightarrow> ('q, nat) prog" where
  "delete_by_doc_id client tenant_id bot_id doc_id = retried (
     bind_io (of_sum (collection_name tenant_id bot_id)) (\<lambda>name.
     bind_io (collection_exists client name) (\<lambda>there.
     if \<not> there then return_io 0
     else
       bind_io (count_points client name (doc_selector doc_id)) (\<lambda>count_before.
       seq_io (delete_points client name (doc_selector doc_id))
      (return_io count_before)))))"

definition drop_collection :: "'q client \<Rightarrow> string \<Rightarrow> string \<Rightarrow> ('q, bool) prog" where
  "drop_collection client tenant_id bot_id = retried (
     bind_io (of_sum (collection_name tenant_id bot_id)) (\<lambda>name.
     bind_io (collection_exists client name) (\<lambda>there.
     if \<not> there then return_io False
     else seq_io (delete_collection client name) (return_io True))))"

section \<open>The schema comparison\<close>

definition schema_matches :: "collection_params \<Rightarrow> bool" where
  "schema_matches p \<longleftrightarrow> (\<exists>vs d c sp.
     cp_vectors p = NamedVectors vs \<and>
     lookup vs DENSE_VECTOR_NAME = Some d \<and> vp_size d = 1024 \<and> vp_distance d = COSINE \<and>
     lookup vs COLBERT_VECTOR_NAME = Some c \<and> vp_size c = 1024 \<and> vp_multivector c \<noteq> None \<and>
     (\<exists>ss. cp_sparse p = Some ss \<and> lookup ss SPARSE_VECTOR_NAME = Some sp) \<and>
     sp_modifier sp = Some IDF)"

definition expected_params :: collection_params where
  "expected_params = \<lparr>cp_vectors = NamedVectors expected_vectors_config,
     cp_sparse = Some expected_sparse_vectors_config\<rparr>"

lemma schema_diff_Nil_iff: "schema_diff p = Inr [] \<longleftrightarrow> schema_matches p"
  unfolding schema_diff_def schema_matches_def vector_named_def
  by (cases "cp_vectors p"; cases "cp_sparse p")
    (auto simp: Let_def DENSE_VECTOR_SIZE_def COLBERT_VECTOR_SIZE_def
      split: option.splits if_splits)

lemma schema_matches_expected: "schema_matches expected_params"
  by (simp add: schema_matches_def expected_params_def expected_vectors_config_def
      expected_sparse_vectors_config_def DENSE_VECTOR_NAME_def COLBERT_VECTOR_NAME_def
      SPARSE_VECTOR_NAME_def DENSE_VECTOR_SIZE_def COLBERT_VECTOR_SIZE_def)

lemma schema_diff_cases:
  obtains (fine) "schema_diff p = Inr []" and "schema_matches p"
    | (differs) x xs where "schema_diff p = Inr (x # xs)" and "\<not> schema_matches p"
    | (unnamed) v e where "cp_vectors p = SingleVector v" and "schema_diff p = Inl e"
        and "\<not> schema_matches p"
proof (cases "schema_diff p")
  case (Inl e)
  then have "\<exists>v. cp_vectors p = SingleVector v"
    by (auto simp: schema_diff_def vector_named_def and_then_def Let_def
        split: vectors_field.splits sum.splits)
  moreover have "\<not> schema_matches p" using Inl schema_diff_Nil_iff [of p] by auto
  ultimately show ?thesis using Inl unnamed by blast
next
  case (Inr d)
  then show ?thesis using fine differs schema_diff_Nil_iff [of p] by (cases d) auto
qed

text \<open>
  Schema comparison. The diff is empty exactly when the collection has the named
  dense vector (1024, cosine), the ColBERT multivector (1024) and the IDF-weighted sparse
  vector; a collection created with the code's own configuration has an empty diff; and the
  comparison fails without a diff only on a collection with one unnamed vector.
\<close>

theorem schema_diff_correct:
  "(schema_diff p = Inr [] \<longleftrightarrow> schema_matches p) \<and> schema_diff expected_params = Inr [] \<and>
   ((\<exists>e. schema_diff p = Inl e) \<longleftrightarrow> (\<exists>v. cp_vectors p = SingleVector v))"
proof -
  have "(\<exists>e. schema_diff p = Inl e) \<longleftrightarrow> (\<exists>v. cp_vectors p = SingleVector v)"
    by (auto simp: schema_diff_def vector_named_def and_then_def Let_def
        split: vectors_field.splits sum.splits)
  then show ?thesis using schema_diff_Nil_iff schema_matches_expected by blast
qed

text \<open>The database is only read by the comparison, and every operation stays in it.\<close>

lemma frame_compare_schema [frame_intro]:
  "frame f (get_collection client n) \<Longrightarrow> frame f (compare_schema client n)"
  unfolding compare_schema_def by (intro frame_intro)

end
