(* ===== verification/VectorStore.thy ===== *)
theory VectorStore
  imports Collection
begin

text \<open>
  What the service relies on the vector database for, and what the collection operations
  promise the pipeline in turn. \<open>qdrant_api\<close> states the documented behaviour of the client
  calls, on success and on failure, over an observer \<open>view\<close> of the database state;
  \<open>chunk_store\<close> is the contract the upload and delete pipelines use. The \<open>sublocale\<close> proves
  that the code of \<open>Collection\<close> turns the first into the second.
\<close>

section \<open>Contents of the database\<close>

record coll =
  co_params :: collection_params
  co_indexes :: "string \<rightharpoonup> index_schema"
  co_points :: "string \<rightharpoonup> point"

text \<open>A condition on a list field holds if one element satisfies it; on a missing field it fails.\<close>

definition value_matches :: "field_match \<Rightarrow> json \<Rightarrow> bool" where
  "value_matches m v = (case m of MatchValue x \<Rightarrow> v = x | MatchAny xs \<Rightarrow> v \<in> set (map JStr xs))"

definition condition_holds :: "(string \<times> json) list \<Rightarrow> field_condition \<Rightarrow> bool" where
  "condition_holds payload c = (case lookup payload (fc_key c) of
      None \<Rightarrow> False
    | Some v \<Rightarrow> value_matches (fc_match c) v \<or>
        (case v of JList vs \<Rightarrow> list_ex (value_matches (fc_match c)) vs | _ \<Rightarrow> False))"

definition matches :: "qfilter \<Rightarrow> point \<Rightarrow> bool" where
  "matches f p = list_all (condition_holds (p_payload p)) f"

definition matching_ids :: "qfilter \<Rightarrow> coll \<Rightarrow> string set" where
  "matching_ids f co = {i. \<exists>p. co_points co i = Some p \<and> matches f p}"

definition empty_coll ::
  "(string \<times> vector_params) list \<Rightarrow> (string \<times> sparse_vector_params) list \<Rightarrow> coll" where
  "empty_coll v s = \<lparr>co_params = \<lparr>cp_vectors = NamedVectors v, cp_sparse = Some s\<rparr>,
     co_indexes = (\<lambda>_. None), co_points = (\<lambda>_. None)\<rparr>"

definition points_map :: "point list \<Rightarrow> string \<rightharpoonup> point" where
  "points_map ps = map_of (rev (map (\<lambda>p. (p_id p, p)) ps))"

text \<open>The point stored in a collection under an id.\<close>

definition stored_in :: "(string \<Rightarrow> coll option) \<Rightarrow> string \<Rightarrow> string \<Rightarrow> point option" where
  "stored_in v n i = (case v n of None \<Rightarrow> None | Some co \<Rightarrow> co_points co i)"

definition stored_by :: "('q \<Rightarrow> string \<Rightarrow> coll option) \<Rightarrow> 'q \<Rightarrow> string \<Rightarrow> string \<Rightarrow> point option" where
  "stored_by view q = stored_in (view q)"

definition of_doc :: "string \<Rightarrow> point \<Rightarrow> bool" where
  "of_doc d p = matches (doc_selector d) p"

lemma stored_in_upd [simp]:
  "stored_in (v(n \<mapsto> co)) m i = (if m = n then co_points co i else stored_in v m i)"
  by (simp add: stored_in_def)

lemma stored_in_Some: "v n = Some co \<Longrightarrow> stored_in v n i = co_points co i"
  by (simp add: stored_in_def)

lemma stored_in_None: "v n = None \<Longrightarrow> stored_in v n i = None"
  by (simp add: stored_in_def)

lemma of_doc_payload: "lookup (p_payload p) ''doc_id'' = Some (JStr d') \<Longrightarrow> of_doc d p \<longleftrightarrow> d = d'"
  by (auto simp: of_doc_def matches_def doc_selector_def condition_holds_def value_matches_def)

lemma points_map_Some: "points_map ps i = Some p \<Longrightarrow> p \<in> set ps \<and> p_id p = i"
  by (auto simp: points_map_def dest!: map_of_SomeD)

lemma points_map_distinct:
  "distinct (map p_id ps) \<Longrightarrow> p \<in> set ps \<Longrightarrow> points_map ps (p_id p) = Some p"
  unfolding points_map_def by (rule map_of_is_SomeI) (auto simp: rev_map [symmetric] comp_def)

lemma points_map_None: "points_map ps i = None \<longleftrightarrow> i \<notin> p_id ` set ps"
  by (auto simp: points_map_def map_of_eq_None_iff image_image)

section \<open>The contract of the pipelines\<close>

locale chunk_store =
  fixes create :: "string \<Rightarrow> string \<Rightarrow> ('q, string) prog"
    and delete :: "string \<Rightarrow> string \<Rightarrow> string \<Rightarrow> ('q, nat) prog"
    and upsert :: "string \<Rightarrow> point list \<Rightarrow> ('q, unit) prog"
    and stored :: "'q \<Rightarrow> string \<Rightarrow> string \<Rightarrow> point option"
  assumes create_stored: "create t b q = (r, q') \<Longrightarrow> stored q' = stored q"
    and create_name: "create t b q = (Inr n, q') \<Longrightarrow> collection_name t b = Inr n"
    and delete_stored: "delete t b d q = (rd, q') \<Longrightarrow>
      stored q' m i = stored q m i \<or>
      (collection_name t b = Inr m \<and> stored q' m i = None \<and>
       (\<exists>p. stored q m i = Some p \<and> of_doc d p))"
    and delete_gone: "delete t b d q = (Inr k, q') \<Longrightarrow> collection_name t b = Inr n \<Longrightarrow>
      stored q' n i = Some p \<Longrightarrow> \<not> of_doc d p"
    and upsert_stored: "upsert n ps q = (Inr u, q') \<Longrightarrow>
      stored q' m i = (if m = n then (case points_map ps i of None \<Rightarrow> stored q n i | Some p \<Rightarrow> Some p)
        else stored q m i)"
    and upsert_failed: "upsert n ps q = (Inl e, q') \<Longrightarrow>
      stored q' m i = stored q m i \<or> (m = n \<and> (\<exists>p \<in> set ps. p_id p = i \<and> stored q' m i = Some p))"
begin

text \<open>
  Deleting a document's chunks and writing new ones leaves exactly the new ones, and no
  other document's points change unless they share an id with a new one.
\<close>

lemma replace_points:
  assumes del: "delete t b d q = (Inr k, q1)" and name: "collection_name t b = Inr n"
    and ups: "upsert n ps q1 = (Inr u, q2)"
    and ps: "distinct (map p_id ps)" "\<And>p. p \<in> set ps \<Longrightarrow> of_doc d p"
  shows "{p. \<exists>i. stored q2 n i = Some p \<and> of_doc d p} = set ps"
proof (intro equalityI subsetI)
  fix p assume "p \<in> {p. \<exists>i. stored q2 n i = Some p \<and> of_doc d p}"
  then obtain i where i: "stored q2 n i = Some p" "of_doc d p" by blast
  show "p \<in> set ps"
  proof (cases "points_map ps i")
    case None
    with upsert_stored [OF ups, of n i] i(1) have "stored q1 n i = Some p" by simp
    from delete_gone [OF del name this] i(2) show ?thesis by simp
  next
    case (Some p')
    with upsert_stored [OF ups, of n i] i(1) have "p' = p" by simp
    with points_map_Some [OF Some] show ?thesis by simp
  qed
next
  fix p assume p: "p \<in> set ps"
  from upsert_stored [OF ups, of n "p_id p"] points_map_distinct [OF ps(1) p]
  have "stored q2 n (p_id p) = Some p" by simp
  with ps(2) [OF p] show "p \<in> {p. \<exists>i. stored q2 n i = Some p \<and> of_doc d p}" by blast
qed

lemma first_points:
  assumes new: "\<And>i p. stored q n i = Some p \<Longrightarrow> \<not> of_doc d p"
    and ups: "upsert n ps q = (Inr u, q2)"
    and ps: "distinct (map p_id ps)" "\<And>p. p \<in> set ps \<Longrightarrow> of_doc d p"
  shows "{p. \<exists>i. stored q2 n i = Some p \<and> of_doc d p} = set ps"
proof (intro equalityI subsetI)
  fix p assume "p \<in> {p. \<exists>i. stored q2 n i = Some p \<and> of_doc d p}"
  then obtain i where i: "stored q2 n i = Some p" "of_doc d p" by blast
  with upsert_stored [OF ups, of n i] new [of i p] points_map_Some [of ps i]
  show "p \<in> set ps" by (auto split: option.splits)
next
  fix p assume p: "p \<in> set ps"
  from upsert_stored [OF ups, of n "p_id p"] points_map_distinct [OF ps(1) p]
  have "stored q2 n (p_id p) = Some p" by simp
  with ps(2) [OF p] show "p \<in> {p. \<exists>i. stored q2 n i = Some p \<and> of_doc d p}" by blast
qed

lemma upsert_other:
  assumes "upsert n ps q = (r, q')" and "m \<noteq> n \<or> i \<notin> p_id ` set ps"
  shows "stored q' m i = stored q m i"
proof (cases r)
  case (Inl e)
  with assms upsert_failed [of n ps q e q' m i] show ?thesis by auto
next
  case (Inr u)
  with assms upsert_stored [of n ps q u q' m i] points_map_None [of ps i] show ?thesis by auto
qed

lemma delete_other:
  assumes "delete t b d q = (r, q')" and "\<And>p. stored q m i = Some p \<Longrightarrow> \<not> of_doc d p"
  shows "stored q' m i = stored q m i"
  using delete_stored [OF assms(1), of m i] assms(2) by auto

lemma delete_elsewhere:
  assumes "delete t b d q = (r, q')" and "collection_name t b \<noteq> Inr m"
  shows "stored q' m i = stored q m i"
  using delete_stored [OF assms(1), of m i] assms(2) by auto

end

section \<open>The documented behaviour of the client\<close>

locale qdrant_api =
  fixes client :: "'q client" and view :: "'q \<Rightarrow> string \<Rightarrow> coll option"
  assumes finite_points: "view q n = Some co \<Longrightarrow> finite (dom (co_points co))"
    and exists_law: "collection_exists client n q = (rb, q') \<Longrightarrow>
      view q' = view q \<and> (\<forall>b. rb = Inr b \<longrightarrow> b = (view q n \<noteq> None))"
    and get_law: "get_collection client n q = (rp, q') \<Longrightarrow>
      view q' = view q \<and> (\<forall>p. rp = Inr p \<longrightarrow> (\<exists>co. view q n = Some co \<and> p = co_params co))"
    and count_law: "count_points client n f q = (rk, q') \<Longrightarrow>
      view q' = view q \<and>
      (\<forall>k. rk = Inr k \<longrightarrow> (\<exists>co. view q n = Some co \<and> k = card (matching_ids f co)))"
    and create_law: "create_collection client n v s q = (ru, q') \<Longrightarrow>
      (view q n = None \<and> view q' = (view q)(n \<mapsto> empty_coll v s)) \<or>
      (view q' = view q \<and> (\<exists>e. ru = Inl e))"
    and index_law: "create_payload_index client n k sc q = (ru, q') \<Longrightarrow>
      (\<exists>co. view q n = Some co \<and>
         view q' = (view q)(n \<mapsto> co\<lparr>co_indexes := (co_indexes co)(k \<mapsto> sc)\<rparr>)) \<or>
      (view q' = view q \<and> (\<exists>e. ru = Inl e))"
    and delete_law: "delete_points client n f q = (ru, q') \<Longrightarrow>
      (view q' = view q \<and> (\<exists>e. ru = Inl e)) \<or>
      (\<exists>co D. view q n = Some co \<and> D \<subseteq> matching_ids f co \<and>
         view q' = (view q)(n \<mapsto> co\<lparr>co_points := (co_points co) |` (- D)\<rparr>) \<and>
         (ru = Inr () \<longrightarrow> D = matching_ids f co))"
    and upsert_law: "upsert_points client n ps q = (ru, q') \<Longrightarrow>
      (view q' = view q \<and> (\<exists>e. ru = Inl e)) \<or>
      (\<exists>co m. view q n = Some co \<and> m \<subseteq>\<^sub>m points_map ps \<and>
         view q' = (view q)(n \<mapsto> co\<lparr>co_points := co_points co ++ m\<rparr>) \<and>
         (ru = Inr () \<longrightarrow> m = points_map ps))"
    and drop_law: "delete_collection client n q = (ru, q') \<Longrightarrow>
      (view q' = view q \<and> (\<exists>e. ru = Inl e)) \<or> view q' = (view q)(n := None)"
    and query_law: "query_points client req q = (rs, q') \<Longrightarrow> view q' = view q"
    and ping_law: "get_collections client q = (r', q') \<Longrightarrow> view q' = view q"
begin

lemma frame_view_reads [frame_intro]:
  "frame view (collection_exists client n)" "frame view (get_collection client n)"
  "frame view (count_points client n f)" "frame view (query_points client rq)"
  by (auto intro!: frameI dest: exists_law get_law count_law query_law)

lemma frame_stored_view: "frame view m \<Longrightarrow> frame (stored_by view) m"
  by (simp add: frame_def stored_by_def)

lemma frame_stored_create [frame_intro]: "frame (stored_by view) (create_collection client n v s)"
  by (rule frameI)
    (auto dest!: create_law simp: stored_by_def stored_in_def fun_eq_iff empty_coll_def split: option.splits if_splits)

lemma frame_stored_index [frame_intro]: "frame (stored_by view) (create_payload_index client n k sc)"
  by (rule frameI)
    (auto dest!: index_law simp: stored_by_def stored_in_def fun_eq_iff split: option.splits if_splits)

lemma frame_stored_compare [frame_intro]: "frame (stored_by view) (compare_schema client n)"
  by (intro frame_intro frame_stored_view)

lemma frame_stored_exists [frame_intro]: "frame (stored_by view) (collection_exists client n)"
  by (intro frame_intro frame_stored_view)

lemma frame_stored_create_for_bot [frame_intro]: "frame (stored_by view) (create_collection_for_bot client t b)"
  unfolding create_collection_for_bot_def by (intro frame_intro) (auto intro: frame_intro split: prod.split)

lemma frame_stored_get_or_create: "frame (stored_by view) (get_or_create_collection client t b)"
  unfolding get_or_create_collection_def
  by (intro frame_intro) (auto split: exn.split intro!: frame_intro)

end

text \<open>
  What deletion by document may do to the stored points, what a collection with the locked
  schema is, and that a collection is there with given contents.
\<close>

definition pruned :: "('q \<Rightarrow> string \<Rightarrow> coll option) \<Rightarrow> string \<Rightarrow> string \<Rightarrow> string \<Rightarrow> 'q \<Rightarrow> 'q \<Rightarrow> bool" where
  "pruned view t b d q0 q \<longleftrightarrow> (\<forall>m i. stored_by view q m i = stored_by view q0 m i \<or>
     (collection_name t b = Inr m \<and> stored_by view q m i = None \<and>
      (\<exists>p. stored_by view q0 m i = Some p \<and> of_doc d p)))"

definition conforming :: "('q \<Rightarrow> string \<Rightarrow> coll option) \<Rightarrow> string \<Rightarrow> 'q \<Rightarrow> bool" where
  "conforming view n q \<longleftrightarrow> (\<exists>co. view q n = Some co \<and> schema_matches (co_params co))"

definition holds :: "('q \<Rightarrow> string \<Rightarrow> coll option) \<Rightarrow> string \<Rightarrow> coll \<Rightarrow> 'q \<Rightarrow> bool" where
  "holds view m co q \<longleftrightarrow> view q m = Some co"

section \<open>The collection code implements the contract\<close>

lemma create_collection_for_bot_name:
  "create_collection_for_bot client t b q = (Inr n, q') \<Longrightarrow> collection_name t b = Inr n"
proof -
  assume run: "create_collection_for_bot client t b q = (Inr n, q')"
  have "triple (\<lambda>_. True) (create_collection_for_bot client t b)
      (\<lambda>n _. collection_name t b = Inr n) (retry_error (\<lambda>_ _. True) 3)"
    unfolding create_collection_for_bot_def
    by (rule triple_retried, rule tripleI)
      (auto elim!: bind_io_InrE seq_io_InrE)
  from triple_InrD [OF this _ run] show ?thesis by simp
qed

lemma get_or_create_collection_name:
  "get_or_create_collection client t b q = (Inr n, q') \<Longrightarrow> collection_name t b = Inr n"
proof -
  assume run: "get_or_create_collection client t b q = (Inr n, q')"
  have "triple (\<lambda>_. True) (get_or_create_collection client t b)
      (\<lambda>n _. collection_name t b = Inr n) (retry_error (\<lambda>_ _. True) 3)"
    unfolding get_or_create_collection_def
    by (rule triple_retried, rule tripleI)
      (auto elim!: bind_io_InrE try_io_InrE dest!: create_collection_for_bot_name
        split: if_splits exn.splits)
  from triple_InrD [OF this _ run] show ?thesis by simp
qed

lemma delete_by_doc_id_bad_name:
  "collection_name t b = Inl e \<Longrightarrow> delete_by_doc_id client t b d q = (Inl e, q)"
  using collection_name_Inl [of t b e]
  by (auto simp: delete_by_doc_id_def retried_run)

context qdrant_api
begin

text \<open>Deletion by document only ever removes points of the document, even where it fails.\<close>

lemma delete_points_stored:
  assumes "delete_points client n (doc_selector d) q = (r, q')"
  shows "stored_by view q' m i = stored_by view q m i \<or>
    (m = n \<and> stored_by view q' m i = None \<and> (\<exists>p. stored_by view q m i = Some p \<and> of_doc d p))"
  using delete_law [OF assms]
proof (elim disjE exE conjE)
  fix co D
  assume "view q n = Some co" and "D \<subseteq> matching_ids (doc_selector d) co"
    and "view q' = (view q)(n \<mapsto> co\<lparr>co_points := co_points co |` (- D)\<rparr>)"
  then show ?thesis
    by (cases "i \<in> D") (auto simp: stored_by_def stored_in_Some matching_ids_def of_doc_def)
qed (simp add: stored_by_def)

lemma delete_points_gone:
  assumes "delete_points client n (doc_selector d) q = (Inr (), q')"
    and "stored_by view q' n i = Some p"
  shows "\<not> of_doc d p"
  using delete_law [OF assms(1)] assms(2)
  by (auto simp: stored_by_def restrict_map_def matching_ids_def of_doc_def split: if_splits)

lemma keeps_pruned_reads:
  "frame view m \<Longrightarrow> keeps (pruned view t b d q0) m"
  by (rule keeps_frame [where f = view and J = "\<lambda>v. \<forall>m i. stored_in v m i = stored_by view q0 m i \<or>
       (collection_name t b = Inr m \<and> stored_in v m i = None \<and>
        (\<exists>p. stored_by view q0 m i = Some p \<and> of_doc d p))"])
    (auto simp: pruned_def stored_by_def)

lemma keeps_pruned_delete:
  assumes "collection_name t b = Inr n"
  shows "keeps (pruned view t b d q0) (delete_points client n (doc_selector d))"
proof (rule keepsI)
  fix q r q' assume I: "pruned view t b d q0 q" and run: "delete_points client n (doc_selector d) q = (r, q')"
  show "pruned view t b d q0 q'"
    unfolding pruned_def
  proof (intro allI)
    fix m i
    from I have "stored_by view q m i = stored_by view q0 m i \<or>
       (collection_name t b = Inr m \<and> stored_by view q m i = None \<and>
        (\<exists>p. stored_by view q0 m i = Some p \<and> of_doc d p))" by (simp add: pruned_def)
    with delete_points_stored [OF run, of m i] assms
    show "stored_by view q' m i = stored_by view q0 m i \<or>
       (collection_name t b = Inr m \<and> stored_by view q' m i = None \<and>
        (\<exists>p. stored_by view q0 m i = Some p \<and> of_doc d p))" by auto
  qed
qed

lemma keeps_pruned: "keeps (pruned view t b d q0) (delete_by_doc_id client t b d)"
proof (cases "collection_name t b")
  case (Inl e)
  then show ?thesis by (intro keepsI) (simp add: delete_by_doc_id_bad_name)
next
  case (Inr n)
  show ?thesis
    unfolding delete_by_doc_id_def Inr of_sum_Inr bind_io_return
    by (intro keeps_intro keeps_pruned_reads frame_view_reads keeps_pruned_delete Inr)
qed

lemma absent_stored: "collection_exists client n q = (Inr False, q') \<Longrightarrow> stored_by view q' n i = None"
  using exists_law [of n q "Inr False" q'] by (auto simp: stored_by_def intro: stored_in_None)

lemma delete_by_doc_id_gone:
  assumes run: "delete_by_doc_id client t b d q = (Inr k, q')" and name: "collection_name t b = Inr n"
    and p: "stored_by view q' n i = Some p"
  shows "\<not> of_doc d p"
proof -
  let ?gone = "\<lambda>q. \<forall>i p. stored_by view q n i = Some p \<longrightarrow> \<not> of_doc d p"
  have gone: "?gone q'" if "delete_points client n (doc_selector d) q = (Inr (), q')" for q q'
    using delete_points_gone [OF that] by simp
  have absent: "?gone q'" if "collection_exists client n q = (Inr False, q')" for q q'
    using absent_stored [OF that] by simp
  have "triple (\<lambda>_. True) (delete_by_doc_id client t b d) (\<lambda>_. ?gone) (retry_error (\<lambda>_ _. True) 3)"
    unfolding delete_by_doc_id_def name of_sum_Inr bind_io_return
  proof (rule triple_retried, rule tripleI)
    fix s x t
    assume "bind_io (collection_exists client n) (\<lambda>there. if \<not> there then return_io 0
      else bind_io (count_points client n (doc_selector d)) (\<lambda>count_before.
        seq_io (delete_points client n (doc_selector d)) (return_io count_before))) s = (Inr x, t)"
    then show "?gone t"
      by (elim bind_io_InrE) (auto split: if_splits elim!: bind_io_InrE seq_io_InrE
          dest!: absent gone)
  qed simp_all
  from triple_InrD [OF this _ run] p show ?thesis by simp
qed

lemma upsert_points_stored:
  assumes "upsert_points client n ps q = (Inr u, q')"
  shows "stored_by view q' m i = (if m = n then (case points_map ps i of None \<Rightarrow> stored_by view q n i | Some p \<Rightarrow> Some p)
     else stored_by view q m i)"
  using upsert_law [OF assms]
  by (auto simp: stored_by_def stored_in_Some map_add_def split: option.split)

lemma upsert_points_failed:
  assumes "upsert_points client n ps q = (Inl e, q')"
  shows "stored_by view q' m i = stored_by view q m i \<or>
     (m = n \<and> (\<exists>p \<in> set ps. p_id p = i \<and> stored_by view q' m i = Some p))"
  using upsert_law [OF assms]
proof (elim disjE exE conjE)
  fix co ma
  assume co: "view q n = Some co" and ma: "ma \<subseteq>\<^sub>m points_map ps"
    and q': "view q' = (view q)(n \<mapsto> co\<lparr>co_points := co_points co ++ ma\<rparr>)"
  show ?thesis
  proof (cases "m = n \<and> ma i \<noteq> None")
    case True
    then obtain p where "ma i = Some p" by blast
    with ma have "points_map ps i = Some p" by (auto simp: map_le_def dom_def)
    with points_map_Some [OF this] True \<open>ma i = Some p\<close> show ?thesis
      by (auto simp: stored_by_def q' map_add_def)
  next
    case False
    then show ?thesis by (auto simp: stored_by_def stored_in_Some co q' map_add_def)
  qed
qed (simp add: stored_by_def)

end

sublocale qdrant_api \<subseteq> chunks: chunk_store "get_or_create_collection client" "delete_by_doc_id client"
    "upsert_points client" "stored_by view"
proof unfold_locales
  fix t b q and r :: "exn + string" and q'
  assume "get_or_create_collection client t b q = (r, q')"
  then show "stored_by view q' = stored_by view q"
    using frame_stored_get_or_create by (rule frameD [rotated])
next
  fix t b d q and r :: "exn + nat" and q' m i
  assume run: "delete_by_doc_id client t b d q = (r, q')"
  have "pruned view t b d q q" by (simp add: pruned_def)
  from keepsD [OF keeps_pruned this run]
  show "stored_by view q' m i = stored_by view q m i \<or>
      (collection_name t b = Inr m \<and> stored_by view q' m i = None \<and>
       (\<exists>p. stored_by view q m i = Some p \<and> of_doc d p))" by (simp add: pruned_def)
qed (fact get_or_create_collection_name delete_by_doc_id_gone upsert_points_stored upsert_points_failed)+

section \<open>Get-or-create\<close>

context qdrant_api
begin

lemmas is_chunk_store = chunks.chunk_store_axioms

lemma create_collection_conforming:
  "create_collection client n expected_vectors_config expected_sparse_vectors_config q = (Inr (), q')
    \<Longrightarrow> conforming view n q'"
  using create_law [of n expected_vectors_config expected_sparse_vectors_config q "Inr ()" q']
    schema_matches_expected
  by (auto simp: conforming_def empty_coll_def expected_params_def)

lemma keeps_conforming_index: "keeps (conforming view n) (create_payload_index client m k sc)"
  by (rule keepsI) (auto simp: conforming_def dest!: index_law split: if_splits)

lemma compare_schema_conforming: "compare_schema client n q = (Inr [], q') \<Longrightarrow> conforming view n q'"
  by (auto simp: compare_schema_def conforming_def schema_diff_Nil_iff elim!: bind_io_InrE
      dest!: get_law)

lemma create_collection_for_bot_conforming:
  assumes name: "collection_name t b = Inr n"
  shows "triple (\<lambda>_. True) (create_collection_for_bot client t b) (\<lambda>_. conforming view n)
    (retry_error (\<lambda>_ _. True) 3)"
  unfolding create_collection_for_bot_def name of_sum_Inr bind_io_return
proof (rule triple_retried)
  have loop: "keeps (conforming view n) (for_io PAYLOAD_INDEXES (\<lambda>(f, sc). create_payload_index client n f sc))"
    by (rule keeps_for) (simp add: case_prod_beta keeps_conforming_index)
  show "triple (\<lambda>_. True)
    (seq_io (create_collection client n expected_vectors_config expected_sparse_vectors_config)
      (seq_io (for_io PAYLOAD_INDEXES (\<lambda>(f, sc). create_payload_index client n f sc)) (return_io n)))
    (\<lambda>_. conforming view n) (\<lambda>_ _. True)"
    by (rule triple_seq [of _ _ "conforming view n"], rule tripleI)
      (auto intro: create_collection_conforming intro!: triple_seq triple_return
        triple_weaken [OF triple_keeps [OF loop]])
qed simp

lemma get_or_create_conforming:
  assumes run: "get_or_create_collection client t b q = (Inr n, q')"
  shows "conforming view n q'"
proof -
  from get_or_create_collection_name [OF run] have name: "collection_name t b = Inr n" .
  let ?check = "bind_io (compare_schema client n) (\<lambda>diff.
      if diff \<noteq> [] then raise_io (Qdrant (CollectionSchemaMismatchError n diff)) else return_io n)"
  have check: "conforming view n q'" if "?check q = (Inr x, q')" for q x q'
    using that by (auto elim!: bind_io_InrE intro: compare_schema_conforming split: if_splits)
  have "triple (\<lambda>_. True) (get_or_create_collection client t b) (\<lambda>_. conforming view n)
      (retry_error (\<lambda>_ _. True) 3)"
    unfolding get_or_create_collection_def name of_sum_Inr bind_io_return
  proof (rule triple_retried, rule triple_bind [where R = "\<lambda>_ _. True"], rule tripleI)
    fix there
    show "triple (\<lambda>_. True) (if there then ?check
        else try_io (create_collection_for_bot client t b) (\<lambda>exc. case exc of
          UnexpectedResponse status_code msg \<Rightarrow> if status_code = Some 409 then ?check
            else raise_io (Qdrant (QdrantOperationError (''create_collection failed: '' @ exn_text exc)))
        | _ \<Rightarrow> raise_io exc)) (\<lambda>_. conforming view n) (\<lambda>_ _. True)"
    proof (rule triple_if)
      show "triple (\<lambda>_. True) ?check (\<lambda>_. conforming view n) (\<lambda>_ _. True)"
        by (rule tripleI) (auto intro: check)
      then show "triple (\<lambda>_. True) (try_io (create_collection_for_bot client t b) (\<lambda>exc. case exc of
          UnexpectedResponse status_code msg \<Rightarrow> if status_code = Some 409 then ?check
            else raise_io (Qdrant (QdrantOperationError (''create_collection failed: '' @ exn_text exc)))
        | _ \<Rightarrow> raise_io exc)) (\<lambda>_. conforming view n) (\<lambda>_ _. True)"
        by (intro triple_try [where R = "\<lambda>_ _. True"]
            triple_weaken [OF create_collection_for_bot_conforming [OF name]])
          (auto split: exn.split intro: triple_raise)
    qed
  qed simp_all
  from triple_InrD [OF this _ run] show ?thesis by simp
qed

text \<open>A collection that is there is never created again, indexed or altered.\<close>

lemma keeps_holds_reads [keeps_intro]: "frame view x \<Longrightarrow> keeps (holds view m co) x"
  by (rule keeps_frame [where J = "\<lambda>v. v m = Some co"]) (auto simp: holds_def)

lemma keeps_holds_create_for_bot: "keeps (holds view m co) (create_collection_for_bot client t b)"
proof (cases "collection_name t b")
  case (Inl e)
  then show ?thesis
    unfolding create_collection_for_bot_def by (auto intro: keeps_intro)
next
  case (Inr n)
  let ?create = "create_collection client n expected_vectors_config expected_sparse_vectors_config"
  let ?indexes = "for_io PAYLOAD_INDEXES (\<lambda>(f, sc). create_payload_index client n f sc)"
  have create: "triple (holds view m co) ?create (\<lambda>_ q. holds view m co q \<and> m \<noteq> n) (\<lambda>_. holds view m co)"
    by (rule tripleI) (auto simp: holds_def dest!: create_law)
  have "keeps (\<lambda>q. holds view m co q \<and> m \<noteq> n) ?indexes"
    by (rule keeps_for, rule keepsI) (auto simp: holds_def dest!: index_law split: prod.splits)
  note indexes = triple_weaken [OF triple_keeps [OF this]]
  have "triple (holds view m co) (seq_io ?create (seq_io ?indexes (return_io n)))
      (\<lambda>_. holds view m co) (\<lambda>_. holds view m co)"
    by (rule triple_seq [OF create], rule triple_seq [where R = "holds view m co"], rule indexes)
      (auto intro: triple_return)
  then have "keeps (holds view m co) (seq_io ?create (seq_io ?indexes (return_io n)))"
    by (rule keeps_triple)
  then show ?thesis
    unfolding create_collection_for_bot_def Inr of_sum_Inr bind_io_return by (rule keeps_retried)
qed

lemma keeps_holds_get_or_create: "keeps (holds view m co) (get_or_create_collection client t b)"
  unfolding get_or_create_collection_def
  by (intro keeps_intro keeps_holds_create_for_bot frame_intro)
    (auto split: exn.split intro!: keeps_intro frame_intro)

end

text \<open>
  C19 (get-or-create). When it returns, the name is the bot's collection name and that
  collection exists with the locked schema; and, whatever happens, no stored point is lost
  or added anywhere and no collection that existed is changed at all.
\<close>

theorem get_or_create_collection_correct:
  assumes api: "qdrant_api client view" and run: "get_or_create_collection client t b q = (r, q')"
  shows "(\<forall>n. r = Inr n \<longrightarrow> collection_name t b = Inr n \<and>
       (\<exists>co. view q' n = Some co \<and> schema_diff (co_params co) = Inr [])) \<and>
     stored_by view q' = stored_by view q \<and>
     (\<forall>m co. view q m = Some co \<longrightarrow> view q' m = Some co)"
  using run qdrant_api.get_or_create_conforming [OF api, of t b q _ q']
    get_or_create_collection_name [of client t b q _ q']
    chunk_store.create_stored [OF qdrant_api.is_chunk_store [OF api] run]
    keepsD [OF qdrant_api.keeps_holds_get_or_create [OF api] _ run]
  by (auto simp: conforming_def holds_def schema_diff_Nil_iff)

end
