(* ===== verification/Search.thy ===== *)
theory Search
  imports VectorStore
begin

text \<open>
  Hybrid search, \<^verbatim>\<open>apps/qdrant_core/search.py\<close>: the filter, the prefetches that emulate the
  3:1 weighted rank fusion, the rerank query, and the result dict. The metrics recorded
  after a query are modelled in \<open>Metrics\<close>; recording them never fails a search.
\<close>

section \<open>The code\<close>

definition DEFAULT_TOP_K :: int where "DEFAULT_TOP_K = 5"
definition MAX_TOP_K :: int where "MAX_TOP_K = 20"
definition SCORE_THRESHOLD :: rat where "SCORE_THRESHOLD = 0"
definition PREFETCH_LIMIT :: nat where "PREFETCH_LIMIT = 50"
definition FUSION_LIMIT :: nat where "FUSION_LIMIT = 100"
definition RRF_DENSE_WEIGHT :: nat where "RRF_DENSE_WEIGHT = 3"
definition RRF_SPARSE_WEIGHT :: nat where "RRF_SPARSE_WEIGHT = 1"

text \<open>\<open>if xs:\<close> of an optional list or string: present and not empty.\<close>

definition truthy :: "'a list option \<Rightarrow> bool" where
  "truthy x = (case x of None \<Rightarrow> False | Some xs \<Rightarrow> xs \<noteq> [])"

definition build_filter :: "string list option \<Rightarrow> string list option \<Rightarrow> string option \<Rightarrow> qfilter" where
  "build_filter source_types tags category =
     [\<lparr>fc_key = ''is_active'', fc_match = MatchValue (JBool True)\<rparr>] @
     (if truthy source_types
      then [\<lparr>fc_key = ''source_type'', fc_match = MatchAny (the source_types)\<rparr>] else []) @
     (if truthy tags then [\<lparr>fc_key = ''tags'', fc_match = MatchAny (the tags)\<rparr>] else []) @
     (if truthy category
      then [\<lparr>fc_key = ''category'', fc_match = MatchValue (JStr (the category))\<rparr>] else [])"

definition build_inner_prefetches :: "rat list \<Rightarrow> sparse_vector \<Rightarrow> qfilter \<Rightarrow> prefetch list" where
  "build_inner_prefetches dense_vec sparse_qd qf =
     map (\<lambda>_. Prefetch [] (DenseQuery dense_vec) (Some DENSE_VECTOR_NAME) PREFETCH_LIMIT (Some qf))
       [0..<RRF_DENSE_WEIGHT] @
     map (\<lambda>_. Prefetch [] (SparseQuery sparse_qd) (Some SPARSE_VECTOR_NAME) PREFETCH_LIMIT (Some qf))
       [0..<RRF_SPARSE_WEIGHT]"

record search_result =
  sr_chunks :: "(string \<times> json) list list"
  sr_total_candidates :: nat
  sr_threshold_used :: rat

text \<open>\<open>d[k] = v\<close>: a key that is there keeps its place.\<close>

fun dict_set :: "string \<Rightarrow> 'a \<Rightarrow> (string \<times> 'a) list \<Rightarrow> (string \<times> 'a) list" where
  "dict_set k v [] = [(k, v)]"
| "dict_set k v ((k', v') # d) = (if k' = k then (k, v) # d else (k', v') # dict_set k v d)"

definition result_chunk :: "scored_point \<Rightarrow> (string \<times> json) list" where
  "result_chunk p = dict_set ''score'' (JFloat (sc_score p))
     (case sc_payload p of None \<Rightarrow> [] | Some d \<Rightarrow> d)"

definition rerank_request ::
  "string \<Rightarrow> prefetch list \<Rightarrow> rat list list \<Rightarrow> qfilter \<Rightarrow> int \<Rightarrow> query_request" where
  "rerank_request collection pre colbert_vec qf top_k =
     \<lparr>qr_collection = collection, qr_prefetch = pre, qr_query = colbert_vec,
      qr_using = COLBERT_VECTOR_NAME, qr_limit = top_k, qr_score_threshold = SCORE_THRESHOLD,
      qr_with_payload = True, qr_with_vectors = False, qr_filter = qf\<rparr>"

definition execute_query ::
  "'q client \<Rightarrow> string \<Rightarrow> prefetch list \<Rightarrow> rat list list \<Rightarrow> qfilter \<Rightarrow> int \<Rightarrow> ('q, search_result) prog" where
  "execute_query client collection pre colbert_vec qf top_k = retried (
     bind_io (query_points client (rerank_request collection pre colbert_vec qf top_k)) (\<lambda>points.
     return_io \<lparr>sr_chunks = map result_chunk points, sr_total_candidates = length points,
       sr_threshold_used = SCORE_THRESHOLD\<rparr>))"

definition search ::
  "'q client \<Rightarrow> (string list \<Rightarrow> exn + embeddings) \<Rightarrow> string \<Rightarrow> string \<Rightarrow> string \<Rightarrow> int \<Rightarrow>
     string list option \<Rightarrow> string list option \<Rightarrow> string option \<Rightarrow> ('q, search_result) prog" where
  "search client encode tenant_id bot_id text top_k source_types tags category =
     bind_io (of_sum (collection_name tenant_id bot_id)) (\<lambda>name.
     bind_io (collection_exists client name) (\<lambda>there.
     if \<not> there then raise_io (Qdrant (CollectionNotFoundError
       (''Collection '' @ py_repr name @ '' does not exist.'')))
     else
       bind_io (of_sum (embed_query encode text)) (\<lambda>emb.
       bind_io (of_sum (sparse_to_qdrant (q_sparse emb))) (\<lambda>sparse_qd.
       let colbert_vec = colbert_to_qdrant (q_colbert emb);
           qf = build_filter source_types tags category;
           inner_prefetches = build_inner_prefetches (q_dense emb) sparse_qd qf;
           fusion_node = Prefetch inner_prefetches FusionRRF None FUSION_LIMIT None
       in execute_query client name [fusion_node] colbert_vec qf top_k))))"

section \<open>Lemmas\<close>

lemma lookup_dict_set [simp]: "lookup (dict_set k v d) k' = (if k' = k then Some v else lookup d k')"
  by (induction k v d rule: dict_set.induct) auto

lemma length_build_inner_prefetches: "length (build_inner_prefetches d s f) = 4"
  by (simp add: build_inner_prefetches_def RRF_DENSE_WEIGHT_def RRF_SPARSE_WEIGHT_def)

lemma truthy_iff: "truthy x \<longleftrightarrow> (\<exists>y ys. x = Some (y # ys))"
  by (cases x) (auto simp: truthy_def neq_Nil_conv)

context qdrant_api
begin

text \<open>A search never changes the database, whether it returns or raises.\<close>

lemma frame_view_search: "frame view (search client encode t b text k st tg c)"
  unfolding search_def execute_query_def Let_def
  by (intro frame_intro)

end

section \<open>Rank fusion\<close>

text \<open>
  Reciprocal rank fusion of input lists: a candidate at rank \<open>r\<close> of a list contributes
  \<open>1 / (k + r)\<close>; \<open>rank\<close> gives its rank in the list a prefetch returns, if it is there. Equal
  prefetches return equal lists.
\<close>

definition rrf_score :: "nat \<Rightarrow> (prefetch \<Rightarrow> nat option) \<Rightarrow> prefetch list \<Rightarrow> rat" where
  "rrf_score k rank pre = sum_list (map (\<lambda>p. case rank p of None \<Rightarrow> 0 | Some r \<Rightarrow> 1 / of_nat (k + r)) pre)"

text \<open>
  Weighted fusion. Fusing the code's four prefetches by plain RRF scores a candidate of
  dense rank \<open>rd\<close> and sparse rank \<open>rs\<close> exactly \<open>3 / (k + rd) + 1 / (k + rs)\<close>, the weighted
  fusion the service specifies; a candidate missing from one list keeps the other term.
\<close>

theorem build_inner_prefetches_weighted:
  "\<exists>dense_list sparse_list. pf_using dense_list = Some DENSE_VECTOR_NAME \<and>
     pf_using sparse_list = Some SPARSE_VECTOR_NAME \<and>
     set (build_inner_prefetches d s f) = {dense_list, sparse_list} \<and>
     (\<forall>k rank. rrf_score k rank (build_inner_prefetches d s f) =
       (case rank dense_list of None \<Rightarrow> 0 | Some rd \<Rightarrow> 3 / of_nat (k + rd)) +
       (case rank sparse_list of None \<Rightarrow> 0 | Some rs \<Rightarrow> 1 / of_nat (k + rs)))"
proof (intro exI conjI)
  let ?d = "Prefetch [] (DenseQuery d) (Some DENSE_VECTOR_NAME) PREFETCH_LIMIT (Some f)"
  let ?s = "Prefetch [] (SparseQuery s) (Some SPARSE_VECTOR_NAME) PREFETCH_LIMIT (Some f)"
  have list: "build_inner_prefetches d s f = [?d, ?d, ?d, ?s]"
    by (simp add: build_inner_prefetches_def RRF_DENSE_WEIGHT_def RRF_SPARSE_WEIGHT_def upt_rec)
  show "pf_using ?d = Some DENSE_VECTOR_NAME" and "pf_using ?s = Some SPARSE_VECTOR_NAME" by simp_all
  show "set (build_inner_prefetches d s f) = {?d, ?s}" by (simp add: list)
  show "\<forall>k rank. rrf_score k rank (build_inner_prefetches d s f) =
      (case rank ?d of None \<Rightarrow> 0 | Some rd \<Rightarrow> 3 / of_nat (k + rd)) +
      (case rank ?s of None \<Rightarrow> 0 | Some rs \<Rightarrow> 1 / of_nat (k + rs))"
    by (auto simp: list rrf_score_def split: option.split)
qed

section \<open>The filter on uploaded chunks\<close>

lemma matches_append: "matches (f @ g) p \<longleftrightarrow> matches f p \<and> matches g p"
  by (simp add: matches_def)

text \<open>
  C40 (the search filter). A chunk as the upload code writes it passes the filter exactly
  when no source types are asked for or its own is one of them, and neither tags nor a
  category is asked for: payloads have neither field, so a request with \<open>tags\<close> or
  \<open>category\<close> finds nothing.
\<close>

theorem build_filter_on_uploads:
  "p_payload p = build_payload c t b d item source now \<Longrightarrow>
     matches (build_filter source_types tags category) p \<longleftrightarrow>
       (truthy source_types \<longrightarrow> src_type source \<in> set (the source_types)) \<and>
       \<not> truthy tags \<and> \<not> truthy category"
  by (auto simp: matches_def build_filter_def condition_holds_def value_matches_def
      build_payload_no_key payload_keys_def)

theorem build_filter_on_uploads_witness:
  "let source = \<lparr>src_type = ''pdf'', src_filename = None, src_url = None, src_content_hash = ''h''\<rparr>;
       p = \<lparr>p_id = ''i'', p_dense = [], p_bm25 = \<lparr>indices = [], sparse_values = []\<rparr>, p_colbert = [],
         p_payload = build_payload \<lparr>c_text = ''x'', c_index = 0, c_chars = 1, c_tokens = 1\<rparr> ''acme'' ''bot'' ''d''
           \<lparr>si_item_index = 0, si_section_path = [], si_page_number = None\<rparr> source ''now''\<rparr>
   in matches (build_filter (Some [''pdf'', ''url'']) None None) p \<and>
      \<not> matches (build_filter None (Some [''x'']) None) p"
proof -
  let ?source = "\<lparr>src_type = ''pdf'', src_filename = None, src_url = None, src_content_hash = ''h''\<rparr> :: scraped_source"
  let ?p = "\<lparr>p_id = ''i'', p_dense = [], p_bm25 = \<lparr>indices = [], sparse_values = []\<rparr>, p_colbert = [],
    p_payload = build_payload \<lparr>c_text = ''x'', c_index = 0, c_chars = 1, c_tokens = 1\<rparr> ''acme'' ''bot'' ''d''
      \<lparr>si_item_index = 0, si_section_path = [], si_page_number = None\<rparr> ?source ''now''\<rparr> :: point"
  have "matches (build_filter st tg c) ?p \<longleftrightarrow>
      (truthy st \<longrightarrow> src_type ?source \<in> set (the st)) \<and> \<not> truthy tg \<and> \<not> truthy c" for st tg c
    by (rule build_filter_on_uploads) simp
  then show ?thesis by (simp add: truthy_def)
qed

end
