(* ===== verification/World.thy ===== *)
theory World
  imports Tables Search
begin

text \<open>
  The state a request runs in and the environment it runs against. The state \<open>world\<close> holds
  the tables, the vector database, the advisory locks this database session holds, the
  clock, the context variables of the request, the phase timings, the metrics and the access
  log. The environment \<open>env\<close> holds what is not in the repository: the hash functions, the
  splitter, the tokenizer, the model, the Qdrant client, and what other sessions and the
  operating system answer, by the number of the question (\<open>w_tick\<close>).

  The clock counts nanoseconds. Reading it or sleeping lets the environment's \<open>e_elapse\<close>
  pass, so it never goes back and a sleep lasts at least as long as asked, as
  \<open>time.monotonic\<close> and \<open>time.sleep\<close> document.
\<close>

section \<open>State and environment\<close>

record request_context =
  cx_request_id :: "string option"
  cx_tenant_id :: "string option"
  cx_bot_id :: "string option"
  cx_doc_id :: "string option"

record access_entry =
  ae_method :: string
  ae_path :: string
  ae_status_code :: int
  ae_duration_ms :: rat
  ae_phases :: "(string \<times> rat) list"
  ae_tenant_id :: "string option"
  ae_bot_id :: "string option"
  ae_doc_id :: "string option"

datatype metric =
    Inc string "(string \<times> string) list"
  | Observe string "(string \<times> string) list" rat
  | SetGauge string rat

record 'q world =
  w_db :: database
  w_store :: 'q
  w_locks :: "(int \<times> int) list"
  w_clock :: nat
  w_tick :: nat
  w_context :: request_context
  w_phases :: "(string \<times> rat) list option"
  w_metrics :: "metric list"
  w_access_log :: "access_entry list"

record 'q env =
  e_sha256 :: "byte list \<Rightarrow> byte list"
  e_uuid5_oid :: "string \<Rightarrow> string"
  e_uuid4 :: "nat \<Rightarrow> string"
  e_elapse :: "nat \<Rightarrow> nat"
  e_wall :: "nat \<Rightarrow> nat"
  e_utc_iso :: "nat \<Rightarrow> string"
  e_lock_free :: "nat \<Rightarrow> int \<times> int \<Rightarrow> bool"
  e_split :: "nat \<Rightarrow> nat \<Rightarrow> string \<Rightarrow> string list"
  e_tokenize :: "string \<Rightarrow> int list"
  e_encode :: "nat \<Rightarrow> string list \<Rightarrow> exn + embeddings"
  e_client :: "'q client"

type_synonym ('q, 'a) action = "('q world, 'a) prog"

section \<open>Asking the environment\<close>

definition tick :: "(nat \<Rightarrow> 'a) \<Rightarrow> ('q, 'a) action" where
  "tick f = (\<lambda>w. (Inr (f (w_tick w)), w\<lparr>w_tick := Suc (w_tick w)\<rparr>))"

text \<open>\<open>time.monotonic()\<close>, in seconds, and \<open>time.sleep\<close> of a number of milliseconds.\<close>

definition seconds :: "nat \<Rightarrow> rat" where
  "seconds ns = of_nat ns / 1000000000"

definition pass_time :: "'q env \<Rightarrow> nat \<Rightarrow> 'q world \<Rightarrow> 'q world" where
  "pass_time env ns w = w\<lparr>w_clock := w_clock w + ns + e_elapse env (w_tick w), w_tick := Suc (w_tick w)\<rparr>"

definition monotonic :: "'q env \<Rightarrow> ('q, rat) action" where
  "monotonic env = (\<lambda>w. let w' = pass_time env 0 w in (Inr (seconds (w_clock w')), w'))"

definition sleep_ms :: "'q env \<Rightarrow> nat \<Rightarrow> ('q, unit) action" where
  "sleep_ms env ms = (\<lambda>w. (Inr (), pass_time env (ms * 1000000) w))"

text \<open>A call of the vector database, a statement on the tables, the model.\<close>

definition on_store :: "('q, 'a) prog \<Rightarrow> ('q, 'a) action" where
  "on_store = on_part w_store (\<lambda>q w. w\<lparr>w_store := q\<rparr>)"

definition on_db :: "'a statement \<Rightarrow> ('q, 'a) action" where
  "on_db = on_part w_db (\<lambda>db w. w\<lparr>w_db := db\<rparr>)"

definition wall_clock :: "'q env \<Rightarrow> ('q, nat) action" where
  "wall_clock env = tick (e_wall env)"

definition embed_batch :: "'q env \<Rightarrow> string list \<Rightarrow> ('q, embeddings) action" where
  "embed_batch env texts = bind_io (tick (e_encode env)) (\<lambda>encode. of_sum (embed_passages encode texts))"

section \<open>What each leaves alone\<close>

text \<open>The rest of the world, without clock and ticks.\<close>

definition settled :: "'q world \<Rightarrow> database \<times> 'q \<times> (int \<times> int) list" where
  "settled w = (w_db w, w_store w, w_locks w)"

lemma settled_simps [simp]:
  "settled (w\<lparr>w_clock := c\<rparr>) = settled w" "settled (w\<lparr>w_tick := k\<rparr>) = settled w"
  "settled (w\<lparr>w_phases := ph\<rparr>) = settled w" "settled (w\<lparr>w_context := cx\<rparr>) = settled w"
  "settled (w\<lparr>w_metrics := ms\<rparr>) = settled w" "settled (w\<lparr>w_access_log := al\<rparr>) = settled w"
  by (simp_all add: settled_def)

lemma settled_eq: "settled w' = settled w \<longleftrightarrow> w_db w' = w_db w \<and> w_store w' = w_store w \<and> w_locks w' = w_locks w"
  by (auto simp: settled_def)

lemma pass_time_simps [simp]:
  "w_db (pass_time env n w) = w_db w" "w_store (pass_time env n w) = w_store w"
  "w_locks (pass_time env n w) = w_locks w" "w_context (pass_time env n w) = w_context w"
  "w_phases (pass_time env n w) = w_phases w" "w_metrics (pass_time env n w) = w_metrics w"
  "w_access_log (pass_time env n w) = w_access_log w"
  "settled (pass_time env n w) = settled w"
  "w_clock (pass_time env n w) = w_clock w + n + e_elapse env (w_tick w)"
  "w_tick (pass_time env n w) = Suc (w_tick w)"
  by (simp_all add: pass_time_def settled_def)

lemma tick_run [io_run, simp]: "tick f w = (Inr (f (w_tick w)), w\<lparr>w_tick := Suc (w_tick w)\<rparr>)"
  by (simp add: tick_def)

lemma monotonic_run [io_run, simp]:
  "monotonic env w = (Inr (seconds (w_clock (pass_time env 0 w))), pass_time env 0 w)"
  by (simp add: monotonic_def Let_def)

lemma sleep_ms_run [io_run, simp]: "sleep_ms env ms w = (Inr (), pass_time env (ms * 1000000) w)"
  by (simp add: sleep_ms_def)

lemma frame_tick [frame_intro]: "(\<And>w. f (w\<lparr>w_tick := Suc (w_tick w)\<rparr>) = f w) \<Longrightarrow> frame f (tick g)"
  by (simp add: frame_def)

lemma frame_monotonic [frame_intro]: "(\<And>w. f (pass_time env 0 w) = f w) \<Longrightarrow> frame f (monotonic env)"
  by (simp add: frame_def)

lemma frame_wall_clock [frame_intro]:
  "(\<And>w. f (w\<lparr>w_tick := Suc (w_tick w)\<rparr>) = f w) \<Longrightarrow> frame f (wall_clock env)"
  unfolding wall_clock_def by (rule frame_tick)

lemma frame_embed_batch [frame_intro]:
  "(\<And>w. f (w\<lparr>w_tick := Suc (w_tick w)\<rparr>) = f w) \<Longrightarrow> frame f (embed_batch env texts)"
  unfolding embed_batch_def by (intro frame_intro)

lemma frame_on_store [frame_intro]: "(\<And>q w. f (w\<lparr>w_store := q\<rparr>) = f w) \<Longrightarrow> frame f (on_store m)"
  unfolding on_store_def by (rule frame_on_part)

lemma frame_on_db [frame_intro]: "(\<And>db w. f (w\<lparr>w_db := db\<rparr>) = f w) \<Longrightarrow> frame f (on_db m)"
  unfolding on_db_def by (rule frame_on_part)

lemma frame_store_part: "frame g m \<Longrightarrow> frame (\<lambda>w. g (w_store w)) (on_store m)"
  by (auto simp: frame_def on_store_def on_part_def split: prod.splits) (metis snd_conv)?

lemma frame_db_part: "frame g m \<Longrightarrow> frame (\<lambda>w. g (w_db w)) (on_db m)"
  by (auto simp: frame_def on_db_def on_part_def split: prod.splits) (metis snd_conv)?

lemma keeps_db_part: "keeps I m \<Longrightarrow> keeps (\<lambda>w. I (w_db w)) (on_db m)"
  by (auto simp: keeps_def on_db_def on_part_def split: prod.splits) (metis snd_conv)?

lemma on_storeE:
  assumes "on_store m w = (r, w')"
  obtains q where "m (w_store w) = (r, q)" and "w' = w\<lparr>w_store := q\<rparr>"
  using assms unfolding on_store_def by (rule on_partE)

lemma on_dbE:
  assumes "on_db m w = (r, w')"
  obtains db where "m (w_db w) = (r, db)" and "w' = w\<lparr>w_db := db\<rparr>"
  using assms unfolding on_db_def by (rule on_partE)

lemma seconds_mono: "seconds m \<le> seconds n \<longleftrightarrow> m \<le> n"
  by (simp add: seconds_def divide_le_cancel)

lemma seconds_add: "seconds (m + n) = seconds m + seconds n"
  by (simp add: seconds_def add_divide_distrib)

end
