(* ===== verification/Locks.thy ===== *)
theory Locks
  imports World
begin

text \<open>
  Serialising the work on one document, \<^verbatim>\<open>apps/ingestion/locks.py\<close>: a Postgres advisory lock
  tried every 50 ms until it is granted or five seconds are over, held around the body and
  released whatever the body does. Whether another session holds the lock is the
  environment's answer, \<open>e_lock_free\<close>. \<open>exclusive_section\<close> is the contract the pipelines use.
\<close>

section \<open>The contract\<close>

locale exclusive_section =
  fixes guard :: "('w, 'a) prog \<Rightarrow> ('w, 'a) prog"
    and idle :: "'w \<Rightarrow> 'w \<Rightarrow> bool" and enter :: "'w \<Rightarrow> 'w" and leave :: "'w \<Rightarrow> 'w"
    and refusal :: "exn \<Rightarrow> bool"
  assumes guard_cases: "guard body w = (r, w') \<Longrightarrow>
      (\<exists>e. r = Inl e \<and> refusal e \<and> idle w w') \<or>
      (\<exists>w1 w2. idle w w1 \<and> body (enter w1) = (r, w2) \<and> w' = leave w2)"
begin

text \<open>What the body guarantees inside the section, the section guarantees outside.\<close>

lemma triple_guard:
  assumes body: "triple P body Q E"
    and enter: "\<And>w w1. I w \<Longrightarrow> idle w w1 \<Longrightarrow> P (enter w1)"
    and leave: "\<And>x w. Q x w \<Longrightarrow> Q' x (leave w)" "\<And>e w. E e w \<Longrightarrow> E' e (leave w)"
    and refused: "\<And>e w w1. I w \<Longrightarrow> idle w w1 \<Longrightarrow> refusal e \<Longrightarrow> E' e w1"
  shows "triple I (guard body) Q' E'"
proof (rule tripleI)
  fix w x w' assume "I w" and "guard body w = (Inr x, w')"
  with guard_cases [of body w "Inr x" w'] obtain w1 w2
    where "idle w w1" "body (enter w1) = (Inr x, w2)" "w' = leave w2" by auto
  with triple_InrD [OF body enter] leave(1) \<open>I w\<close> show "Q' x w'" by blast
next
  fix w e w' assume I: "I w" and "guard body w = (Inl e, w')"
  from guard_cases [OF this(2)] show "E' e w'"
  proof (elim disjE exE conjE)
    fix f assume "Inl e = Inl f" "refusal f" "idle w w'"
    with refused [OF I] show ?thesis by simp
  next
    fix w1 w2 assume "idle w w1" "body (enter w1) = (Inl e, w2)" "w' = leave w2"
    with triple_InlD [OF body enter] leave(2) I show ?thesis by blast
  qed
qed

lemma keeps_guard:
  assumes "keeps J body" and "\<And>w w1. I w \<Longrightarrow> idle w w1 \<Longrightarrow> J (enter w1)" and "\<And>w. J w \<Longrightarrow> I (leave w)"
    and "\<And>w w1. I w \<Longrightarrow> idle w w1 \<Longrightarrow> I w1"
  shows "keeps I (guard body)"
  by (rule keeps_triple, rule triple_guard [OF triple_keeps [OF assms(1)]]) (use assms(2-4) in blast)+

lemma frame_guard:
  assumes "frame f body" and "\<And>w w1. idle w w1 \<Longrightarrow> f (enter w1) = f w \<and> f w1 = f w"
    and "\<And>w. f (leave w) = f w"
  shows "frame f (guard body)"
proof (rule frameI)
  fix w r w' assume "guard body w = (r, w')"
  from guard_cases [OF this] assms(2,3) show "f w' = f w"
    using frameD [OF assms(1)] by metis
qed

end

section \<open>The code\<close>

definition DEFAULT_ACQUIRE_TIMEOUT_S :: rat where "DEFAULT_ACQUIRE_TIMEOUT_S = 5"
definition POLL_INTERVAL_MS :: nat where "POLL_INTERVAL_MS = 50"

definition try_advisory_lock :: "'q env \<Rightarrow> int \<times> int \<Rightarrow> ('q, bool) action" where
  "try_advisory_lock env key = bind_io (tick (e_lock_free env)) (\<lambda>free.
     if free key then seq_io (modify_io (\<lambda>w. w\<lparr>w_locks := key # w_locks w\<rparr>)) (return_io True)
     else return_io False)"

definition advisory_unlock :: "int \<times> int \<Rightarrow> ('q, unit) action" where
  "advisory_unlock key = modify_io (\<lambda>w. w\<lparr>w_locks := remove1 key (w_locks w)\<rparr>)"

text \<open>The \<open>while True\<close> loop: \<open>True\<close> when the lock was granted, \<open>False\<close> at the deadline.\<close>

function poll_lock :: "'q env \<Rightarrow> int \<times> int \<Rightarrow> rat \<Rightarrow> ('q, bool) action" where
  "poll_lock env key deadline w = (case try_advisory_lock env key w of
      (Inr got, w1) \<Rightarrow> if got then (Inr True, w1)
        else (case monotonic env w1 of
          (Inr now, w2) \<Rightarrow> if deadline \<le> now then (Inr False, w2)
            else poll_lock env key deadline (snd (sleep_ms env POLL_INTERVAL_MS w2))
        | (Inl e, w2) \<Rightarrow> (Inl e, w2))
    | (Inl e, w1) \<Rightarrow> (Inl e, w1))"
  by pat_completeness auto

definition lock_timeout_error :: "string \<Rightarrow> string \<Rightarrow> string \<Rightarrow> exn" where
  "lock_timeout_error tenant_id bot_id doc_id = Upload (ConcurrentUploadError
     (''Could not acquire lock for '' @ tenant_id @ ''/'' @ bot_id @ ''/'' @ doc_id @ '' within 5.0s'')
     (floor DEFAULT_ACQUIRE_TIMEOUT_S)
     [(''tenant_id'', JStr tenant_id), (''bot_id'', JStr bot_id), (''doc_id'', JStr doc_id)])"

definition upload_lock ::
  "'q env \<Rightarrow> string \<Rightarrow> string \<Rightarrow> string \<Rightarrow> ('q, 'a) action \<Rightarrow> ('q, 'a) action" where
  "upload_lock env tenant_id bot_id doc_id body =
     bind_io (of_sum (advisory_lock_key (e_sha256 env) tenant_id bot_id doc_id)) (\<lambda>key.
     bind_io (monotonic env) (\<lambda>started.
     bind_io (poll_lock env key (started + DEFAULT_ACQUIRE_TIMEOUT_S)) (\<lambda>got.
     if \<not> got then raise_io (lock_timeout_error tenant_id bot_id doc_id)
     else finally_io body (advisory_unlock key))))"

section \<open>The loop ends\<close>

text \<open>Rounds left until the deadline: a round sleeps for a twentieth of a second.\<close>

definition rounds_left :: "rat \<Rightarrow> nat \<Rightarrow> nat" where
  "rounds_left deadline clock = nat \<lceil>(deadline - seconds clock) * 20\<rceil>"

lemma rounds_left_decreases:
  assumes "seconds c < deadline" and "c0 \<le> c" and "c + 50000000 \<le> c'"
  shows "rounds_left deadline c' < rounds_left deadline c0"
proof -
  have "seconds c + 1 / 20 \<le> seconds c'"
    using assms(3) seconds_mono [of "c + 50000000" c'] by (simp add: seconds_add seconds_def)
  moreover have "seconds c0 \<le> seconds c" using assms(2) by (simp add: seconds_mono)
  ultimately have "(deadline - seconds c') * 20 \<le> (deadline - seconds c0) * 20 - 1" by simp
  then have "\<lceil>(deadline - seconds c') * 20\<rceil> \<le> \<lceil>(deadline - seconds c0) * 20\<rceil> - 1"
    by (metis ceiling_diff_one ceiling_mono)
  moreover have "0 < \<lceil>(deadline - seconds c0) * 20\<rceil>"
    using assms(1) \<open>seconds c0 \<le> seconds c\<close> by simp
  ultimately show ?thesis by (simp add: rounds_left_def)
qed

lemma try_advisory_lock_run [io_run]:
  "try_advisory_lock env key w = (if e_lock_free env (w_tick w) key
     then (Inr True, w\<lparr>w_tick := Suc (w_tick w), w_locks := key # w_locks w\<rparr>)
     else (Inr False, w\<lparr>w_tick := Suc (w_tick w)\<rparr>))"
  by (simp add: try_advisory_lock_def bind_io_def)

termination poll_lock
  by (relation "measure (\<lambda>(env, key, deadline, w). rounds_left deadline (w_clock w))")
    (auto simp: try_advisory_lock_run POLL_INTERVAL_MS_def not_le split: if_splits
      intro!: rounds_left_decreases)

lemma poll_lock_run:
  "poll_lock env key deadline w = (
     if e_lock_free env (w_tick w) key
     then (Inr True, w\<lparr>w_tick := Suc (w_tick w), w_locks := key # w_locks w\<rparr>)
     else let w1 = pass_time env 0 (w\<lparr>w_tick := Suc (w_tick w)\<rparr>)
       in if deadline \<le> seconds (w_clock w1) then (Inr False, w1)
          else poll_lock env key deadline (pass_time env 50000000 w1))"
  by (subst poll_lock.simps) (simp add: try_advisory_lock_run POLL_INTERVAL_MS_def Let_def)

declare poll_lock.simps [simp del]

section \<open>What happens while waiting\<close>

text \<open>Only time passes: \<open>w'\<close> is \<open>w\<close> but for the clock and the number of questions asked.\<close>

definition idled :: "'q world \<Rightarrow> 'q world \<Rightarrow> bool" where
  "idled w w' \<longleftrightarrow> (\<exists>c k. w' = w\<lparr>w_clock := c, w_tick := k\<rparr> \<and> w_clock w \<le> c)"

lemma idledI: "w' = w\<lparr>w_clock := c, w_tick := k\<rparr> \<Longrightarrow> w_clock w \<le> c \<Longrightarrow> idled w w'"
  unfolding idled_def by blast

lemma idledE:
  assumes "idled w w'"
  obtains c k where "w' = w\<lparr>w_clock := c, w_tick := k\<rparr>" and "w_clock w \<le> c"
  using assms unfolding idled_def by blast

lemma idled_refl [simp]: "idled w w"
  by (rule idledI [where c = "w_clock w" and k = "w_tick w"]) simp_all

lemma idled_trans:
  assumes "idled u v" and "idled v w"
  shows "idled u w"
proof -
  obtain c k where "v = u\<lparr>w_clock := c, w_tick := k\<rparr>" "w_clock u \<le> c" using assms(1) by (rule idledE)
  moreover obtain c' k' where "w = v\<lparr>w_clock := c', w_tick := k'\<rparr>" "w_clock v \<le> c'"
    using assms(2) by (rule idledE)
  ultimately show ?thesis by (intro idledI [where c = c' and k = k']) simp_all
qed

lemma idled_pass_time [simp]: "idled w (pass_time env n w)"
  by (rule idledI [where c = "w_clock w + n + e_elapse env (w_tick w)" and k = "Suc (w_tick w)"])
    (simp_all add: pass_time_def)

lemma idled_tick [simp]: "idled w (w\<lparr>w_tick := n\<rparr>)"
  by (rule idledI [where c = "w_clock w" and k = n]) simp_all

lemma idled_same:
  assumes "idled w w'"
  shows "w_db w' = w_db w" and "w_store w' = w_store w" and "w_locks w' = w_locks w"
    and "w_context w' = w_context w" and "w_phases w' = w_phases w" and "w_metrics w' = w_metrics w"
    and "w_access_log w' = w_access_log w" and "settled w' = settled w"
proof -
  obtain c k where "w' = w\<lparr>w_clock := c, w_tick := k\<rparr>" using assms by (rule idledE)
  then show "w_db w' = w_db w" "w_store w' = w_store w" "w_locks w' = w_locks w"
    "w_context w' = w_context w" "w_phases w' = w_phases w" "w_metrics w' = w_metrics w"
    "w_access_log w' = w_access_log w" "settled w' = settled w" by simp_all
qed

definition locked :: "int \<times> int \<Rightarrow> 'q world \<Rightarrow> 'q world" where
  "locked key w = w\<lparr>w_locks := key # w_locks w\<rparr>"

definition unlocked :: "int \<times> int \<Rightarrow> 'q world \<Rightarrow> 'q world" where
  "unlocked key w = w\<lparr>w_locks := remove1 key (w_locks w)\<rparr>"

lemma poll_lock_cases:
  "(\<exists>w1. idled w w1 \<and> w_tick w1 \<le> w_tick w + 3 * rounds_left deadline (w_clock w) + 2 \<and>
     (poll_lock env key deadline w = (Inr True, locked key w1) \<or>
      (poll_lock env key deadline w = (Inr False, w1) \<and> deadline \<le> seconds (w_clock w1))))"
proof (induction env key deadline w rule: poll_lock.induct)
  case (1 env key deadline w)
  let ?w0 = "w\<lparr>w_tick := Suc (w_tick w)\<rparr>"
  let ?w1 = "pass_time env 0 ?w0"
  let ?w2 = "pass_time env 50000000 ?w1"
  show ?case
  proof (cases "e_lock_free env (w_tick w) key")
    case True
    then show ?thesis
      by (intro exI [of _ ?w0]) (simp add: poll_lock_run locked_def)
  next
    case free: False
    show ?thesis
    proof (cases "deadline \<le> seconds (w_clock ?w1)")
      case True
      then have "poll_lock env key deadline w = (Inr False, ?w1)"
        using free by (simp add: poll_lock_run Let_def)
      moreover have "idled w ?w1" by (rule idled_trans [of w ?w0]) simp_all
      ultimately show ?thesis using True by (intro exI [of _ ?w1]) simp
    next
      case False
      have run: "poll_lock env key deadline w = poll_lock env key deadline ?w2"
        using free False by (subst poll_lock_run) (simp add: Let_def)
      have "idled w ?w2" by (rule idled_trans [of w ?w0]) (simp_all add: idled_trans [of _ ?w1])
      moreover have "rounds_left deadline (w_clock ?w2) < rounds_left deadline (w_clock w)"
        using False by (intro rounds_left_decreases [of "w_clock ?w1"]) simp_all
      moreover have "\<exists>w3. idled ?w2 w3 \<and> w_tick w3 \<le> w_tick ?w2 + 3 * rounds_left deadline (w_clock ?w2) + 2 \<and>
        (poll_lock env key deadline ?w2 = (Inr True, locked key w3) \<or>
         (poll_lock env key deadline ?w2 = (Inr False, w3) \<and> deadline \<le> seconds (w_clock w3)))"
        using "1.IH" [of _ ?w0 False] False free
        by (simp add: POLL_INTERVAL_MS_def try_advisory_lock_run)
      then obtain w3 where "idled ?w2 w3" "w_tick w3 \<le> w_tick ?w2 + 3 * rounds_left deadline (w_clock ?w2) + 2"
        "poll_lock env key deadline ?w2 = (Inr True, locked key w3) \<or>
         (poll_lock env key deadline ?w2 = (Inr False, w3) \<and> deadline \<le> seconds (w_clock w3))"
        by blast
      ultimately show ?thesis unfolding run
        by (intro exI [of _ w3]) (auto intro: idled_trans)
    qed
  qed
qed

section \<open>The lock meets the contract\<close>

definition enter_lock :: "'q env \<Rightarrow> string \<Rightarrow> string \<Rightarrow> string \<Rightarrow> 'q world \<Rightarrow> 'q world" where
  "enter_lock env t b d w = (case advisory_lock_key (e_sha256 env) t b d of Inl _ \<Rightarrow> w | Inr key \<Rightarrow> locked key w)"

definition leave_lock :: "'q env \<Rightarrow> string \<Rightarrow> string \<Rightarrow> string \<Rightarrow> 'q world \<Rightarrow> 'q world" where
  "leave_lock env t b d w = (case advisory_lock_key (e_sha256 env) t b d of Inl _ \<Rightarrow> w | Inr key \<Rightarrow> unlocked key w)"

definition lock_refused :: "'q env \<Rightarrow> string \<Rightarrow> string \<Rightarrow> string \<Rightarrow> exn \<Rightarrow> bool" where
  "lock_refused env t b d e \<longleftrightarrow>
     e = lock_timeout_error t b d \<or> advisory_lock_key (e_sha256 env) t b d = Inl e"

lemma rounds_left_start: "rounds_left (seconds c + DEFAULT_ACQUIRE_TIMEOUT_S) c = 100"
  by (simp add: rounds_left_def DEFAULT_ACQUIRE_TIMEOUT_S_def)

lemma upload_lock_run:
  assumes key: "advisory_lock_key (e_sha256 env) t b d = Inr key"
  shows "\<exists>w1. idled w w1 \<and> w_tick w1 \<le> w_tick w + 303 \<and>
    ((upload_lock env t b d body w = (Inl (lock_timeout_error t b d), w1) \<and>
        seconds (w_clock w) + DEFAULT_ACQUIRE_TIMEOUT_S \<le> seconds (w_clock w1)) \<or>
     upload_lock env t b d body w =
       (fst (body (locked key w1)), unlocked key (snd (body (locked key w1)))))"
proof -
  let ?w0 = "pass_time env 0 w" and ?deadline = "seconds (w_clock (pass_time env 0 w)) + DEFAULT_ACQUIRE_TIMEOUT_S"
  obtain w1 where w1: "idled ?w0 w1" "w_tick w1 \<le> w_tick ?w0 + 3 * rounds_left ?deadline (w_clock ?w0) + 2"
    "poll_lock env key ?deadline ?w0 = (Inr True, locked key w1) \<or>
     (poll_lock env key ?deadline ?w0 = (Inr False, w1) \<and> ?deadline \<le> seconds (w_clock w1))"
    using poll_lock_cases [of ?w0 ?deadline env key] by blast
  have "idled w w1" using w1(1) by (rule idled_trans [rotated]) simp
  moreover have "w_tick w1 \<le> w_tick w + 303" using w1(2) by (simp only: rounds_left_start) simp
  moreover have "seconds (w_clock w) \<le> seconds (w_clock ?w0)" by (simp add: seconds_mono)
  ultimately show ?thesis
    using w1(3)
    by (intro exI [of _ w1])
      (auto simp: upload_lock_def key bind_io_def finally_io_def advisory_unlock_def unlocked_def
        case_prod_beta)
qed

interpretation upload_guard: exclusive_section "upload_lock env t b d" idled
    "enter_lock env t b d" "leave_lock env t b d" "lock_refused env t b d"
  for env :: "'q env" and t b d
proof unfold_locales
  fix body :: "('q, 'a) action" and w r w'
  assume run: "upload_lock env t b d body w = (r, w')"
  show "(\<exists>e. r = Inl e \<and> lock_refused env t b d e \<and> idled w w') \<or>
      (\<exists>w1 w2. idled w w1 \<and> body (enter_lock env t b d w1) = (r, w2) \<and> w' = leave_lock env t b d w2)"
  proof (cases "advisory_lock_key (e_sha256 env) t b d")
    case (Inl e)
    with run show ?thesis by (auto simp: upload_lock_def lock_refused_def)
  next
    case (Inr key)
    from upload_lock_run [OF this, of w body] obtain w1 where w1: "idled w w1"
      "upload_lock env t b d body w = (Inl (lock_timeout_error t b d), w1) \<or>
       upload_lock env t b d body w = (fst (body (locked key w1)), unlocked key (snd (body (locked key w1))))"
      by blast
    from w1(2) show ?thesis
    proof
      assume "upload_lock env t b d body w = (Inl (lock_timeout_error t b d), w1)"
      with run have "r = Inl (lock_timeout_error t b d)" and "w' = w1" by simp_all
      with w1(1) show ?thesis by (simp add: lock_refused_def)
    next
      assume "upload_lock env t b d body w = (fst (body (locked key w1)), unlocked key (snd (body (locked key w1))))"
      with run have "body (locked key w1) = (r, snd (body (locked key w1)))"
        and "w' = unlocked key (snd (body (locked key w1)))" by (simp_all add: prod_eq_iff)
      with w1(1) Inr show ?thesis by (auto simp: enter_lock_def leave_lock_def)
    qed
  qed
qed

lemma settled_enter: "idled w w1 \<Longrightarrow> w_db (enter_lock env t b d w1) = w_db w \<and> w_store (enter_lock env t b d w1) = w_store w"
  by (auto simp: enter_lock_def locked_def idled_same split: sum.split)

lemma leave_lock_simps [simp]:
  "w_db (leave_lock env t b d w) = w_db w" "w_store (leave_lock env t b d w) = w_store w"
  "w_context (leave_lock env t b d w) = w_context w" "w_phases (leave_lock env t b d w) = w_phases w"
  by (simp_all add: leave_lock_def unlocked_def split: sum.split)

text \<open>
  C6 (the lock). A locked section always comes to an end of the waiting: after at most 101
  attempts (303 clock readings, attempts and sleeps) either the lock was never granted, at
  least five seconds went by, and nothing but time has passed, or the body ran exactly once
  with the lock held on top of what was held before, and its outcome is returned with the
  lock given back. With invalid identifiers nothing happens at all.
\<close>

theorem upload_lock_correct:
  "(\<exists>e. advisory_lock_key (e_sha256 env) t b d = Inl e \<and> upload_lock env t b d body w = (Inl e, w)) \<or>
   (\<exists>key w1. advisory_lock_key (e_sha256 env) t b d = Inr key \<and>
      settled w1 = settled w \<and> w_tick w1 \<le> w_tick w + 303 \<and>
      ((upload_lock env t b d body w = (Inl (lock_timeout_error t b d), w1) \<and>
          seconds (w_clock w) + 5 \<le> seconds (w_clock w1)) \<or>
       (\<exists>r w2. body (w1\<lparr>w_locks := key # w_locks w\<rparr>) = (r, w2) \<and>
          upload_lock env t b d body w = (r, w2\<lparr>w_locks := remove1 key (w_locks w2)\<rparr>))))"
proof (cases "advisory_lock_key (e_sha256 env) t b d")
  case (Inl e)
  then show ?thesis by (simp add: upload_lock_def)
next
  case (Inr key)
  obtain w1 where w1: "idled w w1" "w_tick w1 \<le> w_tick w + 303"
    "(upload_lock env t b d body w = (Inl (lock_timeout_error t b d), w1) \<and>
        seconds (w_clock w) + DEFAULT_ACQUIRE_TIMEOUT_S \<le> seconds (w_clock w1)) \<or>
     upload_lock env t b d body w =
       (fst (body (locked key w1)), unlocked key (snd (body (locked key w1))))"
    using upload_lock_run [OF Inr] by blast
  have "locked key w1 = w1\<lparr>w_locks := key # w_locks w\<rparr>"
    by (simp add: locked_def idled_same [OF w1(1)])
  with w1 Inr idled_same(8) [OF w1(1)] show ?thesis
    by (intro disjI2 exI [of _ key] exI [of _ w1])
      (auto simp: DEFAULT_ACQUIRE_TIMEOUT_S_def unlocked_def intro: prod.collapse [symmetric])
qed

end
