(* ===== verification/Timing.thy ===== *)
theory Timing
  imports Locks
begin

text \<open>
  Phase timings, \<^verbatim>\<open>apps/core/timing.py\<close>: a dict per request, created by the access-log
  middleware, in which every phase of the pipeline stores its duration, also when it fails.
  Outside a request there is no dict and nothing is stored.
\<close>

definition reset_phase_durations :: "('q, unit) action" where
  "reset_phase_durations = modify_io (\<lambda>w. w\<lparr>w_phases := Some []\<rparr>)"

definition get_phase_durations :: "('q, (string \<times> rat) list) action" where
  "get_phase_durations = gets_io (\<lambda>w. case w_phases w of None \<Rightarrow> [] | Some d \<Rightarrow> d)"

definition timer :: "'q env \<Rightarrow> string \<Rightarrow> ('q, 'a) action \<Rightarrow> ('q, 'a) action" where
  "timer env phase body =
     bind_io (gets_io (\<lambda>w. w_phases w \<noteq> None)) (\<lambda>scoped.
     bind_io (monotonic env) (\<lambda>started.
     finally_io body (when_io scoped (
       bind_io (monotonic env) (\<lambda>now.
       modify_io (\<lambda>w. w\<lparr>w_phases := map_option (dict_set phase ((now - started) * 1000)) (w_phases w)\<rparr>))))))"

section \<open>Lemmas\<close>

lemma frame_timer [frame_intro]:
  assumes "frame f body" and "\<And>w. f (pass_time env 0 w) = f w" and "\<And>w ph. f (w\<lparr>w_phases := ph\<rparr>) = f w"
  shows "frame f (timer env phase body)"
  unfolding timer_def by (intro frame_intro assms)

lemma keeps_timer [keeps_intro]:
  assumes "keeps I body" and "\<And>w. I (pass_time env 0 w) = I w" and "\<And>w ph. I (w\<lparr>w_phases := ph\<rparr>) = I w"
  shows "keeps I (timer env phase body)"
  unfolding timer_def
  by (intro keeps_intro assms(1)) (simp_all add: keeps_def assms(2,3))

text \<open>A timer only adds the passing of time and the stored duration to its body.\<close>

definition stop_timer :: "'q env \<Rightarrow> string \<Rightarrow> bool \<Rightarrow> rat \<Rightarrow> 'q world \<Rightarrow> 'q world" where
  "stop_timer env phase scoped started w = (if \<not> scoped then w else
     let w' = pass_time env 0 w in w'\<lparr>w_phases :=
       map_option (dict_set phase ((seconds (w_clock w') - started) * 1000)) (w_phases w')\<rparr>)"

lemma timer_run:
  "timer env phase body w = (let w0 = pass_time env 0 w in
     (fst (body w0), stop_timer env phase (w_phases w \<noteq> None) (seconds (w_clock w0)) (snd (body w0))))"
  by (simp add: timer_def finally_io_def stop_timer_def Let_def bind_io_def case_prod_beta)

lemma stop_timer_simps [simp]:
  "w_db (stop_timer env p sc st w) = w_db w" "w_store (stop_timer env p sc st w) = w_store w"
  "w_locks (stop_timer env p sc st w) = w_locks w" "w_context (stop_timer env p sc st w) = w_context w"
  by (simp_all add: stop_timer_def Let_def)

lemma triple_timer:
  assumes body: "triple P body Q E" and P: "\<And>w. P w \<Longrightarrow> P (pass_time env 0 w)"
    and Q: "\<And>x w sc st. Q x w \<Longrightarrow> Q x (stop_timer env phase sc st w)"
    and E: "\<And>e w sc st. E e w \<Longrightarrow> E e (stop_timer env phase sc st w)"
  shows "triple P (timer env phase body) Q E"
proof (rule tripleI)
  fix w x t assume "P w" and run: "timer env phase body w = (Inr x, t)"
  let ?w0 = "pass_time env 0 w"
  from run have "body ?w0 = (Inr x, snd (body ?w0))" and "t = stop_timer env phase (w_phases w \<noteq> None) (seconds (w_clock ?w0)) (snd (body ?w0))"
    by (auto simp: timer_run Let_def prod_eq_iff)
  with triple_InrD [OF body P [OF \<open>P w\<close>]] Q show "Q x t" by metis
next
  fix w e t assume "P w" and run: "timer env phase body w = (Inl e, t)"
  let ?w0 = "pass_time env 0 w"
  from run have "body ?w0 = (Inl e, snd (body ?w0))" and "t = stop_timer env phase (w_phases w \<noteq> None) (seconds (w_clock ?w0)) (snd (body ?w0))"
    by (auto simp: timer_run Let_def prod_eq_iff)
  with triple_InlD [OF body P [OF \<open>P w\<close>]] E show "E e t" by metis
qed

text \<open>
  Phase timings. A timed phase has the outcome of its body, raised exceptions
  included; inside a request it leaves a duration of at least 0 under the phase's name and
  no other phase of the dict is touched; outside a request the dict stays absent.
\<close>

theorem timer_correct:
  assumes "w_clock (pass_time env 0 w) \<le> w_clock (snd (body (pass_time env 0 w)))"
  shows "\<exists>w' w1. body (pass_time env 0 w) = (fst (timer env phase body w), w1) \<and>
     snd (timer env phase body w) = w' \<and> settled w' = settled w1 \<and>
     (if w_phases w = None then w_phases w' = w_phases w1
      else \<exists>ms \<ge> 0. w_phases w' = map_option (dict_set phase ms) (w_phases w1))"
proof -
  let ?w0 = "pass_time env 0 w" and ?w1 = "snd (body (pass_time env 0 w))"
  let ?w' = "stop_timer env phase (w_phases w \<noteq> None) (seconds (w_clock ?w0)) ?w1"
  let ?ms = "(seconds (w_clock (pass_time env 0 ?w1)) - seconds (w_clock ?w0)) * 1000"
  have run: "timer env phase body w = (fst (body ?w0), ?w')" by (simp add: timer_run Let_def)
  have "seconds (w_clock ?w0) \<le> seconds (w_clock (pass_time env 0 ?w1))"
    using assms by (simp add: seconds_mono)
  then have "0 \<le> ?ms" by (simp del: pass_time_simps)
  moreover have "w_phases ?w' = map_option (dict_set phase ?ms) (w_phases ?w1)" if "w_phases w \<noteq> None"
    using that by (simp add: stop_timer_def Let_def)
  moreover have "w_phases ?w' = w_phases ?w1" if "w_phases w = None"
    using that by (simp add: stop_timer_def)
  ultimately have "if w_phases w = None then w_phases ?w' = w_phases ?w1
      else \<exists>ms \<ge> 0. w_phases ?w' = map_option (dict_set phase ms) (w_phases ?w1)" by metis
  moreover have "body ?w0 = (fst (timer env phase body w), ?w1)" by (simp add: run prod_eq_iff)
  moreover have "settled ?w' = settled ?w1" by (simp add: settled_eq)
  moreover have "snd (timer env phase body w) = ?w'" by (simp add: run)
  ultimately show ?thesis by blast
qed

text \<open>A failing phase, timed inside a request.\<close>

theorem timer_correct_witness:
  "\<forall>(env :: nat env) w. \<exists>ms \<ge> 0. w_phases (snd (timer env ''upsert'' (raise_io (ValueError ''x'') :: (nat, unit) action)
      (w\<lparr>w_phases := Some []\<rparr>))) = Some [(''upsert'', ms)]"
proof (intro allI)
  fix env :: "nat env" and w :: "nat world"
  let ?body = "raise_io (ValueError ''x'') :: (nat, unit) action"
  from timer_correct [of env "w\<lparr>w_phases := Some []\<rparr>" ?body "''upsert''"]
  show "\<exists>ms \<ge> 0. w_phases (snd (timer env ''upsert'' ?body (w\<lparr>w_phases := Some []\<rparr>))) = Some [(''upsert'', ms)]"
    by auto
qed

end
