(* ===== verification/Pipeline.thy ===== *)
theory Pipeline
  imports Timing
begin

text \<open>
  The upload and delete pipelines, \<^verbatim>\<open>apps/ingestion/pipeline.py\<close>, as computations over the
  world. \<open>upload_execute\<close> is \<open>UploadPipeline.execute\<close>: \<open>upload_locked\<close> is the body of its
  \<open>with upload_lock\<close> block, \<open>upload_no_change\<close> its two short-circuit exits and
  \<open>upload_fresh\<close> what follows them. Clock readings that only feed a log line are left out.
\<close>

section \<open>The request body\<close>

text \<open>
  The validated body: \<open>None\<close> is an absent key, \<open>Some None\<close> a null. A \<open>doc_id\<close> is a UUID
  object, not a string.
\<close>

record upload_item =
  it_content :: string
  it_section_path :: "string list option"
  it_page_number :: "int option option"
  it_item_index :: "int option"

record upload_body =
  bd_doc_id :: "string option"
  bd_source_type :: string
  bd_source_filename :: "string option option"
  bd_source_url :: "string option option"
  bd_content_hash :: "string option option"
  bd_items :: "upload_item list"

text \<open>
  The body as the \<open>raw_payload\<close> column stores it. The column's encoder is the standard one,
  which has no form for a UUID.
\<close>

definition entry :: "string \<Rightarrow> ('a \<Rightarrow> json) \<Rightarrow> 'a option \<Rightarrow> (string \<times> json) list" where
  "entry k f x = (case x of None \<Rightarrow> [] | Some v \<Rightarrow> [(k, f v)])"

definition json_of_item :: "upload_item \<Rightarrow> json" where
  "json_of_item it = JObj ([(''content'', JStr (it_content it))] @
     entry ''section_path'' (\<lambda>p. JList (map JStr p)) (it_section_path it) @
     entry ''page_number'' (json_opt JInt) (it_page_number it) @
     entry ''item_index'' JInt (it_item_index it))"

definition json_of_body :: "upload_body \<Rightarrow> exn + json" where
  "json_of_body body = (if bd_doc_id body \<noteq> None
     then Inl (OtherError ''TypeError'' ''Object of type UUID is not JSON serializable'')
     else Inr (JObj ([(''source_type'', JStr (bd_source_type body))] @
       entry ''source_filename'' (json_opt JStr) (bd_source_filename body) @
       entry ''source_url'' (json_opt JStr) (bd_source_url body) @
       entry ''content_hash'' (json_opt JStr) (bd_content_hash body) @
       [(''items'', JList (map json_of_item (bd_items body)))])))"

section \<open>Helpers\<close>

definition MAX_CHUNKS_PER_DOC :: nat where "MAX_CHUNKS_PER_DOC = 5000"

record upload_result =
  ur_doc_id :: string
  ur_chunks_created :: nat
  ur_items_processed :: nat
  ur_collection_name :: string
  ur_status :: string

definition tenant_of :: "'q env \<Rightarrow> string \<Rightarrow> ('q, tenant_row) action" where
  "tenant_of env t = bind_io (wall_clock env) (\<lambda>now. on_db (get_or_create_tenant now t))"

definition bot_of :: "'q env \<Rightarrow> tenant_row \<Rightarrow> string \<Rightarrow> ('q, bot_row) action" where
  "bot_of env tenant b = bind_io (wall_clock env) (\<lambda>now. on_db (get_or_create_bot now tenant b))"

definition hash_input :: "upload_item list \<Rightarrow> byte list" where
  "hash_input items = concat (map (\<lambda>it. py_encode (it_content it) @ [31]) items)"

definition compute_content_hash :: "(byte list \<Rightarrow> byte list) \<Rightarrow> upload_item list \<Rightarrow> string" where
  "compute_content_hash sha256 items = hex_of_bytes (sha256 (hash_input items))"

definition incoming_hash :: "(byte list \<Rightarrow> byte list) \<Rightarrow> upload_body \<Rightarrow> string" where
  "incoming_hash sha256 body = (let h = py_strip (or_default [] (get_field (bd_content_hash body)))
     in if h = [] then compute_content_hash sha256 (bd_items body) else h)"

definition point_id_for_chunk :: "'q env \<Rightarrow> string \<Rightarrow> string" where
  "point_id_for_chunk env chunk_id = e_uuid5_oid env chunk_id"

definition py_nth :: "'a list \<Rightarrow> nat \<Rightarrow> exn + 'a" where
  "py_nth xs i = (if i < length xs then Inr (xs ! i) else Inl (IndexError ''list index out of range''))"

definition payload_text :: "(string \<times> json) list \<Rightarrow> string \<Rightarrow> exn + string" where
  "payload_text d k = (case lookup d k of Some (JStr s) \<Rightarrow> Inr s | _ \<Rightarrow> Inl (KeyError k))"

section \<open>Upload\<close>

text \<open>The items' chunks, each with its item and the item's position.\<close>

definition flat_chunks :: "'q env \<Rightarrow> upload_body \<Rightarrow> (nat \<times> upload_item \<times> chunk) list" where
  "flat_chunks env body = concat (map (\<lambda>(auto_idx, it). map (\<lambda>c. (auto_idx, it, c))
     (chunk_item (e_split env) (count_tokens (e_tokenize env)) (it_content it) (bd_source_type body)))
     (enum_list (bd_items body)))"

definition build_point ::
  "'q env \<Rightarrow> string \<Rightarrow> string \<Rightarrow> string \<Rightarrow> scraped_source \<Rightarrow> embeddings \<Rightarrow>
     nat \<times> nat \<times> upload_item \<times> chunk \<Rightarrow> ('q, point) action" where
  "build_point env tenant_id bot_id doc_id source emb = (\<lambda>(i, auto_idx, item_data, chunk).
     let item = \<lparr>si_item_index = auto_idx,
           si_section_path = or_default [] (it_section_path item_data),
           si_page_number = get_field (it_page_number item_data)\<rparr>
     in bind_io (tick (e_utc_iso env)) (\<lambda>now.
       let payload_dict = build_payload chunk tenant_id bot_id doc_id item source now
       in of_sum (
         and_then (py_nth (sparse emb) i) (\<lambda>sparse_dict.
         and_then (sparse_to_qdrant sparse_dict) (\<lambda>sparse_qd.
         and_then (py_nth (dense emb) i) (\<lambda>dense_list.
         and_then (payload_text payload_dict ''chunk_id'') (\<lambda>chunk_id.
         and_then (py_nth (colbert emb) i) (\<lambda>colbert_vec.
         Inr \<lparr>p_id = point_id_for_chunk env chunk_id, p_dense = dense_list, p_bm25 = sparse_qd,
              p_colbert = colbert_to_qdrant colbert_vec, p_payload = payload_dict\<rparr>))))))))"

definition source_of :: "upload_body \<Rightarrow> string \<Rightarrow> scraped_source" where
  "source_of body hash = \<lparr>src_type = bd_source_type body,
     src_filename = get_field (bd_source_filename body),
     src_url = get_field (bd_source_url body), src_content_hash = hash\<rparr>"

definition document_row ::
  "string \<Rightarrow> string \<Rightarrow> string \<Rightarrow> upload_body \<Rightarrow> bot_row \<Rightarrow> string \<Rightarrow> nat \<Rightarrow> json \<Rightarrow> doc_row" where
  "document_row tenant_id bot_id doc_id body bot_ref hash chunks raw =
     \<lparr>dc_doc_id = doc_id, dc_bot_ref = bt_pk bot_ref, dc_tenant_id = tenant_id, dc_bot_id = bot_id,
      dc_source_type = bd_source_type body,
      dc_source_filename = get_field (bd_source_filename body),
      dc_source_url = get_field (bd_source_url body),
      dc_content_hash = hash, dc_chunk_count = chunks, dc_item_count = length (bd_items body),
      dc_status = ACTIVE, dc_error_message = None, dc_raw_payload = Some raw,
      dc_uploaded_at = 0, dc_last_refreshed_at = 0\<rparr>"

definition save_document ::
  "'q env \<Rightarrow> string \<Rightarrow> string \<Rightarrow> string \<Rightarrow> upload_body \<Rightarrow> bot_row \<Rightarrow> string \<Rightarrow> nat \<Rightarrow> ('q, unit) action" where
  "save_document env tenant_id bot_id doc_id body bot_ref hash chunks =
     bind_io (of_sum (json_of_body body)) (\<lambda>raw.
     bind_io (wall_clock env) (\<lambda>now.
     on_db (update_or_create_doc now (document_row tenant_id bot_id doc_id body bot_ref hash chunks raw))))"

definition upload_no_change ::
  "'q env \<Rightarrow> string \<Rightarrow> string \<Rightarrow> doc_row \<Rightarrow> ('q, upload_result) action" where
  "upload_no_change env tenant_id bot_id r =
     bind_io (wall_clock env) (\<lambda>now.
     seq_io (on_db (refresh_doc now (dc_doc_id r)))
    (bind_io (of_sum (collection_name tenant_id bot_id)) (\<lambda>name.
     return_io \<lparr>ur_doc_id = dc_doc_id r, ur_chunks_created = dc_chunk_count r,
       ur_items_processed = dc_item_count r, ur_collection_name = name, ur_status = ''no_change''\<rparr>)))"

definition ensure_collection :: "'q env \<Rightarrow> string \<Rightarrow> string \<Rightarrow> ('q, string) action" where
  "ensure_collection env tenant_id bot_id = timer env ''get_or_create''
     (try_io (on_store (get_or_create_collection (e_client env) tenant_id bot_id)) (\<lambda>exc.
       if is_qdrant_error exc then raise_io (Upload (QdrantWriteError
         (''Collection get_or_create failed: '' @ exn_text exc)
         [(''tenant_id'', JStr tenant_id), (''bot_id'', JStr bot_id)]))
       else raise_io exc))"

definition embed_chunks ::
  "'q env \<Rightarrow> (nat \<times> upload_item \<times> chunk) list \<Rightarrow> ('q, embeddings) action" where
  "embed_chunks env flat = timer env ''embed''
     (try_io (embed_batch env (map (\<lambda>(_, _, c). c_text c) flat)) (\<lambda>exc.
       raise_io (Upload (EmbedderError (''Embedder failed: '' @ exn_text exc)
         [(''chunk_count'', JInt (int (length flat)))]))))"

definition clear_document :: "'q env \<Rightarrow> string \<Rightarrow> string \<Rightarrow> string \<Rightarrow> ('q, unit) action" where
  "clear_document env tenant_id bot_id doc_id =
     try_io (seq_io (on_store (delete_by_doc_id (e_client env) tenant_id bot_id doc_id)) (return_io ()))
       (\<lambda>exc. if is_qdrant_error exc then raise_io (Upload (QdrantWriteError
           (''delete_by_doc_id failed during replace: '' @ exn_text exc) [(''doc_id'', JStr doc_id)]))
         else raise_io exc)"

definition write_points :: "'q env \<Rightarrow> string \<Rightarrow> string \<Rightarrow> point list \<Rightarrow> ('q, unit) action" where
  "write_points env doc_id name points = timer env ''upsert''
     (try_io (on_store (upsert_points (e_client env) name points)) (\<lambda>exc.
       raise_io (Upload (QdrantWriteError (''upsert failed: '' @ exn_text exc)
         [(''doc_id'', JStr doc_id), (''chunks'', JInt (int (length points)))]))))"

definition upload_fresh ::
  "'q env \<Rightarrow> string \<Rightarrow> string \<Rightarrow> string \<Rightarrow> upload_body \<Rightarrow> bot_row \<Rightarrow> string \<Rightarrow> bool \<Rightarrow>
     ('q, upload_result) action" where
  "upload_fresh env tenant_id bot_id doc_id body bot_ref hash is_replace =
     bind_io (ensure_collection env tenant_id bot_id) (\<lambda>name.
     bind_io (timer env ''chunk'' (return_io (flat_chunks env body))) (\<lambda>flat.
     if flat = [] then raise_io (Upload (NoEmbeddableContentError
       ''No chunks survived after chunking.''
       [(''items_count'', JInt (int (length (bd_items body))))]))
     else if MAX_CHUNKS_PER_DOC < length flat then raise_io (Upload (DocumentTooLargeError
       (''Document produces '' @ show_nat (length flat) @ '' chunks, max is '' @ show_nat MAX_CHUNKS_PER_DOC)
       [(''chunk_count'', JInt (int (length flat))), (''max'', JInt (int MAX_CHUNKS_PER_DOC))]))
     else
       bind_io (embed_chunks env flat) (\<lambda>emb.
       bind_io (map_io (build_point env tenant_id bot_id doc_id (source_of body hash) emb)
         (enum_list flat)) (\<lambda>points.
       seq_io (when_io is_replace (clear_document env tenant_id bot_id doc_id))
      (seq_io (write_points env doc_id name points)
      (seq_io (timer env ''doc_save''
         (save_document env tenant_id bot_id doc_id body bot_ref hash (length points)))
      (return_io \<lparr>ur_doc_id = doc_id, ur_chunks_created = length points,
         ur_items_processed = length (bd_items body), ur_collection_name = name,
         ur_status = (if is_replace then ''replaced'' else ''created'')\<rparr>)))))))"

definition collision_error :: "string \<Rightarrow> string \<Rightarrow> string \<Rightarrow> exn" where
  "collision_error doc_id expected found = Upload (QdrantWriteError
     ''doc_id collision across tenants/bots -- refuse to overwrite.''
     [(''doc_id'', JStr doc_id), (''expected_tenant'', JStr expected), (''found_tenant'', JStr found)])"

definition upload_deduplicated ::
  "'q env \<Rightarrow> string \<Rightarrow> string \<Rightarrow> string \<Rightarrow> upload_body \<Rightarrow> bot_row \<Rightarrow> doc_row option \<Rightarrow>
     ('q, upload_result) action" where
  "upload_deduplicated env tenant_id bot_id doc_id body bot_ref existing =
     (let hash = incoming_hash (e_sha256 env) body in
      case Option.bind existing (\<lambda>r. if 0 < dc_chunk_count r \<and> dc_content_hash r = hash then Some r else None) of
        Some r \<Rightarrow> upload_no_change env tenant_id bot_id r
      | None \<Rightarrow>
          bind_io (gets_io (\<lambda>w. content_match tenant_id bot_id hash doc_id (w_db w))) (\<lambda>match.
          case match of
            Some r \<Rightarrow> upload_no_change env tenant_id bot_id r
          | None \<Rightarrow> upload_fresh env tenant_id bot_id doc_id body bot_ref hash (existing \<noteq> None)))"

definition foreign :: "string \<Rightarrow> string \<Rightarrow> doc_row \<Rightarrow> bool" where
  "foreign tenant_id bot_id r = (dc_tenant_id r \<noteq> tenant_id \<or> dc_bot_id r \<noteq> bot_id)"

definition upload_locked ::
  "'q env \<Rightarrow> string \<Rightarrow> string \<Rightarrow> string \<Rightarrow> upload_body \<Rightarrow> ('q, upload_result) action" where
  "upload_locked env tenant_id bot_id doc_id body =
     bind_io (tenant_of env tenant_id) (\<lambda>tenant.
     bind_io (bot_of env tenant bot_id) (\<lambda>bot_ref.
     bind_io (gets_io (\<lambda>w. find_doc doc_id (w_db w))) (\<lambda>existing.
     case existing of
       Some r \<Rightarrow> if foreign tenant_id bot_id r
         then raise_io (collision_error doc_id tenant_id (dc_tenant_id r))
         else upload_deduplicated env tenant_id bot_id doc_id body bot_ref existing
     | None \<Rightarrow> upload_deduplicated env tenant_id bot_id doc_id body bot_ref existing)))"

definition upload_execute ::
  "'q env \<Rightarrow> string \<Rightarrow> string \<Rightarrow> string \<Rightarrow> upload_body \<Rightarrow> ('q, upload_result) action" where
  "upload_execute env tenant_id bot_id doc_id body =
     upload_lock env tenant_id bot_id doc_id (upload_locked env tenant_id bot_id doc_id body)"

section \<open>Delete\<close>

record delete_result =
  dr_doc_id :: string
  dr_chunks_deleted :: nat
  dr_was_already_deleted :: bool

definition not_found_error :: "string \<Rightarrow> string \<Rightarrow> string \<Rightarrow> exn" where
  "not_found_error tenant_id bot_id doc_id = Upload (DocumentNotFoundError
     (''Document '' @ doc_id @ '' not found.'')
     [(''tenant_id'', JStr tenant_id), (''bot_id'', JStr bot_id), (''doc_id'', JStr doc_id)])"

definition delete_chunks :: "'q env \<Rightarrow> string \<Rightarrow> string \<Rightarrow> string \<Rightarrow> ('q, nat) action" where
  "delete_chunks env tenant_id bot_id doc_id =
     try_io (on_store (delete_by_doc_id (e_client env) tenant_id bot_id doc_id)) (\<lambda>exc.
       if is_qdrant_error exc then raise_io (Upload (QdrantWriteError
         (''delete_by_doc_id failed: '' @ exn_text exc) [(''doc_id'', JStr doc_id)]))
       else raise_io exc)"

definition delete_locked ::
  "'q env \<Rightarrow> string \<Rightarrow> string \<Rightarrow> string \<Rightarrow> ('q, delete_result) action" where
  "delete_locked env tenant_id bot_id doc_id =
     bind_io (gets_io (\<lambda>w. find_doc doc_id (w_db w))) (\<lambda>existing.
     case existing of
       None \<Rightarrow> raise_io (not_found_error tenant_id bot_id doc_id)
     | Some r \<Rightarrow>
         if foreign tenant_id bot_id r then raise_io (not_found_error tenant_id bot_id doc_id)
         else
           bind_io (delete_chunks env tenant_id bot_id doc_id) (\<lambda>chunks_deleted.
           bind_io (wall_clock env) (\<lambda>now.
           seq_io (on_db (mark_deleted now doc_id))
          (return_io \<lparr>dr_doc_id = doc_id, dr_chunks_deleted = chunks_deleted,
             dr_was_already_deleted = (dc_status r = DELETED)\<rparr>))))"

definition delete_execute ::
  "'q env \<Rightarrow> string \<Rightarrow> string \<Rightarrow> string \<Rightarrow> ('q, delete_result) action" where
  "delete_execute env tenant_id bot_id doc_id =
     upload_lock env tenant_id bot_id doc_id (delete_locked env tenant_id bot_id doc_id)"

end
