(* ===== verification/Upload.thy ===== *)
theory Upload
  imports Pipeline
begin

text \<open>
  What the upload pipeline guarantees. The first part describes each stage by its effect on
  the tables and the vector database, the second puts the stages together, the third states
  the properties. The vector database enters only through the contract \<open>chunk_store\<close>.
\<close>

section \<open>Stages\<close>

lemma timerE:
  assumes "timer env phase body w = (r, w')"
  obtains w1 where "body (pass_time env 0 w) = (r, w1)" and "w_db w' = w_db w1"
    and "w_store w' = w_store w1" and "w_locks w' = w_locks w1"
proof -
  let ?w1 = "snd (body (pass_time env 0 w))"
  from assms have "body (pass_time env 0 w) = (r, ?w1)" and "w_db w' = w_db ?w1"
    and "w_store w' = w_store ?w1" and "w_locks w' = w_locks ?w1"
    by (auto simp: timer_run Let_def prod_eq_iff)
  then show ?thesis by (rule that)
qed

lemma frame_db_simple [frame_intro]:
  "frame w_db (on_store m)" "frame w_db (tick f)" "frame w_db (wall_clock env)"
  "frame w_db (embed_batch env ts)" "frame w_db (monotonic env)"
  by (intro frame_intro; simp)+

lemma frame_store_simple [frame_intro]:
  "frame w_store (on_db m)" "frame w_store (tick f)" "frame w_store (wall_clock env)"
  "frame w_store (embed_batch env ts)" "frame w_store (monotonic env)"
  by (intro frame_intro; simp)+

lemma frame_locks_simple [frame_intro]:
  "frame w_locks (on_db m)" "frame w_locks (on_store m')" "frame w_locks (tick f)" "frame w_locks (wall_clock env)"
  "frame w_locks (embed_batch env ts)" "frame w_locks (monotonic env)"
  by (intro frame_intro; simp)+

lemma frame_build_point [frame_intro]:
  "(\<And>w. f (w\<lparr>w_tick := Suc (w_tick w)\<rparr>) = f w) \<Longrightarrow> frame f (build_point env t b d source emb x)"
  by (cases x) (auto simp: build_point_def Let_def intro!: frame_intro)

text \<open>Which stages leave the tables, the vector database and the locks alone.\<close>

lemma frame_db_stages [frame_intro]:
  "frame w_db (ensure_collection env t b)" "frame w_db (embed_chunks env flat)"
  "frame w_db (clear_document env t b d)" "frame w_db (write_points env d n ps)"
  "frame w_db (delete_chunks env t b d)"
  unfolding ensure_collection_def embed_chunks_def clear_document_def write_points_def delete_chunks_def
  by (intro frame_intro; simp)+

lemma frame_store_stages [frame_intro]:
  "frame w_store (embed_chunks env flat)" "frame w_store (save_document env t b d body bt h k)"
  "frame w_store (upload_no_change env t b r)" "frame w_store (tenant_of env t)" "frame w_store (bot_of env tn b)"
  unfolding embed_chunks_def save_document_def upload_no_change_def tenant_of_def bot_of_def
  by (intro frame_intro; simp)+

lemma frame_docs_stages [frame_intro]:
  "frame (\<lambda>w. db_docs (w_db w)) (tenant_of env t)" "frame (\<lambda>w. db_docs (w_db w)) (bot_of env tn b)"
  unfolding tenant_of_def bot_of_def
  by (intro frame_intro frame_db_part; simp)+

lemma frame_locks_fresh [frame_intro]: "frame w_locks (upload_fresh env t b d body bt h rep)"
  unfolding upload_fresh_def ensure_collection_def embed_chunks_def clear_document_def write_points_def
    save_document_def
  by (intro frame_intro; simp)

lemma frame_locks_locked [frame_intro]: "frame w_locks (upload_locked env t b d body)"
  unfolding upload_locked_def upload_deduplicated_def upload_no_change_def tenant_of_def bot_of_def Let_def
  by (intro frame_intro) (auto split: option.split intro!: frame_intro)

section \<open>The points of an upload\<close>

definition chunk_id_of :: "string \<Rightarrow> nat \<times> upload_item \<times> chunk \<Rightarrow> string" where
  "chunk_id_of d x = (case x of (idx, it, c) \<Rightarrow> build_chunk_id d idx (c_index c))"

text \<open>The ids of the chunks this body makes for the document.\<close>

definition chunk_ids :: "'q env \<Rightarrow> string \<Rightarrow> upload_body \<Rightarrow> string set" where
  "chunk_ids env d body = set (map (chunk_id_of d) (flat_chunks env body))"

text \<open>The point a chunk becomes: its own text and identifiers, and the vectors at its position.\<close>

definition point_for ::
  "'q env \<Rightarrow> string \<Rightarrow> string \<Rightarrow> string \<Rightarrow> scraped_source \<Rightarrow> embeddings \<Rightarrow>
     nat \<times> nat \<times> upload_item \<times> chunk \<Rightarrow> point \<Rightarrow> bool" where
  "point_for env t b d source emb x p \<longleftrightarrow> (case x of (i, idx, it, c) \<Rightarrow>
     p_id p = e_uuid5_oid env (build_chunk_id d idx (c_index c)) \<and>
     i < length (dense emb) \<and> p_dense p = dense emb ! i \<and>
     i < length (sparse emb) \<and> sparse_to_qdrant (sparse emb ! i) = Inr (p_bm25 p) \<and>
     i < length (colbert emb) \<and> p_colbert p = colbert emb ! i \<and>
     (\<exists>now. p_payload p = build_payload c t b d
       \<lparr>si_item_index = idx, si_section_path = or_default [] (it_section_path it),
        si_page_number = get_field (it_page_number it)\<rparr> source now))"

lemma payload_chunk_id [simp]:
  "payload_text (build_payload c t b d item source now) ''chunk_id'' =
     Inr (build_chunk_id d (si_item_index item) (c_index c))"
  by (simp add: payload_text_def)

lemma py_nth_Inr: "py_nth xs i = Inr x \<longleftrightarrow> i < length xs \<and> x = xs ! i"
  by (auto simp: py_nth_def)

lemma build_point_for:
  assumes "build_point env t b d source emb x w = (Inr p, w')"
  shows "point_for env t b d source emb x p"
proof -
  obtain i idx it c where x: "x = (i, idx, it, c)" by (cases x) auto
  from assms show ?thesis
    unfolding x build_point_def point_for_def prod.case Let_def bind_io_def tick_run
    by (auto simp: and_then_Inr_iff py_nth_Inr point_id_for_chunk_def)
qed

lemma point_for_doc: "point_for env t b d source emb x p \<Longrightarrow> of_doc d p"
  by (cases x) (auto simp: point_for_def of_doc_payload)

lemma point_for_other_doc: "point_for env t b d source emb x p \<Longrightarrow> of_doc d' p \<longleftrightarrow> d' = d"
  by (cases x) (auto simp: point_for_def of_doc_payload)

lemma flat_chunks_distinct: "distinct (map (chunk_id_of d) (flat_chunks env body))"
proof -
  let ?count = "count_tokens (e_tokenize env)"
  let ?cs = "\<lambda>it. chunk_item (e_split env) ?count (it_content it) (bd_source_type body)"
  have idx: "map c_index (?cs it) = [0..<length (?cs it)]" for it
    using ct.chunk_item_wf [of "e_tokenize env" "e_split env" "it_content it" "bd_source_type body"]
    by (intro nth_equalityI) (auto simp: chunks_wf_def chunk_ok_def)
  have "distinct (map (\<lambda>(idx, it, c). (idx, c_index c))
      (concat (map (\<lambda>(i, it). map (\<lambda>c. (i, it, c)) (?cs it)) (zip [k..<k + length its] its)))) \<and>
    (\<forall>x \<in> set (concat (map (\<lambda>(i, it). map (\<lambda>c. (i, it, c)) (?cs it)) (zip [k..<k + length its] its))). k \<le> fst x)"
    for k its
  proof (induction its arbitrary: k)
    case (Cons it its)
    have zip: "zip [k..<k + length (it # its)] (it # its) = (k, it) # zip [Suc k..<Suc k + length its] its"
      using upt_conv_Cons [of k "k + length (it # its)"] by simp
    have "distinct (map (\<lambda>c. (k, c_index c)) (?cs it))"
      using idx [of it] by (simp add: distinct_map inj_on_def) (metis distinct_map distinct_upt inj_on_def)
    with Cons.IH [of "Suc k"] show ?case unfolding zip by (fastforce simp: comp_def)
  qed simp
  from this [of 0 "bd_items body"]
  have "distinct (map (\<lambda>(idx, it, c). (idx, c_index c)) (flat_chunks env body))"
    by (simp add: flat_chunks_def enum_list_def)
  then have "distinct (flat_chunks env body)"
    and inj: "inj_on (\<lambda>(idx, it, c). (idx, c_index c)) (set (flat_chunks env body))"
    by (simp_all add: distinct_map)
  moreover have "inj_on (chunk_id_of d) (set (flat_chunks env body))"
  proof (rule inj_onI)
    fix x y assume xy: "x \<in> set (flat_chunks env body)" "y \<in> set (flat_chunks env body)"
      and eq: "chunk_id_of d x = chunk_id_of d y"
    obtain i it c i' it' c' where "x = (i, it, c)" "y = (i', it', c')" by (cases x, cases y) auto
    with eq have "(\<lambda>(idx, it, c). (idx, c_index c)) x = (\<lambda>(idx, it, c). (idx, c_index c)) y"
      by (simp add: chunk_id_of_def build_chunk_id_inject)
    from inj_onD [OF inj this xy] show "x = y" .
  qed
  ultimately show ?thesis by (simp add: distinct_map)
qed

lemma points_distinct:
  assumes pts: "list_all2 (point_for env t b d source emb) (enum_list (flat_chunks env body)) points"
    and inj: "inj_on (e_uuid5_oid env) (chunk_ids env d body)"
  shows "distinct (map p_id points)"
proof -
  have "map p_id points = map (e_uuid5_oid env \<circ> chunk_id_of d \<circ> snd) (enum_list (flat_chunks env body))"
    using pts by (induction rule: list_all2_induct) (auto simp: point_for_def chunk_id_of_def)
  also have "\<dots> = map (e_uuid5_oid env) (map (chunk_id_of d) (flat_chunks env body))"
    by (metis map_map map_snd_enum_list)
  finally show ?thesis
    using flat_chunks_distinct [of d env body] inj by (simp add: distinct_map chunk_ids_def comp_inj_on)
qed

section \<open>What a completed upload did\<close>

lemma ensure_collectionE:
  assumes "ensure_collection env t b w = (Inr n, w')"
  shows "get_or_create_collection (e_client env) t b (w_store w) = (Inr n, w_store w')" and "w_db w' = w_db w"
  using assms unfolding ensure_collection_def
  by (auto elim!: timerE try_io_InrE on_storeE split: if_splits)

lemma embed_chunksE:
  assumes "embed_chunks env flat w = (Inr emb, w')"
  shows "w_store w' = w_store w" and "w_db w' = w_db w"
  using frameD [OF frame_store_stages(1) assms] frameD [OF frame_db_stages(2) assms] by simp_all

lemma clear_documentE:
  assumes "clear_document env t b d w = (Inr u, w')"
  shows "\<exists>k. delete_by_doc_id (e_client env) t b d (w_store w) = (Inr k, w_store w')" and "w_db w' = w_db w"
  using assms unfolding clear_document_def
  by (auto elim!: try_io_InrE seq_io_InrE on_storeE split: if_splits)

lemma write_pointsE:
  assumes "write_points env d n ps w = (Inr u, w')"
  shows "upsert_points (e_client env) n ps (w_store w) = (Inr u, w_store w')" and "w_db w' = w_db w"
  using assms unfolding write_points_def
  by (auto elim!: timerE try_io_InrE on_storeE)

lemma save_documentE:
  assumes "timer env ph (save_document env t b d body bt h k) w = (Inr u, w')"
  shows "w_store w' = w_store w" and "\<exists>raw now. json_of_body body = Inr raw \<and>
    update_or_create_doc now (document_row t b d body bt h k raw) (w_db w) = (Inr u, w_db w')"
  using assms unfolding save_document_def wall_clock_def
  by (auto elim!: timerE bind_io_InrE on_dbE)

lemma build_pointsE:
  assumes "map_io (build_point env t b d source emb) xs w = (Inr ps, w')"
  shows "list_all2 (point_for env t b d source emb) xs ps" and "w_store w' = w_store w" and "w_db w' = w_db w"
proof -
  from assms show "list_all2 (point_for env t b d source emb) xs ps"
    by (rule map_io_all) (rule build_point_for)
  have "frame w_store (map_io (build_point env t b d source emb) xs)"
    and "frame w_db (map_io (build_point env t b d source emb) xs)"
    by (intro frame_intro; simp)+
  from this [THEN frameD, OF assms] show "w_store w' = w_store w" and "w_db w' = w_db w" .
qed

text \<open>Everything a fresh upload that returns has done, in terms of tables and vector database.\<close>

definition fresh_done ::
  "'q env \<Rightarrow> string \<Rightarrow> string \<Rightarrow> string \<Rightarrow> upload_body \<Rightarrow> bot_row \<Rightarrow> string \<Rightarrow> bool \<Rightarrow> upload_result \<Rightarrow>
     point list \<Rightarrow> 'q world \<Rightarrow> 'q world \<Rightarrow> bool" where
  "fresh_done env t b d body bt hash rep res ps w w' \<longleftrightarrow>
     (\<exists>n q1 q2 emb raw now k.
       get_or_create_collection (e_client env) t b (w_store w) = (Inr n, q1) \<and>
       (if rep then delete_by_doc_id (e_client env) t b d q1 = (Inr k, q2) else q2 = q1) \<and>
       upsert_points (e_client env) n ps q2 = (Inr (), w_store w') \<and>
       flat_chunks env body \<noteq> [] \<and> length (flat_chunks env body) \<le> MAX_CHUNKS_PER_DOC \<and>
       list_all2 (point_for env t b d (source_of body hash) emb) (enum_list (flat_chunks env body)) ps \<and>
       json_of_body body = Inr raw \<and>
       update_or_create_doc now (document_row t b d body bt hash (length ps) raw) (w_db w) = (Inr (), w_db w') \<and>
       res = \<lparr>ur_doc_id = d, ur_chunks_created = length ps, ur_items_processed = length (bd_items body),
         ur_collection_name = n, ur_status = (if rep then ''replaced'' else ''created'')\<rparr>)"

lemma chunk_timerE:
  assumes "timer env ph (return_io x) w = (Inr y, w')"
  shows "y = x" and "w_store w' = w_store w" and "w_db w' = w_db w"
  using assms by (auto elim!: timerE)

lemma upload_freshE:
  assumes "upload_fresh env t b d body bt hash rep w = (Inr res, w')"
  shows "\<exists>ps. fresh_done env t b d body bt hash rep res ps w w'"
proof -
  let ?flat = "flat_chunks env body"
  from assms obtain n w1 where 1: "ensure_collection env t b w = (Inr n, w1)"
    and rest: "bind_io (timer env ''chunk'' (return_io ?flat)) (\<lambda>flat.
     if flat = [] then raise_io (Upload (NoEmbeddableContentError
       ''No chunks survived after chunking.''
       [(''items_count'', JInt (int (length (bd_items body))))]))
     else if MAX_CHUNKS_PER_DOC < length flat then raise_io (Upload (DocumentTooLargeError
       (''Document produces '' @ show_nat (length flat) @ '' chunks, max is '' @ show_nat MAX_CHUNKS_PER_DOC)
       [(''chunk_count'', JInt (int (length flat))), (''max'', JInt (int MAX_CHUNKS_PER_DOC))]))
     else
       bind_io (embed_chunks env flat) (\<lambda>emb.
       bind_io (map_io (build_point env t b d (source_of body hash) emb) (enum_list flat)) (\<lambda>points.
       seq_io (when_io rep (clear_document env t b d))
      (seq_io (write_points env d n points)
      (seq_io (timer env ''doc_save'' (save_document env t b d body bt hash (length points)))
      (return_io \<lparr>ur_doc_id = d, ur_chunks_created = length points,
         ur_items_processed = length (bd_items body), ur_collection_name = n,
         ur_status = (if rep then ''replaced'' else ''created'')\<rparr>)))))) w1 = (Inr res, w')"
    unfolding upload_fresh_def by (rule bind_io_InrE)
  from rest obtain w2 where 2: "timer env ''chunk'' (return_io ?flat) w1 = (Inr ?flat, w2)"
    and flat: "?flat \<noteq> []" "length ?flat \<le> MAX_CHUNKS_PER_DOC"
    and rest: "bind_io (embed_chunks env ?flat) (\<lambda>emb.
       bind_io (map_io (build_point env t b d (source_of body hash) emb) (enum_list ?flat)) (\<lambda>points.
       seq_io (when_io rep (clear_document env t b d))
      (seq_io (write_points env d n points)
      (seq_io (timer env ''doc_save'' (save_document env t b d body bt hash (length points)))
      (return_io \<lparr>ur_doc_id = d, ur_chunks_created = length points,
         ur_items_processed = length (bd_items body), ur_collection_name = n,
         ur_status = (if rep then ''replaced'' else ''created'')\<rparr>))))) w2 = (Inr res, w')"
    by (elim bind_io_InrE) (auto dest!: chunk_timerE(1) split: if_splits)
  from rest obtain emb w3 ps w4 w5 w6 w7 u where
    3: "embed_chunks env ?flat w2 = (Inr emb, w3)" and
    4: "map_io (build_point env t b d (source_of body hash) emb) (enum_list ?flat) w3 = (Inr ps, w4)" and
    5: "when_io rep (clear_document env t b d) w4 = (Inr u, w5)" and
    6: "write_points env d n ps w5 = (Inr (), w6)" and
    7: "timer env ''doc_save'' (save_document env t b d body bt hash (length ps)) w6 = (Inr (), w7)" and
    8: "w' = w7" "res = \<lparr>ur_doc_id = d, ur_chunks_created = length ps,
         ur_items_processed = length (bd_items body), ur_collection_name = n,
         ur_status = (if rep then ''replaced'' else ''created'')\<rparr>"
    by (elim bind_io_InrE seq_io_InrE) auto
  note e1 = ensure_collectionE [OF 1] and e2 = chunk_timerE [OF 2] and e3 = embed_chunksE [OF 3]
    and e4 = build_pointsE [OF 4] and e6 = write_pointsE [OF 6] and e7 = save_documentE [OF 7]
  have e5: "w_db w5 = w_db w4" "\<exists>k. if rep then delete_by_doc_id (e_client env) t b d (w_store w4) = (Inr k, w_store w5)
      else w_store w5 = w_store w4"
    using 5 clear_documentE [of env t b d w4 u w5] by (auto split: if_splits)
  from e5(2) obtain k where k: "if rep then delete_by_doc_id (e_client env) t b d (w_store w4) = (Inr k, w_store w5)
      else w_store w5 = w_store w4" by blast
  from e7(2) obtain raw now where raw: "json_of_body body = Inr raw"
    "update_or_create_doc now (document_row t b d body bt hash (length ps) raw) (w_db w6) = (Inr (), w_db w7)"
    by blast
  show ?thesis
    unfolding fresh_done_def
    by (rule exI [of _ ps], rule exI [of _ n], rule exI [of _ "w_store w1"], rule exI [of _ "w_store w5"],
      rule exI [of _ emb], rule exI [of _ raw], rule exI [of _ now], rule exI [of _ k])
      (use e1 e2 e3 e4 e5(1) e6 e7(1) 8 flat k raw in \<open>cases rep; simp\<close>)
qed

lemma find_doc_cong: "db_docs db = db_docs db' \<Longrightarrow> find_doc d db = find_doc d db'"
  by (simp add: find_doc_def)

text \<open>The rows of tenant and bot are there before anything else happens.\<close>

definition rows_ready :: "string \<Rightarrow> string \<Rightarrow> bot_row \<Rightarrow> 'q world \<Rightarrow> 'q world \<Rightarrow> bool" where
  "rows_ready t b bt w w0 \<longleftrightarrow> db_docs (w_db w0) = db_docs (w_db w) \<and> w_store w0 = w_store w \<and>
     bt \<in> set (db_bots (w_db w0)) \<and> bt_tenant_id bt = t \<and> bt_bot_id bt = b"

lemma rows_readyI:
  assumes tn: "tenant_of env t w = (Inr tn, w1)" and bt: "bot_of env tn b w1 = (Inr bt, w2)"
  shows "rows_ready t b bt w w2"
proof -
  have "db_docs (w_db w2) = db_docs (w_db w)" and "w_store w2 = w_store w"
    using frameD [OF frame_docs_stages(1) tn] frameD [OF frame_docs_stages(2) bt]
      frameD [OF frame_store_stages(4) tn] frameD [OF frame_store_stages(5) bt] by simp_all
  moreover have "tn_tenant_id tn = t"
    using tn unfolding tenant_of_def by (auto elim!: bind_io_InrE on_dbE dest!: get_or_create_tenant_row)
  moreover have "bt \<in> set (db_bots (w_db w2)) \<and> bt_tenant_id bt = tn_tenant_id tn \<and> bt_bot_id bt = b"
    using bt unfolding bot_of_def by (auto elim!: bind_io_InrE on_dbE dest!: get_or_create_bot_row)
  ultimately show ?thesis by (simp add: rows_ready_def)
qed

definition unchanged_row :: "string \<Rightarrow> string \<Rightarrow> string \<Rightarrow> string \<Rightarrow> doc_row \<Rightarrow> database \<Rightarrow> bool" where
  "unchanged_row t b d hash r db \<longleftrightarrow>
     (find_doc d db = Some r \<and> \<not> foreign t b r \<and> 0 < dc_chunk_count r \<and> dc_content_hash r = hash) \<or>
     content_match t b hash d db = Some r"

lemma unchanged_rowD:
  assumes "unchanged_row t b d hash r db"
  shows "r \<in> set (db_docs db) \<and> dc_tenant_id r = t \<and> dc_bot_id r = b \<and> dc_content_hash r = hash \<and> 0 < dc_chunk_count r"
  using assms by (auto simp: unchanged_row_def foreign_def same_content_def dest!: find_docD content_matchD)

lemma upload_deduplicated_cases:
  fixes env :: "'q env" and body :: upload_body
  defines "hash \<equiv> incoming_hash (e_sha256 env) body"
  assumes mine: "\<forall>r. find_doc d (w_db w) = Some r \<longrightarrow> \<not> foreign t b r"
  shows "(\<exists>r. unchanged_row t b d hash r (w_db w) \<and>
      upload_deduplicated env t b d body bt (find_doc d (w_db w)) w = upload_no_change env t b r w) \<or>
    (content_match t b hash d (w_db w) = None \<and>
      (\<forall>r. find_doc d (w_db w) = Some r \<longrightarrow> dc_chunk_count r = 0 \<or> dc_content_hash r \<noteq> hash) \<and>
      upload_deduplicated env t b d body bt (find_doc d (w_db w)) w
        = upload_fresh env t b d body bt hash (find_doc d (w_db w) \<noteq> None) w)"
proof (cases "content_match t b hash d (w_db w)")
  case None
  then show ?thesis using mine
    by (cases "find_doc d (w_db w)")
      (auto simp: upload_deduplicated_def unchanged_row_def hash_def [symmetric])
next
  case (Some r)
  then show ?thesis using mine
    by (cases "find_doc d (w_db w)")
      (auto simp: upload_deduplicated_def unchanged_row_def hash_def [symmetric])
qed

definition content_unknown :: "string \<Rightarrow> string \<Rightarrow> string \<Rightarrow> string \<Rightarrow> database \<Rightarrow> bool" where
  "content_unknown t b d hash db \<longleftrightarrow> content_match t b hash d db = None \<and>
     (\<forall>r. find_doc d db = Some r \<longrightarrow> dc_chunk_count r = 0 \<or> dc_content_hash r \<noteq> hash)"

lemma upload_lockedE:
  fixes env :: "'q env" and body :: upload_body
  defines "hash \<equiv> incoming_hash (e_sha256 env) body"
  assumes "upload_locked env t b d body w = (Inr res, w')"
  shows "\<exists>w0 bt. rows_ready t b bt w w0 \<and> (\<forall>r. find_doc d (w_db w) = Some r \<longrightarrow> \<not> foreign t b r) \<and>
    ((\<exists>r. unchanged_row t b d hash r (w_db w0) \<and> upload_no_change env t b r w0 = (Inr res, w')) \<or>
     (content_unknown t b d hash (w_db w0) \<and>
      upload_fresh env t b d body bt hash (find_doc d (w_db w) \<noteq> None) w0 = (Inr res, w')))"
proof -
  from assms(2) obtain tn w1 bt w2 where tn: "tenant_of env t w = (Inr tn, w1)"
    and bt: "bot_of env tn b w1 = (Inr bt, w2)"
    and rest: "(case find_doc d (w_db w2) of
       Some r \<Rightarrow> if foreign t b r then raise_io (collision_error d t (dc_tenant_id r))
         else upload_deduplicated env t b d body bt (find_doc d (w_db w2))
     | None \<Rightarrow> upload_deduplicated env t b d body bt (find_doc d (w_db w2))) w2 = (Inr res, w')"
    unfolding upload_locked_def by (auto elim!: bind_io_InrE)
  have ready: "rows_ready t b bt w w2" using tn bt by (rule rows_readyI)
  then have same: "find_doc d (w_db w2) = find_doc d (w_db w)"
    by (intro find_doc_cong) (simp add: rows_ready_def)
  have mine: "\<forall>r. find_doc d (w_db w2) = Some r \<longrightarrow> \<not> foreign t b r"
    and run: "upload_deduplicated env t b d body bt (find_doc d (w_db w2)) w2 = (Inr res, w')"
    using rest by (auto split: option.splits if_splits)
  from upload_deduplicated_cases [OF mine, of env body bt] run ready mine show ?thesis
    unfolding hash_def content_unknown_def
    by (intro exI [of _ w2] exI [of _ bt] conjI) (auto simp: same)
qed

lemma upload_no_changeE:
  assumes "upload_no_change env t b r w = (Inr res, w')"
  shows "w_store w' = w_store w" and "collection_name t b = Inr (ur_collection_name res)"
    and "\<exists>now. refresh_doc now (dc_doc_id r) (w_db w) = (Inr (), w_db w')"
    and "ur_doc_id res = dc_doc_id r" and "ur_chunks_created res = dc_chunk_count r"
    and "ur_items_processed res = dc_item_count r" and "ur_status res = ''no_change''"
  using assms frameD [OF frame_store_stages(3) assms] unfolding upload_no_change_def wall_clock_def
  by (auto elim!: bind_io_InrE seq_io_InrE on_dbE) (rule exI, assumption)

lemma fresh_doneD:
  assumes "fresh_done env t b d body bt hash rep res ps w w'"
  shows "ur_status res = (if rep then ''replaced'' else ''created'')" and "ur_doc_id res = d"
    and "ur_chunks_created res = length ps" and "ur_items_processed res = length (bd_items body)"
    and "collection_name t b = Inr (ur_collection_name res)" and "bd_doc_id body = None"
  using assms get_or_create_collection_name [of "e_client env" t b "w_store w"]
  by (auto simp: fresh_done_def json_of_body_def split: if_splits)

text \<open>The same through the lock: what a completed upload did to the world.\<close>

lemma upload_executeE:
  fixes env :: "'q env" and body :: upload_body
  defines "hash \<equiv> incoming_hash (e_sha256 env) body"
  assumes "upload_execute env t b d body w = (Inr res, w')"
  shows "\<exists>w0 bt w1. rows_ready t b bt w w0 \<and> (\<forall>r. find_doc d (w_db w) = Some r \<longrightarrow> \<not> foreign t b r) \<and>
    w_db w' = w_db w1 \<and> w_store w' = w_store w1 \<and>
    ((\<exists>r. unchanged_row t b d hash r (w_db w0) \<and> upload_no_change env t b r w0 = (Inr res, w1)) \<or>
     (\<exists>ps. content_unknown t b d hash (w_db w0) \<and>
        fresh_done env t b d body bt hash (find_doc d (w_db w) \<noteq> None) res ps w0 w1))"
proof -
  from upload_guard.guard_cases [OF assms(2) [unfolded upload_execute_def]]
  obtain wi wl where wi: "idled w wi" and run: "upload_locked env t b d body (enter_lock env t b d wi) = (Inr res, wl)"
    and w': "w' = leave_lock env t b d wl" by auto
  note same = settled_enter [OF wi, of env t b d]
  from upload_lockedE [OF run] obtain w0 bt where ready: "rows_ready t b bt (enter_lock env t b d wi) w0"
    and mine: "\<forall>r. find_doc d (w_db w) = Some r \<longrightarrow> \<not> foreign t b r"
    and cases: "(\<exists>r. unchanged_row t b d hash r (w_db w0) \<and> upload_no_change env t b r w0 = (Inr res, wl)) \<or>
     (content_unknown t b d hash (w_db w0) \<and>
      upload_fresh env t b d body bt hash (find_doc d (w_db w) \<noteq> None) w0 = (Inr res, wl))"
    using same by (auto simp: hash_def)
  have "rows_ready t b bt w w0" using ready same by (simp add: rows_ready_def)
  with mine cases w' show ?thesis
    by (intro exI [of _ w0] exI [of _ bt] exI [of _ wl]) (auto dest: upload_freshE)
qed

section \<open>Properties of completed uploads\<close>

text \<open>The stored points of a document in a collection.\<close>

definition doc_points :: "('q \<Rightarrow> string \<Rightarrow> coll option) \<Rightarrow> 'q \<Rightarrow> string \<Rightarrow> string \<Rightarrow> point set" where
  "doc_points view q n d = {p. \<exists>i. stored_by view q n i = Some p \<and> of_doc d p}"

lemma fresh_points:
  fixes env :: "'q env"
  assumes api: "qdrant_api (e_client env) view"
    and fresh: "fresh_done env t b d body bt hash rep res ps w w'"
    and ids: "inj_on (e_uuid5_oid env) (chunk_ids env d body)"
    and new: "\<not> rep \<Longrightarrow> doc_points view (w_store w) (ur_collection_name res) d = {}"
  shows "doc_points view (w_store w') (ur_collection_name res) d = set ps"
proof -
  from fresh obtain n q1 q2 emb k where
    create: "get_or_create_collection (e_client env) t b (w_store w) = (Inr n, q1)" and
    del: "if rep then delete_by_doc_id (e_client env) t b d q1 = (Inr k, q2) else q2 = q1" and
    ups: "upsert_points (e_client env) n ps q2 = (Inr (), w_store w')" and
    pts: "list_all2 (point_for env t b d (source_of body hash) emb) (enum_list (flat_chunks env body)) ps" and
    name: "ur_collection_name res = n"
    unfolding fresh_done_def by auto
  note store = qdrant_api.is_chunk_store [OF api]
  have dist: "distinct (map p_id ps)" using pts ids by (rule points_distinct)
  have mine: "of_doc d p" if "p \<in> set ps" for p
    using pts that point_for_doc by (metis in_set_conv_nth list_all2_conv_all_nth)
  show ?thesis
  proof (cases rep)
    case True
    with del have "delete_by_doc_id (e_client env) t b d q1 = (Inr k, q2)" by simp
    from chunk_store.replace_points [OF store this get_or_create_collection_name [OF create] ups dist mine]
    show ?thesis by (simp add: doc_points_def name)
  next
    case False
    with del have "q2 = q1" by simp
    moreover have "stored_by view q1 = stored_by view (w_store w)"
      using create by (rule chunk_store.create_stored [OF store])
    ultimately have "\<not> of_doc d p" if "stored_by view q2 n i = Some p" for i p
      using new [OF False] that by (auto simp: doc_points_def name)
    from chunk_store.first_points [OF store this ups dist mine]
    show ?thesis by (simp add: doc_points_def name)
  qed
qed

lemma fresh_row:
  assumes "fresh_done env t b d body bt hash rep res ps w w'"
  shows "\<exists>r. find_doc d (w_db w') = Some r \<and> dc_tenant_id r = t \<and> dc_bot_id r = b \<and>
    dc_content_hash r = hash \<and> dc_chunk_count r = length ps \<and> dc_item_count r = length (bd_items body) \<and>
    dc_status r = ACTIVE \<and> dc_error_message r = None"
proof -
  from assms obtain raw now where
    "update_or_create_doc now (document_row t b d body bt hash (length ps) raw) (w_db w) = (Inr (), w_db w')"
    unfolding fresh_done_def by blast
  from update_or_create_doc_found [OF this, of d] show ?thesis by (simp add: document_row_def)
qed

lemma upload_stored:
  fixes env :: "'q env"
  assumes api: "qdrant_api (e_client env) view"
    and run: "upload_execute env t b d body w = (Inr res, w')"
    and fresh: "ur_status res \<noteq> ''no_change''"
    and ids: "inj_on (e_uuid5_oid env) (chunk_ids env d body)"
    and new: "find_doc d (w_db w) = None \<Longrightarrow> doc_points view (w_store w) (ur_collection_name res) d = {}"
  shows "\<exists>ps emb. collection_name t b = Inr (ur_collection_name res) \<and>
    doc_points view (w_store w') (ur_collection_name res) d = set ps \<and>
    list_all2 (point_for env t b d (source_of body (incoming_hash (e_sha256 env) body)) emb)
      (enum_list (flat_chunks env body)) ps \<and>
    1 \<le> length ps \<and> length ps \<le> 5000 \<and>
    ur_doc_id res = d \<and> ur_chunks_created res = length ps \<and>
    ur_status res = (if find_doc d (w_db w) = None then ''created'' else ''replaced'') \<and>
    (\<exists>r. find_doc d (w_db w') = Some r \<and> dc_tenant_id r = t \<and> dc_bot_id r = b \<and> dc_status r = ACTIVE \<and>
       dc_content_hash r = incoming_hash (e_sha256 env) body \<and> dc_chunk_count r = length ps)"
proof -
  from upload_executeE [OF run] fresh obtain w0 bt w1 ps where
    ready: "rows_ready t b bt w w0" and same: "w_db w' = w_db w1" "w_store w' = w_store w1" and
    outcome: "fresh_done env t b d body bt (incoming_hash (e_sha256 env) body)
      (find_doc d (w_db w) \<noteq> None) res ps w0 w1"
    by (auto dest: upload_no_changeE)
  have new0: "\<not> find_doc d (w_db w) \<noteq> None \<Longrightarrow> doc_points view (w_store w0) (ur_collection_name res) d = {}"
    using new ready by (simp add: rows_ready_def)
  from fresh_points [OF api outcome ids new0] have "doc_points view (w_store w') (ur_collection_name res) d = set ps"
    by (simp add: same)
  moreover from outcome obtain emb where
    pts: "list_all2 (point_for env t b d (source_of body (incoming_hash (e_sha256 env) body)) emb)
      (enum_list (flat_chunks env body)) ps" and
    "flat_chunks env body \<noteq> []" "length (flat_chunks env body) \<le> MAX_CHUNKS_PER_DOC"
    unfolding fresh_done_def by blast
  moreover from list_all2_lengthD [OF pts] have "length (flat_chunks env body) = length ps" by simp
  ultimately show ?thesis
    using fresh_doneD [OF outcome] fresh_row [OF outcome] same
    by (intro exI [of _ ps] exI [of _ emb]) (auto simp: MAX_CHUNKS_PER_DOC_def Suc_le_eq)
qed

text \<open>
  C2 (a completed upload). When an upload returns anything but \<open>no_change\<close>, the bot's
  collection holds for this document exactly one point per chunk of the request, in order
  and with the chunk's own text, identifiers and vectors, nothing of an earlier version and
  nothing else, at least 1 and at most 5000; the answer carries their number; and the
  document's row is active with the request's content hash and that number. The status says
  \<open>replaced\<close> exactly if the document had a row.
\<close>

theorem upload_execute_stores:
  fixes env :: "'q env"
  assumes api: "qdrant_api (e_client env) view"
    and run: "upload_execute env t b d body w = (Inr res, w')"
    and fresh: "ur_status res \<noteq> ''no_change''"
    and ids: "inj_on (e_uuid5_oid env) (chunk_ids env d body)"
    and new: "find_doc d (w_db w) = None \<Longrightarrow> doc_points view (w_store w) (ur_collection_name res) d = {}"
  shows "\<exists>ps emb. collection_name t b = Inr (ur_collection_name res) \<and>
    doc_points view (w_store w') (ur_collection_name res) d = set ps \<and>
    list_all2 (point_for env t b d (source_of body (incoming_hash (e_sha256 env) body)) emb)
      (enum_list (flat_chunks env body)) ps \<and>
    1 \<le> length ps \<and> length ps \<le> 5000 \<and>
    ur_doc_id res = d \<and> ur_chunks_created res = length ps \<and>
    ur_status res = (if find_doc d (w_db w) = None then ''created'' else ''replaced'') \<and>
    (\<exists>r. find_doc d (w_db w') = Some r \<and> dc_tenant_id r = t \<and> dc_bot_id r = b \<and> dc_status r = ACTIVE \<and>
       dc_content_hash r = incoming_hash (e_sha256 env) body \<and> dc_chunk_count r = length ps)"
  using assms by (rule upload_stored)

lemma upload_unchanged:
  fixes env :: "'q env"
  assumes run: "upload_execute env t b d body w = (Inr res, w')" and "ur_status res = ''no_change''"
  shows "w_store w' = w_store w \<and>
    (\<exists>r now. r \<in> set (db_docs (w_db w)) \<and> dc_tenant_id r = t \<and> dc_bot_id r = b \<and>
       dc_content_hash r = incoming_hash (e_sha256 env) body \<and> 0 < dc_chunk_count r \<and>
       ur_doc_id res = dc_doc_id r \<and> ur_chunks_created res = dc_chunk_count r \<and>
       ur_items_processed res = dc_item_count r \<and>
       db_docs (w_db w') = map (\<lambda>x. if dc_doc_id x = dc_doc_id r then x\<lparr>dc_last_refreshed_at := now\<rparr> else x)
         (db_docs (w_db w)))"
proof -
  from upload_executeE [OF run] assms(2) obtain w0 bt w1 r where
    ready: "rows_ready t b bt w w0" and same: "w_db w' = w_db w1" "w_store w' = w_store w1" and
    row: "unchanged_row t b d (incoming_hash (e_sha256 env) body) r (w_db w0)" and
    nc: "upload_no_change env t b r w0 = (Inr res, w1)"
    by (auto dest: fresh_doneD(1) split: if_splits)
  note nc' = upload_no_changeE [OF nc]
  from nc'(3) obtain now where "refresh_doc now (dc_doc_id r) (w_db w0) = (Inr (), w_db w1)" ..
  from update_doc_cases [OF this [unfolded refresh_doc_def]]
  have "db_docs (w_db w1) = map (\<lambda>x. if dc_doc_id x = dc_doc_id r then x\<lparr>dc_last_refreshed_at := now\<rparr> else x)
      (db_docs (w_db w0))" by auto
  with nc' unchanged_rowD [OF row] ready same show ?thesis
    by (intro conjI exI [of _ r] exI [of _ now]) (simp_all add: rows_ready_def)
qed

text \<open>
  An upload that changes nothing. The answer \<open>no_change\<close> is only given on the strength
  of a row of the same bot with the same content hash and at least one chunk: the answer
  names that document and its counts. The vector database is not even called, and the only
  thing written is when that row was last refreshed.
\<close>

theorem upload_no_change_correct:
  fixes env :: "'q env"
  assumes run: "upload_execute env t b d body w = (Inr res, w')" and "ur_status res = ''no_change''"
  shows "w_store w' = w_store w \<and>
    (\<exists>r now. r \<in> set (db_docs (w_db w)) \<and> dc_tenant_id r = t \<and> dc_bot_id r = b \<and>
       dc_content_hash r = incoming_hash (e_sha256 env) body \<and> 0 < dc_chunk_count r \<and>
       ur_doc_id res = dc_doc_id r \<and> ur_chunks_created res = dc_chunk_count r \<and>
       ur_items_processed res = dc_item_count r \<and>
       db_docs (w_db w') = map (\<lambda>x. if dc_doc_id x = dc_doc_id r then x\<lparr>dc_last_refreshed_at := now\<rparr> else x)
         (db_docs (w_db w)))"
  using assms by (rule upload_unchanged)

section \<open>Properties of failing and refused uploads\<close>

lemma upload_no_change_run:
  assumes "upload_no_change env t b r w = (res, w')" and "collection_name t b = Inr n"
  shows "(\<exists>x. res = Inr x) \<or> db_docs (w_db w') = db_docs (w_db w)"
  using assms unfolding upload_no_change_def refresh_doc_def wall_clock_def
  by (auto simp: bind_io_def seq_io_def on_db_def on_part_def split: prod.splits sum.splits dest!: update_doc_cases)

text \<open>The triple for "an exception leaves the document rows as they were".\<close>

abbreviation docs_are :: "doc_row list \<Rightarrow> 'q world \<Rightarrow> bool" where
  "docs_are ds w \<equiv> db_docs (w_db w) = ds"

lemma triple_docs_frame:
  "frame (\<lambda>w. db_docs (w_db w)) m \<Longrightarrow> triple (docs_are ds) m (\<lambda>_. docs_are ds) (\<lambda>_. docs_are ds)"
  by (rule triple_frame)

lemma frame_docs_of_db: "frame w_db m \<Longrightarrow> frame (\<lambda>w. db_docs (w_db w)) m"
  by (simp add: frame_def)

lemma triple_update_or_create: "triple (\<lambda>db. db_docs db = ds) (update_or_create_doc now r) (\<lambda>_ _. True) (\<lambda>_ db. db_docs db = ds)"
  by (rule tripleI) (auto dest!: update_or_create_doc_cases)

lemma triple_on_db:
  assumes "triple P m Q E"
  shows "triple (\<lambda>w. P (w_db w)) (on_db m) (\<lambda>x w. Q x (w_db w)) (\<lambda>e w. E e (w_db w))"
  by (rule tripleI) (auto elim!: on_dbE dest: triple_InrD [OF assms] triple_InlD [OF assms])

lemma save_document_docs:
  "triple (docs_are ds) (save_document env t b d body bt h k) (\<lambda>_ _. True) (\<lambda>_. docs_are ds)"
  unfolding save_document_def
  by (rule triple_bind [where R = "\<lambda>_. docs_are ds"], rule triple_docs_frame, intro frame_intro,
      rule triple_bind [where R = "\<lambda>_. docs_are ds"], rule triple_docs_frame, intro frame_docs_of_db frame_intro,
      rule triple_on_db [OF triple_update_or_create])

lemma timed_save_document_docs:
  "triple (docs_are ds) (timer env ph (save_document env t b d body bt h k)) (\<lambda>_ _. True) (\<lambda>_. docs_are ds)"
  by (rule triple_timer [OF save_document_docs]) simp_all

lemma point_ids:
  assumes "list_all2 (point_for env t b d source emb) (enum_list (flat_chunks env body)) ps"
  shows "p_id ` set ps \<subseteq> e_uuid5_oid env ` chunk_ids env d body"
proof
  fix i assume "i \<in> p_id ` set ps"
  then obtain k where k: "k < length ps" "i = p_id (ps ! k)" by (auto simp: in_set_conv_nth)
  with assms have k': "k < length (flat_chunks env body)" by (simp add: list_all2_conv_all_nth)
  obtain idx it c where x: "flat_chunks env body ! k = (idx, it, c)" by (cases "flat_chunks env body ! k") auto
  from list_all2_nthD2 [OF assms k(1)] k' x have "p_id (ps ! k) = e_uuid5_oid env (build_chunk_id d idx (c_index c))"
    by (simp add: point_for_def)
  moreover have "(idx, it, c) \<in> set (flat_chunks env body)" using k' x by (metis nth_mem)
  then have "build_chunk_id d idx (c_index c) \<in> chunk_ids env d body"
    by (force simp: chunk_ids_def chunk_id_of_def)
  ultimately show "i \<in> e_uuid5_oid env ` chunk_ids env d body" using k(2) by blast
qed

text \<open>
  The stages of a fresh upload composed once: what every stage before the last preserves, an
  exception preserves, and what saving the row guarantees, the upload guarantees.
\<close>

lemma triple_upload_fresh:
  assumes ensure: "keeps I (ensure_collection env t b)"
    and embed: "\<And>flat. keeps I (embed_chunks env flat)"
    and ticks: "\<And>w. I w \<Longrightarrow> I (w\<lparr>w_tick := Suc (w_tick w)\<rparr>)"
    and timed: "\<And>x :: (nat \<times> upload_item \<times> chunk) list. keeps I (timer env ''chunk'' (return_io x))"
    and clear: "keeps I (clear_document env t b d)"
    and upserts: "\<And>n ps. collection_name t b = Inr n \<Longrightarrow> p_id ` set ps \<subseteq> e_uuid5_oid env ` chunk_ids env d body \<Longrightarrow> ps \<noteq> [] \<Longrightarrow>
      keeps I (write_points env d n ps)"
    and save: "\<And>k. 0 < k \<Longrightarrow> triple I (timer env ''doc_save'' (save_document env t b d body bt h k)) (\<lambda>_. Q) (\<lambda>_. I)"
  shows "triple I (upload_fresh env t b d body bt h rep) (\<lambda>_. Q) (\<lambda>_. I)"
proof -
  let ?flat = "flat_chunks env body"
  have build_one: "keeps I (build_point env t b d (source_of body h) emb x)" for emb x
  proof -
    have "keeps I (tick f)" for f :: "nat \<Rightarrow> string" by (rule keepsI) (auto dest: ticks)
    then show ?thesis
      by (cases x) (auto simp: build_point_def Let_def intro!: keeps_intro)
  qed
  have build: "triple I (map_io (build_point env t b d (source_of body h) emb) (enum_list ?flat))
      (\<lambda>ps w. I w \<and> p_id ` set ps \<subseteq> e_uuid5_oid env ` chunk_ids env d body \<and> length ps = length ?flat) (\<lambda>_. I)" for emb
  proof (rule tripleI)
    fix w ps w' assume I: "I w" and run: "map_io (build_point env t b d (source_of body h) emb) (enum_list ?flat) w = (Inr ps, w')"
    from build_pointsE(1) [OF run] have "list_all2 (point_for env t b d (source_of body h) emb) (enum_list ?flat) ps" .
    from point_ids [OF this] list_all2_lengthD [OF this] keepsD [OF keeps_map [OF build_one] I run]
    show "I w' \<and> p_id ` set ps \<subseteq> e_uuid5_oid env ` chunk_ids env d body \<and> length ps = length ?flat" by simp
  qed (auto dest: keepsD [OF keeps_map [OF build_one]])
  have tail: "triple (\<lambda>w. I w \<and> p_id ` set ps \<subseteq> e_uuid5_oid env ` chunk_ids env d body \<and> length ps = length ?flat)
      (seq_io (when_io rep (clear_document env t b d)) (seq_io (write_points env d n ps)
        (seq_io (timer env ''doc_save'' (save_document env t b d body bt h (length ps))) (return_io res))))
      (\<lambda>_. Q) (\<lambda>_. I)" if "?flat \<noteq> []" and "collection_name t b = Inr n" for ps n and res :: upload_result
  proof (cases "p_id ` set ps \<subseteq> e_uuid5_oid env ` chunk_ids env d body \<and> length ps = length ?flat")
    case True
    then have ne: "ps \<noteq> []" using that by auto
    have 1: "triple I (when_io rep (clear_document env t b d)) (\<lambda>_. I) (\<lambda>_. I)"
      by (intro triple_keeps keeps_when clear)
    have 2: "triple I (write_points env d n ps) (\<lambda>_. I) (\<lambda>_. I)"
      using True ne that by (intro triple_keeps upserts) simp_all
    have 3: "triple Q (return_io res) (\<lambda>_. Q) (\<lambda>_. I)" by (rule triple_return)
    have "triple I (seq_io (when_io rep (clear_document env t b d)) (seq_io (write_points env d n ps)
        (seq_io (timer env ''doc_save'' (save_document env t b d body bt h (length ps))) (return_io res))))
      (\<lambda>_. Q) (\<lambda>_. I)"
      using ne by (intro triple_seq [OF 1] triple_seq [OF 2] triple_seq [OF save 3]) simp
    then show ?thesis by (rule triple_weaken) auto
  qed (auto simp: triple_def)
  let ?rest = "\<lambda>n flat. if flat = [] then raise_io (Upload (NoEmbeddableContentError
         ''No chunks survived after chunking.'' [(''items_count'', JInt (int (length (bd_items body))))]))
       else if MAX_CHUNKS_PER_DOC < length flat then raise_io (Upload (DocumentTooLargeError
         (''Document produces '' @ show_nat (length flat) @ '' chunks, max is '' @ show_nat MAX_CHUNKS_PER_DOC)
         [(''chunk_count'', JInt (int (length flat))), (''max'', JInt (int MAX_CHUNKS_PER_DOC))]))
       else bind_io (embed_chunks env flat) (\<lambda>emb.
         bind_io (map_io (build_point env t b d (source_of body h) emb) (enum_list flat)) (\<lambda>points.
         seq_io (when_io rep (clear_document env t b d))
        (seq_io (write_points env d n points)
        (seq_io (timer env ''doc_save'' (save_document env t b d body bt h (length points)))
        (return_io \<lparr>ur_doc_id = d, ur_chunks_created = length points,
           ur_items_processed = length (bd_items body), ur_collection_name = n,
           ur_status = (if rep then ''replaced'' else ''created'')\<rparr>)))))"
  have rest: "triple I (?rest n ?flat) (\<lambda>_. Q) (\<lambda>_. I)" if "collection_name t b = Inr n" for n
    by (rule triple_if, rule triple_raise, assumption, rule triple_if, rule triple_raise, assumption,
        rule triple_bind [OF triple_keeps [OF embed]], rule triple_bind [OF build], rule tail,
        assumption, rule that)
  have chunked: "triple I (timer env ''chunk'' (return_io ?flat)) (\<lambda>flat w. I w \<and> flat = ?flat) (\<lambda>_. I)"
    by (rule tripleI) (blast dest: chunk_timerE(1) keepsD [OF timed])+
  have named: "triple I (ensure_collection env t b) (\<lambda>n w. I w \<and> collection_name t b = Inr n) (\<lambda>_. I)"
    by (rule tripleI)
      (blast dest: ensure_collectionE(1) [THEN get_or_create_collection_name] keepsD [OF ensure])+
  have one: "triple (\<lambda>w. I w \<and> flat = ?flat) (?rest n flat) (\<lambda>_. Q) (\<lambda>_. I)"
    if "collection_name t b = Inr n" for n flat
    using rest [OF that] by (cases "flat = ?flat") (auto simp: triple_def)
  have two: "triple (\<lambda>w. I w \<and> collection_name t b = Inr n)
      (bind_io (timer env ''chunk'' (return_io ?flat)) (?rest n)) (\<lambda>_. Q) (\<lambda>_. I)" for n
    using triple_bind [OF chunked one] by (cases "collection_name t b = Inr n") (simp_all add: triple_def)
  show ?thesis unfolding upload_fresh_def by (rule triple_bind [OF named two])
qed

subsection \<open>The document rows\<close>

lemma upload_fresh_docs:
  "triple (docs_are ds) (upload_fresh env t b d body bt h rep) (\<lambda>_ _. True) (\<lambda>_. docs_are ds)"
proof (rule triple_upload_fresh)
  have keeps: "keeps (docs_are ds) m" if "frame w_db m" for m :: "('a, 'c) action"
    using that by (rule keeps_frame [where J = "\<lambda>db. db_docs db = ds"]) simp
  show "keeps (docs_are ds) (ensure_collection env t b)" by (intro keeps frame_intro)
  show "keeps (docs_are ds) (embed_chunks env flat)" for flat by (intro keeps frame_intro)
  show "keeps (docs_are ds) (clear_document env t b d)" by (intro keeps frame_intro)
  show "keeps (docs_are ds) (write_points env d n ps)" for n ps by (intro keeps frame_intro)
  show "keeps (docs_are ds) (timer env ''chunk'' (return_io x))" for x :: "(nat \<times> upload_item \<times> chunk) list"
    by (intro keeps frame_intro) simp_all
  show "triple (docs_are ds) (timer env ''doc_save'' (save_document env t b d body bt h k))
      (\<lambda>_ _. True) (\<lambda>_. docs_are ds)" for k
    by (rule timed_save_document_docs)
qed simp

lemma triple_gets: "triple P (gets_io f) (\<lambda>x w. P w \<and> x = f w) E"
  by (simp add: triple_def)

lemma refresh_docs: "triple (\<lambda>db. db_docs db = ds) (refresh_doc now x) (\<lambda>_ _. True) (\<lambda>_ db. db_docs db = ds)"
  unfolding refresh_doc_def by (rule tripleI) (auto dest!: update_doc_cases)

lemma upload_no_change_docs:
  assumes "collection_name t b = Inr n"
  shows "triple (docs_are ds) (upload_no_change env t b r) (\<lambda>_ _. True) (\<lambda>_. docs_are ds)"
  unfolding upload_no_change_def assms of_sum_Inr bind_io_return
  by (rule triple_bind [where R = "\<lambda>_. docs_are ds"], rule triple_docs_frame, intro frame_docs_of_db frame_intro,
      rule triple_seq [where R = "\<lambda>_. True"], rule triple_on_db [OF refresh_docs], rule triple_return, simp)

lemma upload_locked_docs:
  assumes "collection_name t b = Inr n"
  shows "triple (docs_are ds) (upload_locked env t b d body) (\<lambda>_ _. True) (\<lambda>_. docs_are ds)"
proof -
  have dedup: "triple (docs_are ds) (upload_deduplicated env t b d body bt ex) (\<lambda>_ _. True) (\<lambda>_. docs_are ds)" for bt ex
    unfolding upload_deduplicated_def Let_def
  proof -
    have "triple (docs_are ds) (case m of Some r \<Rightarrow> upload_no_change env t b r
        | None \<Rightarrow> upload_fresh env t b d body bt (incoming_hash (e_sha256 env) body) (ex \<noteq> None)) (\<lambda>_ _. True) (\<lambda>_. docs_are ds)" for m
      by (cases m) (simp_all only: option.case upload_no_change_docs [OF assms] upload_fresh_docs)
    note triple_bind [OF triple_docs_frame [OF frame_gets] this]
    then show "triple (docs_are ds) (case Option.bind ex (\<lambda>r. if 0 < dc_chunk_count r \<and>
          dc_content_hash r = incoming_hash (e_sha256 env) body then Some r else None) of
        Some r \<Rightarrow> upload_no_change env t b r
      | None \<Rightarrow> bind_io (gets_io (\<lambda>w. content_match t b (incoming_hash (e_sha256 env) body) d (w_db w))) (\<lambda>match.
          case match of Some r \<Rightarrow> upload_no_change env t b r
          | None \<Rightarrow> upload_fresh env t b d body bt (incoming_hash (e_sha256 env) body) (ex \<noteq> None)))
      (\<lambda>_ _. True) (\<lambda>_. docs_are ds)"
      by (cases "Option.bind ex (\<lambda>r. if 0 < dc_chunk_count r \<and>
          dc_content_hash r = incoming_hash (e_sha256 env) body then Some r else None)")
        (simp_all only: option.case upload_no_change_docs [OF assms])
  qed
  show ?thesis
    unfolding upload_locked_def
    by (rule triple_bind [OF triple_docs_frame], intro frame_intro,
        rule triple_bind [OF triple_docs_frame], intro frame_intro,
        rule triple_bind [OF triple_docs_frame], intro frame_intro)
      (auto split: option.split intro!: dedup triple_raise)
qed

lemma advisory_lock_key_names: "advisory_lock_key sha t b d = Inr key \<Longrightarrow> \<exists>n. collection_name t b = Inr n"
  by (auto simp: advisory_lock_key_def and_then_Inr_iff collection_name_Inr)

lemma guard_cases_key:
  assumes "upload_lock env t b d m w = (r, w')"
  shows "(\<exists>e. r = Inl e \<and> lock_refused env t b d e \<and> idled w w') \<or>
    (\<exists>key w1 w2. advisory_lock_key (e_sha256 env) t b d = Inr key \<and> idled w w1 \<and>
       m (locked key w1) = (r, w2) \<and> w' = unlocked key w2)"
proof (cases "advisory_lock_key (e_sha256 env) t b d")
  case (Inl e)
  with assms show ?thesis by (auto simp: upload_lock_def lock_refused_def)
next
  case (Inr key)
  from upload_guard.guard_cases [OF assms] Inr show ?thesis
    by (simp add: enter_lock_def leave_lock_def)
qed

text \<open>
  C5 (a failed upload leaves no trace in the table). Whatever the upload raises, at whatever
  stage, every document row is as it was, including the row it was to replace.
\<close>

theorem upload_failure_keeps_rows:
  "\<exists>r w'. upload_execute env t b d body w = (r, w') \<and>
     ((\<exists>res. r = Inr res) \<or> db_docs (w_db w') = db_docs (w_db w))"
proof -
  obtain r w' where run: "upload_execute env t b d body w = (r, w')" by (metis prod.collapse)
  have "db_docs (w_db w') = db_docs (w_db w)" if "r = Inl e" for e
    using guard_cases_key [OF run [unfolded upload_execute_def]]
  proof (elim disjE exE conjE)
    assume "idled w w'"
    then show ?thesis by (simp add: idled_same)
  next
    fix key w1 w2 assume key: "advisory_lock_key (e_sha256 env) t b d = Inr key" and "idled w w1"
      and body: "upload_locked env t b d body (locked key w1) = (r, w2)" and w': "w' = unlocked key w2"
    obtain n where "collection_name t b = Inr n" using advisory_lock_key_names [OF key] by blast
    from triple_InlD [OF upload_locked_docs [OF this] _ body [unfolded that]] \<open>idled w w1\<close>
    show ?thesis by (simp add: w' locked_def unlocked_def idled_same)
  qed
  then show ?thesis using run by (cases r) auto
qed

subsection \<open>Other documents' points\<close>

text \<open>
  Every stored point is as before, unless it is in the bot's own collection and either has an
  id of a chunk of this request or belonged to the document.
\<close>

definition untouched ::
  "('q \<Rightarrow> string \<Rightarrow> coll option) \<Rightarrow> string \<Rightarrow> string \<Rightarrow> string \<Rightarrow> string set \<Rightarrow> 'q \<Rightarrow> 'q world \<Rightarrow> bool" where
  "untouched view t b d ids q0 w \<longleftrightarrow> (\<forall>m i.
     stored_by view (w_store w) m i = stored_by view q0 m i \<or>
     (collection_name t b = Inr m \<and> (i \<in> ids \<or> (\<exists>p. stored_by view q0 m i = Some p \<and> of_doc d p))))"

lemma untouched_cong: "w_store w = w_store w' \<Longrightarrow> untouched view t b d ids q0 w = untouched view t b d ids q0 w'"
  by (simp add: untouched_def)

lemma keeps_untouched_frame: "frame w_store m \<Longrightarrow> keeps (untouched view t b d ids q0) m"
  by (rule keepsI) (metis frameD untouched_cong)

lemma keeps_untouched_store:
  assumes "\<And>q r q' i m. f q = (r, q') \<Longrightarrow> stored_by view q' m i = stored_by view q m i \<or>
    (collection_name t b = Inr m \<and> (i \<in> ids \<or> (\<exists>p. stored_by view q m i = Some p \<and> of_doc d p)))"
  shows "keeps (untouched view t b d ids q0) (on_store f)"
proof (rule keepsI)
  fix w r w' assume I: "untouched view t b d ids q0 w" and "on_store f w = (r, w')"
  then obtain q where q: "f (w_store w) = (r, q)" and w': "w' = w\<lparr>w_store := q\<rparr>" by (auto elim: on_storeE)
  show "untouched view t b d ids q0 w'"
    unfolding untouched_def w'
  proof (intro allI)
    fix m i
    from assms [OF q, of m i] I [unfolded untouched_def, rule_format, of m i]
    show "stored_by view (w_store (w\<lparr>w_store := q\<rparr>)) m i = stored_by view q0 m i \<or>
      (collection_name t b = Inr m \<and> (i \<in> ids \<or> (\<exists>p. stored_by view q0 m i = Some p \<and> of_doc d p)))"
      by auto
  qed
qed

lemma untouched_pass [simp]:
  "untouched view t b d ids q0 (pass_time env n w) = untouched view t b d ids q0 w"
  "untouched view t b d ids q0 (w\<lparr>w_phases := ph\<rparr>) = untouched view t b d ids q0 w"
  "untouched view t b d ids q0 (w\<lparr>w_tick := k\<rparr>) = untouched view t b d ids q0 w"
  by (simp_all add: untouched_def)

lemma keeps_untouched_upload_fresh:
  fixes env :: "'q env"
  assumes api: "qdrant_api (e_client env) view" and name: "collection_name t b = Inr n"
  shows "keeps (untouched view t b d (e_uuid5_oid env ` chunk_ids env d body) q0)
    (upload_fresh env t b d body bt h rep)"
proof -
  let ?I = "untouched view t b d (e_uuid5_oid env ` chunk_ids env d body) q0"
  note store = qdrant_api.is_chunk_store [OF api]
  have ensure: "keeps ?I (ensure_collection env t b)"
    unfolding ensure_collection_def
    by (intro keeps_intro keeps_untouched_store untouched_pass)
      (auto dest: chunk_store.create_stored [OF store])
  have del: "keeps ?I (on_store (delete_by_doc_id (e_client env) t b d))"
    by (rule keeps_untouched_store) (use chunk_store.delete_stored [OF store] in blast)
  have clear: "keeps ?I (clear_document env t b d)"
    unfolding clear_document_def by (intro keeps_intro del)
  have put: "keeps ?I (write_points env d m ps)" if ids: "p_id ` set ps \<subseteq> e_uuid5_oid env ` chunk_ids env d body"
    and m: "m = n" for m ps
    unfolding write_points_def
  proof (intro keeps_intro keeps_untouched_store untouched_pass)
    fix q r q' i k assume run: "upsert_points (e_client env) m ps q = (r, q')"
    show "stored_by view q' k i = stored_by view q k i \<or>
      (collection_name t b = Inr k \<and> (i \<in> e_uuid5_oid env ` chunk_ids env d body \<or>
         (\<exists>p. stored_by view q k i = Some p \<and> of_doc d p)))"
      using chunk_store.upsert_other [OF store run, of k i] ids name m by blast
  qed
  have save: "triple ?I (timer env ''doc_save'' (save_document env t b d body bt h k)) (\<lambda>_. ?I) (\<lambda>_. ?I)" for k
    by (intro triple_keeps keeps_timer keeps_untouched_frame frame_intro untouched_pass)
  have "triple ?I (upload_fresh env t b d body bt h rep) (\<lambda>_. ?I) (\<lambda>_. ?I)"
  proof (rule triple_upload_fresh)
    show "keeps ?I (write_points env d m ps)"
      if "collection_name t b = Inr m" "p_id ` set ps \<subseteq> e_uuid5_oid env ` chunk_ids env d body" for m ps
      using that name by (intro put) simp_all
  qed (use ensure clear save in \<open>auto intro!: keeps_untouched_frame frame_intro\<close>)
  then show ?thesis by (rule keeps_triple)
qed

lemma untouched_refl: "untouched view t b d ids (w_store w) w"
  by (simp add: untouched_def)

subsection \<open>The stages under the lock\<close>

lemma triple_upload_locked:
  assumes tenant: "triple I (tenant_of env t) (\<lambda>tn w. I w \<and> tn_tenant_id tn = t) (\<lambda>_. I)"
    and bots: "\<And>tn. tn_tenant_id tn = t \<Longrightarrow> triple I (bot_of env tn b) J (\<lambda>_. I)"
    and J: "\<And>bt w. J bt w \<Longrightarrow> I w"
    and no_change: "\<And>bt r. triple (J bt) (upload_no_change env t b r) (\<lambda>_. I) (\<lambda>_. I)"
    and fresh: "\<And>bt h rep. triple (J bt) (upload_fresh env t b d body bt h rep) (\<lambda>_. I) (\<lambda>_. I)"
  shows "triple I (upload_locked env t b d body) (\<lambda>_. I) (\<lambda>_. I)"
proof -
  let ?hash = "incoming_hash (e_sha256 env) body"
  have gets: "triple (J bt) (gets_io f) (\<lambda>_. J bt) (\<lambda>_. I)" for bt and f :: "'a world \<Rightarrow> 'b"
    by (simp add: triple_def)
  have branch: "triple (J bt) (case m of Some r \<Rightarrow> upload_no_change env t b r
      | None \<Rightarrow> upload_fresh env t b d body bt ?hash rep) (\<lambda>_. I) (\<lambda>_. I)" for bt m rep
    by (cases m) (simp_all only: option.case no_change fresh)
  have gets2: "triple (J bt) (gets_io f) (\<lambda>_. J bt) (\<lambda>_. I)" for bt and f :: "'a world \<Rightarrow> doc_row option"
    by (simp add: triple_def)
  have dedup: "triple (J bt) (upload_deduplicated env t b d body bt ex) (\<lambda>_. I) (\<lambda>_. I)" for bt ex
    unfolding upload_deduplicated_def Let_def
    by (cases "Option.bind ex (\<lambda>r. if 0 < dc_chunk_count r \<and> dc_content_hash r = ?hash then Some r else None)")
      (simp_all only: option.case no_change triple_bind [OF gets2 branch])
  have checked: "triple (J bt) (case ex of
       Some r \<Rightarrow> if foreign t b r then raise_io (collision_error d t (dc_tenant_id r))
         else upload_deduplicated env t b d body bt ex
     | None \<Rightarrow> upload_deduplicated env t b d body bt ex) (\<lambda>_. I) (\<lambda>_. I)" for bt ex
    using dedup [of bt ex] J [of bt] by (cases ex) (auto intro: triple_raise)
  have after: "triple (\<lambda>w. I w \<and> tn_tenant_id tn = t) (bind_io (bot_of env tn b) (\<lambda>bot_ref.
      bind_io (gets_io (\<lambda>w. find_doc d (w_db w))) (\<lambda>existing. case existing of
       Some r \<Rightarrow> if foreign t b r then raise_io (collision_error d t (dc_tenant_id r))
         else upload_deduplicated env t b d body bot_ref existing
     | None \<Rightarrow> upload_deduplicated env t b d body bot_ref existing))) (\<lambda>_. I) (\<lambda>_. I)" for tn
    using triple_bind [OF bots triple_bind [OF gets2 checked]]
    by (cases "tn_tenant_id tn = t") (simp_all add: triple_def)
  show ?thesis unfolding upload_locked_def by (rule triple_bind [OF tenant after])
qed

lemma triple_tenant_of:
  assumes "keeps I (tenant_of env t)"
  shows "triple I (tenant_of env t) (\<lambda>tn w. I w \<and> tn_tenant_id tn = t) (\<lambda>_. I)"
proof (rule tripleI)
  fix w tn w' assume "I w" and run: "tenant_of env t w = (Inr tn, w')"
  moreover have "tn_tenant_id tn = t"
    using run unfolding tenant_of_def by (auto elim!: bind_io_InrE on_dbE dest!: get_or_create_tenant_row)
  ultimately show "I w' \<and> tn_tenant_id tn = t" using keepsD [OF assms] by blast
qed (use keepsD [OF assms] in blast)

text \<open>
  C4 (isolation of uploads). An upload, completed or failed, never changes a stored point
  outside the bot's own collection, nor a point in it that belongs to another document and
  has no id of the request's own chunks.
\<close>

theorem upload_execute_isolated:
  fixes env :: "'q env"
  assumes api: "qdrant_api (e_client env) view"
    and other: "collection_name t b \<noteq> Inr m \<or>
      (i \<notin> e_uuid5_oid env ` chunk_ids env d body \<and>
       (\<forall>p. stored_by view (w_store w) m i = Some p \<longrightarrow> \<not> of_doc d p))"
  shows "stored_by view (w_store (snd (upload_execute env t b d body w))) m i = stored_by view (w_store w) m i"
proof -
  let ?I = "untouched view t b d (e_uuid5_oid env ` chunk_ids env d body) (w_store w)"
  obtain r w' where run: "upload_execute env t b d body w = (r, w')" by (metis prod.collapse)
  have "?I w'"
    using guard_cases_key [OF run [unfolded upload_execute_def]]
  proof (elim disjE exE conjE)
    assume "idled w w'"
    then show ?thesis by (simp add: untouched_def idled_same)
  next
    fix key w1 w2 assume key: "advisory_lock_key (e_sha256 env) t b d = Inr key" and idle: "idled w w1"
      and body: "upload_locked env t b d body (locked key w1) = (r, w2)" and w': "w' = unlocked key w2"
    obtain n where name: "collection_name t b = Inr n" using advisory_lock_key_names [OF key] by blast
    have fr: "frame w_store (tenant_of env t)" "frame w_store (bot_of env tn b)"
      "frame w_store (upload_no_change env t b r')" for tn r' by (rule frame_store_stages)+
    have "triple ?I (upload_locked env t b d body) (\<lambda>_. ?I) (\<lambda>_. ?I)"
      by (rule triple_upload_locked [where J = "\<lambda>_. ?I"], rule triple_tenant_of, rule keeps_untouched_frame [OF fr(1)])
        (auto intro: triple_keeps keeps_untouched_frame [OF fr(2)] keeps_untouched_frame [OF fr(3)]
          keeps_untouched_upload_fresh [OF api name])
    then have "keeps ?I (upload_locked env t b d body)" by (rule keeps_triple)
    moreover have "?I (locked key w1)" by (simp add: untouched_def locked_def idled_same [OF idle])
    ultimately have "?I w2" using body by (rule keepsD)
    then show ?thesis by (simp add: w' untouched_def unlocked_def)
  qed
  with other show ?thesis unfolding untouched_def run by (metis snd_conv)
qed

subsection \<open>Locks and tables\<close>

lemma upload_lock_locks:
  assumes "frame w_locks m"
  shows "w_locks (snd (upload_lock env t b d m w)) = w_locks w"
proof -
  obtain r w' where run: "upload_lock env t b d m w = (r, w')" by (metis prod.collapse)
  from guard_cases_key [OF run] have "w_locks w' = w_locks w"
  proof (elim disjE exE conjE)
    fix key w1 w2 assume "idled w w1" and "m (locked key w1) = (r, w2)" and "w' = unlocked key w2"
    then show ?thesis using frameD [OF assms] by (simp add: locked_def unlocked_def idled_same)
  qed (simp add: idled_same)
  with run show ?thesis by simp
qed

lemma keeps_db_of: "keeps I m \<Longrightarrow> keeps (\<lambda>w. I (w_db w)) (on_db m)"
  by (rule keeps_db_part)

definition bot_ready :: "string \<Rightarrow> string \<Rightarrow> bot_row \<Rightarrow> database \<Rightarrow> bool" where
  "bot_ready t b bt db \<longleftrightarrow> db_wf db \<and> bt \<in> set (db_bots db) \<and> bt_tenant_id bt = t \<and> bt_bot_id bt = b"

lemma keeps_wf_frame: "frame w_db m \<Longrightarrow> keeps (\<lambda>w. I (w_db w)) m"
  by (rule keeps_frame [where f = w_db and J = I]) auto

lemma bot_ready_save:
  assumes ready: "bot_ready t b bt db" and k: "0 < k"
    and run: "update_or_create_doc now (document_row t b d body bt h k raw) db = (r, db')"
  shows "bot_ready t b bt db'"
proof -
  have "owns db (document_row t b d body bt h k raw)"
    using ready by (auto simp: bot_ready_def owns_def document_row_def)
  moreover have "live_or_deleted (document_row t b d body bt h k raw)"
    using k by (simp add: live_or_deleted_def document_row_def)
  ultimately have "db_wf db'"
    using ready run by (auto simp: bot_ready_def intro: update_or_create_doc_wf)
  moreover have "db_bots db' = db_bots db" using update_or_create_doc_cases [OF run] by auto
  ultimately show ?thesis using ready by (simp add: bot_ready_def)
qed

lemma upload_fresh_wf: "keeps (\<lambda>w. bot_ready t b bt (w_db w)) (upload_fresh env t b d body bt h rep)"
proof (rule keeps_triple, rule triple_upload_fresh)
  let ?I = "\<lambda>w. bot_ready t b bt (w_db w)"
  have "keeps ?I (save_document env t b d body bt h k)" if "0 < k" for k
    unfolding save_document_def
    by (intro keeps_intro keeps_wf_frame frame_db_simple keeps_db_of)
      (auto intro!: keepsI dest: bot_ready_save [OF _ that])
  then show "triple ?I (timer env ''doc_save'' (save_document env t b d body bt h k)) (\<lambda>_. ?I) (\<lambda>_. ?I)"
    if "0 < k" for k using that by (intro triple_keeps keeps_timer) simp_all
qed (auto intro!: keeps_wf_frame frame_intro)

text \<open>
  Locks are given back. Whatever an upload does and however it ends, this session holds
  afterwards exactly the advisory locks it held before.
\<close>

theorem upload_execute_locks: "w_locks (snd (upload_execute env t b d body w)) = w_locks w"
  unfolding upload_execute_def by (rule upload_lock_locks [OF frame_locks_locked])

lemma upload_wf:
  assumes wf: "db_wf (w_db w)"
  shows "db_wf (w_db (snd (upload_execute env t b d body w)))"
proof -
  obtain r w' where run: "upload_execute env t b d body w = (r, w')" by (metis prod.collapse)
  let ?I = "\<lambda>w. db_wf (w_db w)"
  have tenant: "keeps ?I (tenant_of env t)" unfolding tenant_of_def
    by (intro keeps_intro keeps_wf_frame frame_db_simple keeps_db_of keeps_get_or_create_tenant)
  have bots: "triple ?I (bot_of env tn b) (\<lambda>bt w. bot_ready t b bt (w_db w)) (\<lambda>_. ?I)" if tn: "tn_tenant_id tn = t" for tn
  proof (rule tripleI)
    have keep: "keeps ?I (bot_of env tn b)" unfolding bot_of_def
      by (intro keeps_intro keeps_wf_frame frame_db_simple keeps_db_of keeps_get_or_create_bot)
    fix w bt w' assume "?I w" and bt: "bot_of env tn b w = (Inr bt, w')"
    with keepsD [OF keep] have "?I w'" by blast
    moreover have "bt \<in> set (db_bots (w_db w')) \<and> bt_tenant_id bt = t \<and> bt_bot_id bt = b"
      using bt tn unfolding bot_of_def by (auto elim!: bind_io_InrE on_dbE dest!: get_or_create_bot_row)
    ultimately show "bot_ready t b bt (w_db w')" by (simp add: bot_ready_def)
  next
    have keep: "keeps ?I (bot_of env tn b)" unfolding bot_of_def
      by (intro keeps_intro keeps_wf_frame frame_db_simple keeps_db_of keeps_get_or_create_bot)
    fix w e w' assume "?I w" and "bot_of env tn b w = (Inl e, w')"
    with keepsD [OF keep] show "?I w'" by blast
  qed
  have no_change: "keeps ?I (upload_no_change env t b r)" for r unfolding upload_no_change_def
    by (intro keeps_intro keeps_wf_frame frame_db_simple keeps_db_of)
  have ready: "triple (\<lambda>w. bot_ready t b bt (w_db w)) m (\<lambda>_. ?I) (\<lambda>_. ?I)"
    if "keeps ?I m \<or> keeps (\<lambda>w. bot_ready t b bt (w_db w)) m" for bt and m :: "('a, upload_result) action"
    using that
  proof
    assume "keeps ?I m"
    then show ?thesis by (rule triple_weaken [OF triple_keeps]) (simp_all add: bot_ready_def)
  next
    assume "keeps (\<lambda>w. bot_ready t b bt (w_db w)) m"
    then show ?thesis by (rule triple_weaken [OF triple_keeps]) (simp_all add: bot_ready_def)
  qed
  have "triple ?I (upload_locked env t b d body) (\<lambda>_. ?I) (\<lambda>_. ?I)"
  proof (rule triple_upload_locked [OF triple_tenant_of [OF tenant] bots])
    fix bt r h rep
    show "triple (\<lambda>w. bot_ready t b bt (w_db w)) (upload_no_change env t b r) (\<lambda>_. ?I) (\<lambda>_. ?I)"
      by (intro ready disjI1 no_change)
    show "triple (\<lambda>w. bot_ready t b bt (w_db w)) (upload_fresh env t b d body bt h rep) (\<lambda>_. ?I) (\<lambda>_. ?I)"
      by (intro ready disjI2 upload_fresh_wf)
  qed (simp_all add: bot_ready_def)
  then have body: "keeps ?I (upload_locked env t b d body)" by (rule keeps_triple)
  from guard_cases_key [OF run [unfolded upload_execute_def]] have "?I w'"
  proof (elim disjE exE conjE)
    fix key w1 w2 assume idle: "idled w w1" and locked: "upload_locked env t b d body (locked key w1) = (r, w2)"
      and w': "w' = unlocked key w2"
    have "?I (locked key w1)" using wf by (simp add: locked_def idled_same [OF idle])
    from keepsD [OF body this locked] show ?thesis by (simp add: w' unlocked_def)
  qed (simp add: idled_same wf)
  with run show ?thesis by simp
qed

text \<open>
  C13 (the tables stay well-formed). An upload, however it ends, keeps the invariant of the
  tables: keys and collection names unique, every bot under its tenant and with the
  collection name its identifiers give, every document under its own bot, and active exactly
  with at least one chunk.
\<close>

theorem upload_execute_wf:
  assumes wf: "db_wf (w_db w)"
  shows "db_wf (w_db (snd (upload_execute env t b d body w)))"
  using assms by (rule upload_wf)

section \<open>Refusals\<close>

lemma upload_locked_foreign:
  assumes "find_doc d (w_db w) = Some r" and "foreign t b r"
  shows "\<exists>e w'. upload_locked env t b d body w = (Inl e, w') \<and> w_store w' = w_store w \<and>
    db_docs (w_db w') = db_docs (w_db w)"
proof (cases "fst (tenant_of env t w)")
  case (Inl e)
  then obtain w1 where run: "tenant_of env t w = (Inl e, w1)" by (metis prod.collapse)
  with frameD [OF frame_store_stages(4) run] frameD [OF frame_docs_stages(1) run] show ?thesis
    by (simp add: upload_locked_def bind_io_Inl)
next
  case (Inr tn)
  then obtain w1 where tn: "tenant_of env t w = (Inr tn, w1)" by (metis prod.collapse)
  note same1 = frameD [OF frame_store_stages(4) tn] frameD [OF frame_docs_stages(1) tn]
  show ?thesis
  proof (cases "fst (bot_of env tn b w1)")
    case (Inl e)
    then obtain w2 where run: "bot_of env tn b w1 = (Inl e, w2)" by (metis prod.collapse)
    with tn frameD [OF frame_store_stages(5) run] frameD [OF frame_docs_stages(2) run] same1 show ?thesis
      by (simp add: upload_locked_def bind_io_Inl bind_io_Inr)
  next
    case (Inr bt)
    then obtain w2 where bt: "bot_of env tn b w1 = (Inr bt, w2)" by (metis prod.collapse)
    note same2 = frameD [OF frame_store_stages(5) bt] frameD [OF frame_docs_stages(2) bt]
    from same1 same2 have "find_doc d (w_db w2) = find_doc d (w_db w)" by (intro find_doc_cong) simp
    with assms tn bt have "upload_locked env t b d body w = (Inl (collision_error d t (dc_tenant_id r)), w2)"
      by (simp add: upload_locked_def bind_io_Inr)
    with same1 same2 show ?thesis by simp
  qed
qed

text \<open>
  C17 (documents of others). A document id whose row belongs to another tenant or bot is never
  overwritten: the upload does not return, and neither the vector database nor any document
  row changes.
\<close>

theorem upload_execute_foreign:
  assumes "find_doc d (w_db w) = Some r" and "foreign t b r"
  shows "\<exists>e w'. upload_execute env t b d body w = (Inl e, w') \<and> w_store w' = w_store w \<and>
    db_docs (w_db w') = db_docs (w_db w)"
proof -
  obtain res w' where run: "upload_execute env t b d body w = (res, w')" by (metis prod.collapse)
  from guard_cases_key [OF run [unfolded upload_execute_def]]
  have "(\<exists>e. res = Inl e) \<and> w_store w' = w_store w \<and> db_docs (w_db w') = db_docs (w_db w)"
  proof (elim disjE exE conjE)
    fix key w1 w2 assume idle: "idled w w1" and body: "upload_locked env t b d body (locked key w1) = (res, w2)"
      and w': "w' = unlocked key w2"
    have "find_doc d (w_db (locked key w1)) = Some r"
      using assms(1) by (simp add: locked_def idled_same [OF idle])
    from upload_locked_foreign [OF this assms(2), of env body] body show ?thesis
      by (auto simp: w' locked_def unlocked_def idled_same [OF idle])
  qed (auto simp: idled_same)
  then show ?thesis using run by blast
qed

definition same_points :: "('q \<Rightarrow> string \<Rightarrow> coll option) \<Rightarrow> 'q \<Rightarrow> 'q world \<Rightarrow> bool" where
  "same_points view q w \<longleftrightarrow> stored_by view (w_store w) = stored_by view q"

lemma same_points_simps [simp]:
  "same_points view q (pass_time env n w) = same_points view q w"
  "same_points view q (w\<lparr>w_phases := ph\<rparr>) = same_points view q w"
  by (simp_all add: same_points_def)

lemma upload_fresh_too_large:
  fixes env :: "'q env"
  assumes api: "qdrant_api (e_client env) view" and big: "MAX_CHUNKS_PER_DOC < length (flat_chunks env body)"
    and run: "upload_fresh env t b d body bt h rep w = (r, w')"
  shows "(\<exists>e. r = Inl e) \<and> same_points view (w_store w) w'"
proof -
  let ?I = "same_points view (w_store w)"
  note store = qdrant_api.is_chunk_store [OF api]
  have store_keeps: "keeps ?I (on_store (get_or_create_collection (e_client env) t b))"
    by (rule keepsI) (auto simp: same_points_def elim!: on_storeE dest: chunk_store.create_stored [OF store])
  have ensure: "keeps ?I (ensure_collection env t b)"
    unfolding ensure_collection_def by (intro keeps_intro store_keeps) simp_all
  have timed: "keeps ?I (timer env ''chunk'' (return_io x))" for x :: "(nat \<times> upload_item \<times> chunk) list"
    by (intro keeps_intro) simp_all
  let ?rest = "\<lambda>n flat. if flat = [] then raise_io (Upload (NoEmbeddableContentError
         ''No chunks survived after chunking.'' [(''items_count'', JInt (int (length (bd_items body))))]))
       else if MAX_CHUNKS_PER_DOC < length flat then raise_io (Upload (DocumentTooLargeError
         (''Document produces '' @ show_nat (length flat) @ '' chunks, max is '' @ show_nat MAX_CHUNKS_PER_DOC)
         [(''chunk_count'', JInt (int (length flat))), (''max'', JInt (int MAX_CHUNKS_PER_DOC))]))
       else bind_io (embed_chunks env flat) (\<lambda>emb.
         bind_io (map_io (build_point env t b d (source_of body h) emb) (enum_list flat)) (\<lambda>points.
         seq_io (when_io rep (clear_document env t b d))
        (seq_io (write_points env d n points)
        (seq_io (timer env ''doc_save'' (save_document env t b d body bt h (length points)))
        (return_io \<lparr>ur_doc_id = d, ur_chunks_created = length points,
           ur_items_processed = length (bd_items body), ur_collection_name = n,
           ur_status = (if rep then ''replaced'' else ''created'')\<rparr>)))))"
  have chunked: "triple ?I (timer env ''chunk'' (return_io (flat_chunks env body)))
      (\<lambda>flat w. ?I w \<and> MAX_CHUNKS_PER_DOC < length flat) (\<lambda>_. ?I)"
    using big by (intro tripleI) (blast dest: chunk_timerE(1) keepsD [OF timed])+
  have rest: "triple (\<lambda>w. ?I w \<and> MAX_CHUNKS_PER_DOC < length flat) (?rest n flat) (\<lambda>_ _. False) (\<lambda>_. ?I)" for n flat
    by (cases "MAX_CHUNKS_PER_DOC < length flat", rule triple_weaken [where P' = ?I and Q' = "\<lambda>_ _. False" and E' = "\<lambda>_. ?I"])
      (auto intro!: triple_raise simp: triple_def)
  have fresh: "triple ?I (upload_fresh env t b d body bt h rep) (\<lambda>_ _. False) (\<lambda>_. ?I)"
    unfolding upload_fresh_def
    by (rule triple_bind [OF triple_keeps [OF ensure] triple_bind [OF chunked rest]])
  have start: "?I w" by (simp add: same_points_def)
  from triple_InrD [OF fresh start] triple_InlD [OF fresh start] run show ?thesis by (cases r) auto
qed


text \<open>
  The chunk cap. A request that makes more than 5000 chunks never returns \<open>created\<close> or
  \<open>replaced\<close>, and no stored point is added or lost: the document that is there stays
  searchable.
\<close>

theorem upload_execute_cap:
  fixes env :: "'q env"
  assumes api: "qdrant_api (e_client env) view" and big: "5000 < length (flat_chunks env body)"
    and run: "upload_execute env t b d body w = (r, w')"
  shows "(\<forall>res. r = Inr res \<longrightarrow> ur_status res = ''no_change'') \<and>
    stored_by view (w_store w') = stored_by view (w_store w)"
proof -
  let ?I = "same_points view (w_store w)"
  have big': "MAX_CHUNKS_PER_DOC < length (flat_chunks env body)" using big by (simp add: MAX_CHUNKS_PER_DOC_def)
  have fresh: "keeps ?I (upload_fresh env t b d body bt h rep)" for bt h rep
    by (rule keepsI) (use upload_fresh_too_large [OF api big'] in \<open>fastforce simp: same_points_def\<close>)
  have frames: "keeps ?I m" if "frame w_store m" for m :: "('q, 'c) action"
    using that by (rule keeps_frame [where J = "\<lambda>q. stored_by view q = stored_by view (w_store w)"])
      (simp add: same_points_def)
  have "triple ?I (upload_locked env t b d body) (\<lambda>_. ?I) (\<lambda>_. ?I)"
    by (rule triple_upload_locked [where J = "\<lambda>_. ?I"], rule triple_tenant_of, rule frames, rule frame_store_stages)
      (auto intro: triple_keeps frames frame_store_stages fresh)
  then have locked: "keeps ?I (upload_locked env t b d body)" by (rule keeps_triple)
  from guard_cases_key [OF run [unfolded upload_execute_def]] have "?I w'"
  proof (elim disjE exE conjE)
    fix key w1 w2 assume idle: "idled w w1" and body: "upload_locked env t b d body (locked key w1) = (r, w2)"
      and w': "w' = unlocked key w2"
    have "?I (locked key w1)" by (simp add: same_points_def locked_def idled_same [OF idle])
    from keepsD [OF locked this body] show ?thesis by (simp add: w' same_points_def unlocked_def)
  qed (simp add: same_points_def idled_same)
  moreover have "ur_status res = ''no_change''" if "r = Inr res" for res
    using upload_executeE [OF run [unfolded that]] big'
    by (auto dest: upload_no_changeE(7) simp: fresh_done_def)
  ultimately show ?thesis by (simp add: same_points_def)
qed

lemma never_stored:
  assumes "upload_execute env t b d body w = (Inr res, w')" and "ur_status res \<noteq> ''no_change''"
  shows "bd_doc_id body = None"
  using upload_executeE [OF assms(1)] assms(2) by (auto dest: upload_no_changeE(7) fresh_doneD(6))


section \<open>Content hashes\<close>

lemma hash_input_text:
  "hash_input items = py_encode (concat (map (\<lambda>it. it_content it @ [char_of (31::nat)]) items))"
proof -
  have "py_encode [char_of (31::nat)] = [31]" by code_simp
  then show ?thesis by (induction items) (simp_all add: hash_input_def)
qed

lemma separated_inject:
  assumes "concat (map (\<lambda>x. x @ [c]) xs) = concat (map (\<lambda>x. x @ [c]) ys)"
    and "\<forall>x \<in> set xs. c \<notin> set x" and "\<forall>y \<in> set ys. c \<notin> set y"
  shows "xs = ys"
  using assms
proof (induction xs arbitrary: ys)
  case Nil
  then show ?case by (cases ys) auto
next
  case (Cons x xs)
  then obtain y ys' where ys: "ys = y # ys'" by (cases ys) auto
  with Cons.prems(1) have "x @ c # concat (map (\<lambda>x. x @ [c]) xs) = y @ c # concat (map (\<lambda>x. x @ [c]) ys')" by simp
  from split_at_sep [OF this] Cons.prems(2,3) have "x = y"
    and "concat (map (\<lambda>x. x @ [c]) xs) = concat (map (\<lambda>x. x @ [c]) ys')" by (auto simp: ys)
  with Cons.IH [of ys'] Cons.prems(2,3) show ?case by (simp add: ys)
qed

text \<open>
  Content hashes. Two item lists are hashed from the same bytes exactly if joining each
  content with the separator gives the same text; where no content holds the separator
  character, exactly if the contents are equal one by one.
\<close>

theorem hash_input_determines:
  assumes "\<forall>it \<in> set items \<union> set items'. char_of (31::nat) \<notin> set (it_content it)"
  shows "hash_input items = hash_input items' \<longleftrightarrow> map it_content items = map it_content items'"
proof
  assume "hash_input items = hash_input items'"
  then have "concat (map (\<lambda>x. x @ [char_of (31::nat)]) (map it_content items)) =
      concat (map (\<lambda>x. x @ [char_of (31::nat)]) (map it_content items'))"
    by (simp only: hash_input_text py_encode_inject map_map comp_def)
  then show "map it_content items = map it_content items'"
    by (rule separated_inject) (use assms in auto)
next
  assume "map it_content items = map it_content items'"
  then have "map (\<lambda>x. py_encode x @ [31]) (map it_content items) = map (\<lambda>x. py_encode x @ [31]) (map it_content items')"
    by simp
  then show "hash_input items = hash_input items'" by (simp add: hash_input_def comp_def)
qed

end
