(* ===== verification/Delete.thy ===== *)
theory Delete
  imports Upload
begin

text \<open>
  What the delete pipeline guarantees, alone, twice in a row, and followed by an upload.
\<close>

section \<open>Stages\<close>

lemma frame_docs_refl: "frame (\<lambda>w. db_docs (w_db w)) (gets_io f)"
  by (rule frame_gets)

lemma delete_chunksE:
  assumes "delete_chunks env t b d w = (Inr k, w')"
  shows "delete_by_doc_id (e_client env) t b d (w_store w) = (Inr k, w_store w')" and "w_db w' = w_db w"
  using assms unfolding delete_chunks_def
  by (auto elim!: try_io_InrE on_storeE split: if_splits)

text \<open>A completed delete under the lock.\<close>

lemma delete_lockedE:
  assumes "delete_locked env t b d w = (Inr res, w')"
  shows "\<exists>r now. find_doc d (w_db w) = Some r \<and> \<not> foreign t b r \<and>
    delete_by_doc_id (e_client env) t b d (w_store w) = (Inr (dr_chunks_deleted res), w_store w') \<and>
    mark_deleted now d (w_db w) = (Inr (), w_db w') \<and>
    dr_doc_id res = d \<and> dr_was_already_deleted res = (dc_status r = DELETED)"
proof -
  from assms obtain r where r: "find_doc d (w_db w) = Some r" "\<not> foreign t b r"
    and run: "bind_io (delete_chunks env t b d) (\<lambda>chunks_deleted.
           bind_io (wall_clock env) (\<lambda>now.
           seq_io (on_db (mark_deleted now d))
          (return_io \<lparr>dr_doc_id = d, dr_chunks_deleted = chunks_deleted,
             dr_was_already_deleted = (dc_status r = DELETED)\<rparr>))) w = (Inr res, w')"
    unfolding delete_locked_def by (auto elim!: bind_io_InrE split: option.splits if_splits)
  from run obtain k w1 where k: "delete_chunks env t b d w = (Inr k, w1)"
    and rest: "bind_io (wall_clock env) (\<lambda>now. seq_io (on_db (mark_deleted now d))
          (return_io \<lparr>dr_doc_id = d, dr_chunks_deleted = k,
             dr_was_already_deleted = (dc_status r = DELETED)\<rparr>)) w1 = (Inr res, w')"
    by (rule bind_io_InrE)
  from rest obtain now where "mark_deleted now d (w_db w1) = (Inr (), w_db w')" "w_store w' = w_store w1"
    "res = \<lparr>dr_doc_id = d, dr_chunks_deleted = k, dr_was_already_deleted = (dc_status r = DELETED)\<rparr>"
    unfolding wall_clock_def by (auto elim!: bind_io_InrE seq_io_InrE on_dbE)
  with r delete_chunksE [OF k] show ?thesis by auto
qed

lemma delete_executeE:
  assumes "delete_execute env t b d w = (Inr res, w')"
  shows "\<exists>n r now. collection_name t b = Inr n \<and> find_doc d (w_db w) = Some r \<and> \<not> foreign t b r \<and>
    delete_by_doc_id (e_client env) t b d (w_store w) = (Inr (dr_chunks_deleted res), w_store w') \<and>
    mark_deleted now d (w_db w) = (Inr (), w_db w') \<and>
    dr_doc_id res = d \<and> dr_was_already_deleted res = (dc_status r = DELETED)"
proof -
  from guard_cases_key [OF assms [unfolded delete_execute_def]]
  obtain key w1 w2 where key: "advisory_lock_key (e_sha256 env) t b d = Inr key" and idle: "idled w w1"
    and body: "delete_locked env t b d (locked key w1) = (Inr res, w2)" and w': "w' = unlocked key w2" by auto
  obtain n where n: "collection_name t b = Inr n" using advisory_lock_key_names [OF key] by blast
  have "w_db (locked key w1) = w_db w" and "w_store (locked key w1) = w_store w"
    by (simp_all add: locked_def idled_same [OF idle])
  with delete_lockedE [OF body] n show ?thesis by (auto simp: w' unlocked_def)
qed

lemma mark_deleted_rows:
  assumes "mark_deleted now d db = (Inr u, db')"
  shows "db_docs db' = map (\<lambda>r. if dc_doc_id r = d then r\<lparr>dc_status := DELETED, dc_chunk_count := 0,
     dc_error_message := None, dc_last_refreshed_at := now\<rparr> else r) (db_docs db)"
  using update_doc_cases [OF assms [unfolded mark_deleted_def]] by auto

lemma mark_deleted_found:
  assumes "mark_deleted now d db = (Inr u, db')"
  shows "find_doc d' db' = (if d' = d then map_option (\<lambda>r. r\<lparr>dc_status := DELETED, dc_chunk_count := 0,
     dc_error_message := None, dc_last_refreshed_at := now\<rparr>) (find_doc d db) else find_doc d' db)"
  using update_doc_cases [OF assms [unfolded mark_deleted_def]] by (auto simp: find_doc_update)

section \<open>Properties\<close>

text \<open>
  C7 (a completed delete). When a delete returns, the document was the bot's own, no chunk of
  it is left in the bot's collection, and its row says deleted with no chunks; all other rows
  are as they were. \<open>was_already_deleted\<close> says what the row said before.
\<close>

theorem delete_execute_correct:
  assumes api: "qdrant_api (e_client env) view" and run: "delete_execute env t b d w = (Inr res, w')"
  shows "\<exists>n r r'. collection_name t b = Inr n \<and> doc_points view (w_store w') n d = {} \<and>
    find_doc d (w_db w) = Some r \<and> dc_tenant_id r = t \<and> dc_bot_id r = b \<and>
    dr_was_already_deleted res = (dc_status r = DELETED) \<and>
    find_doc d (w_db w') = Some r' \<and> dc_status r' = DELETED \<and> dc_chunk_count r' = 0 \<and>
    (\<forall>d'. d' = d \<or> find_doc d' (w_db w') = find_doc d' (w_db w))"
proof -
  from delete_executeE [OF run] obtain n r now where
    n: "collection_name t b = Inr n" and r: "find_doc d (w_db w) = Some r" "\<not> foreign t b r" and
    del: "delete_by_doc_id (e_client env) t b d (w_store w) = (Inr (dr_chunks_deleted res), w_store w')" and
    mark: "mark_deleted now d (w_db w) = (Inr (), w_db w')" and
    res: "dr_was_already_deleted res = (dc_status r = DELETED)" by blast
  have "doc_points view (w_store w') n d = {}"
    using chunk_store.delete_gone [OF qdrant_api.is_chunk_store [OF api] del n] by (auto simp: doc_points_def)
  with n r res mark_deleted_found [OF mark] show ?thesis
    by (intro exI [of _ n] exI [of _ r] exI) (auto simp: foreign_def)
qed

lemma delete_unknown:
  assumes "find_doc d (w_db w) = None \<or> (\<exists>r. find_doc d (w_db w) = Some r \<and> foreign t b r)"
  shows "\<exists>e w'. delete_execute env t b d w = (Inl e, w') \<and> settled w' = settled w \<and>
    (e = not_found_error t b d \<or> lock_refused env t b d e)"
proof -
  obtain res w' where run: "delete_execute env t b d w = (res, w')" by (metis prod.collapse)
  from guard_cases_key [OF run [unfolded delete_execute_def]]
  have "\<exists>e. res = Inl e \<and> settled w' = settled w \<and> (e = not_found_error t b d \<or> lock_refused env t b d e)"
  proof (elim disjE exE conjE)
    fix key w1 w2 assume idle: "idled w w1" and body: "delete_locked env t b d (locked key w1) = (res, w2)"
      and w': "w' = unlocked key w2"
    have "w_db (locked key w1) = w_db w" by (simp add: locked_def idled_same [OF idle])
    with assms have "delete_locked env t b d (locked key w1) = (Inl (not_found_error t b d), locked key w1)"
      by (auto simp: delete_locked_def)
    with body w' show ?thesis
      by (auto simp: settled_eq locked_def unlocked_def idled_same [OF idle])
  qed (auto simp: idled_same)
  then show ?thesis using run by blast
qed

text \<open>
  Unknown documents. A delete for a document that has no row, or whose row belongs to
  another tenant or bot, changes nothing in tables and vector database and never returns; in
  both cases the answer under the lock is the same \<open>DocumentNotFoundError\<close>.
\<close>

theorem delete_execute_not_found:
  assumes "find_doc d (w_db w) = None \<or> (\<exists>r. find_doc d (w_db w) = Some r \<and> foreign t b r)"
  shows "\<exists>e w'. delete_execute env t b d w = (Inl e, w') \<and> settled w' = settled w \<and>
    (e = not_found_error t b d \<or> lock_refused env t b d e)"
  using assms by (rule delete_unknown)

lemma keeps_untouched_delete:
  assumes api: "qdrant_api (e_client env) view"
  shows "keeps (untouched view t b d {} q0) (delete_locked env t b d)"
proof -
  let ?I = "untouched view t b d {} q0"
  have del: "keeps ?I (on_store (delete_by_doc_id (e_client env) t b d))"
    by (rule keeps_untouched_store)
      (use chunk_store.delete_stored [OF qdrant_api.is_chunk_store [OF api]] in blast)
  have chunks: "keeps ?I (delete_chunks env t b d)"
    unfolding delete_chunks_def by (intro keeps_intro del)
  have frames: "keeps ?I (wall_clock env)" "keeps ?I (on_db m)" for m :: "unit statement"
    by (intro keeps_untouched_frame frame_store_simple)+
  show ?thesis
    unfolding delete_locked_def
    by (intro keeps_intro) (auto split: option.split intro!: keeps_intro chunks frames)
qed

text \<open>
  Isolation of deletes. A delete, completed or failed, changes no stored point outside
  the bot's collection and none of another document.
\<close>

theorem delete_execute_isolated:
  assumes api: "qdrant_api (e_client env) view"
    and other: "collection_name t b \<noteq> Inr m \<or> (\<forall>p. stored_by view (w_store w) m i = Some p \<longrightarrow> \<not> of_doc d p)"
  shows "stored_by view (w_store (snd (delete_execute env t b d w))) m i = stored_by view (w_store w) m i"
proof -
  let ?I = "untouched view t b d {} (w_store w)"
  obtain r w' where run: "delete_execute env t b d w = (r, w')" by (metis prod.collapse)
  from guard_cases_key [OF run [unfolded delete_execute_def]] have "?I w'"
  proof (elim disjE exE conjE)
    fix key w1 w2 assume idle: "idled w w1" and body: "delete_locked env t b d (locked key w1) = (r, w2)"
      and w': "w' = unlocked key w2"
    have "?I (locked key w1)" by (simp add: untouched_def locked_def idled_same [OF idle])
    from keepsD [OF keeps_untouched_delete [OF api] this body] show ?thesis
      by (simp add: w' untouched_def unlocked_def)
  qed (simp add: untouched_def idled_same)
  with other show ?thesis unfolding untouched_def run by (metis empty_iff snd_conv)
qed

lemma frame_locks_delete: "frame w_locks (delete_locked env t b d)"
  unfolding delete_locked_def delete_chunks_def
  by (intro frame_intro) (auto split: option.split intro!: frame_intro)

lemma keeps_wf_delete: "keeps (\<lambda>w. db_wf (w_db w)) (delete_locked env t b d)"
proof -
  let ?I = "\<lambda>w. db_wf (w_db w)"
  have chunks: "keeps ?I (delete_chunks env t b d)" and clock: "keeps ?I (wall_clock env)"
    by (intro keeps_wf_frame frame_intro)+
  have mark: "keeps ?I (on_db (mark_deleted now d))" for now
    by (intro keeps_db_of keeps_mark_deleted)
  show ?thesis
    unfolding delete_locked_def
    by (intro keeps_intro) (auto split: option.split intro!: keeps_bind keeps_seq keeps_return keeps_raise chunks clock mark)
qed

text \<open>
  Deletes keep the state in order. However a delete ends, the session holds the locks it
  held before, and well-formed tables stay well-formed.
\<close>

theorem delete_execute_wf:
  assumes "db_wf (w_db w)"
  shows "db_wf (w_db (snd (delete_execute env t b d w))) \<and> w_locks (snd (delete_execute env t b d w)) = w_locks w"
proof -
  obtain r w' where run: "delete_execute env t b d w = (r, w')" by (metis prod.collapse)
  from guard_cases_key [OF run [unfolded delete_execute_def]] have "db_wf (w_db w')"
  proof (elim disjE exE conjE)
    fix key w1 w2 assume idle: "idled w w1" and body: "delete_locked env t b d (locked key w1) = (r, w2)"
      and w': "w' = unlocked key w2"
    have "db_wf (w_db (locked key w1))" using assms by (simp add: locked_def idled_same [OF idle])
    from keepsD [OF keeps_wf_delete this body] show ?thesis by (simp add: w' unlocked_def)
  qed (simp add: idled_same assms)
  moreover have "w_locks (snd (delete_execute env t b d w)) = w_locks w"
    unfolding delete_execute_def by (rule upload_lock_locks [OF frame_locks_delete])
  ultimately show ?thesis by (simp add: run)
qed

section \<open>Deleting twice\<close>

context qdrant_api
begin

lemma no_points_count:
  assumes none: "\<forall>i p. stored_by view q n i = Some p \<longrightarrow> \<not> of_doc d p"
    and run: "count_points client n (doc_selector d) q = (Inr k, q')"
  shows "k = 0"
proof -
  from count_law [OF run] obtain co where co: "view q n = Some co" and k: "k = card (matching_ids (doc_selector d) co)"
    by blast
  have "matching_ids (doc_selector d) co = {}"
    using none co by (auto simp: matching_ids_def stored_by_def stored_in_Some of_doc_def)
  with k show ?thesis by simp
qed

lemma delete_nothing:
  assumes none: "\<forall>i p. stored_by view q n i = Some p \<longrightarrow> \<not> of_doc d p" and name: "collection_name t b = Inr n"
    and run: "delete_by_doc_id client t b d q = (Inr k, q')"
  shows "k = 0"
proof -
  let ?none = "\<lambda>q. \<forall>i p. stored_by view q n i = Some p \<longrightarrow> \<not> of_doc d p"
  have view_frame: "keeps ?none m" if "frame view m" for m :: "'q \<Rightarrow> (exn + 'c) \<times> 'q"
    using that by (rule keeps_frame [where J = "\<lambda>v. \<forall>i p. stored_in v n i = Some p \<longrightarrow> \<not> of_doc d p"])
      (simp add: stored_by_def)
  have del: "keeps ?none (delete_points client n (doc_selector d))"
    by (rule keepsI) (metis delete_points_stored option.distinct(1))
  have reads: "keeps ?none (collection_exists client n)" "keeps ?none (count_points client n (doc_selector d))"
    by (intro view_frame frame_view_reads)+
  have counted: "triple ?none (count_points client n (doc_selector d)) (\<lambda>k q. ?none q \<and> k = 0) (\<lambda>_. ?none)"
  proof (rule tripleI)
    fix s k s' assume "?none s" and "count_points client n (doc_selector d) s = (Inr k, s')"
    then show "?none s' \<and> k = 0" using no_points_count keepsD [OF reads(2)] by blast
  next
    fix s e s' assume "?none s" and "count_points client n (doc_selector d) s = (Inl e, s')"
    then show "?none s'" using keepsD [OF reads(2)] by blast
  qed
  have rest: "triple (\<lambda>q. ?none q \<and> k = 0) (seq_io (delete_points client n (doc_selector d)) (return_io k))
      (\<lambda>k _. k = 0) (\<lambda>_. ?none)" for k
    by (rule triple_seq [where R = "\<lambda>_. k = 0"], rule tripleI)
      (use keepsD [OF del] in \<open>blast intro: triple_return\<close>)+
  have attempt: "triple ?none (bind_io (collection_exists client n) (\<lambda>there.
      if \<not> there then return_io 0 else bind_io (count_points client n (doc_selector d)) (\<lambda>count_before.
        seq_io (delete_points client n (doc_selector d)) (return_io count_before)))) (\<lambda>k _. k = 0) (\<lambda>_. ?none)"
    by (rule triple_bind [OF triple_keeps [OF reads(1)]], rule triple_if)
      (auto intro!: triple_return triple_bind [OF counted rest])
  have "triple ?none (delete_by_doc_id client t b d) (\<lambda>k _. k = 0) (retry_error (\<lambda>_. ?none) 3)"
    unfolding delete_by_doc_id_def name of_sum_Inr bind_io_return
    by (rule triple_retried [OF attempt]) simp
  from triple_InrD [OF this none run] show ?thesis .
qed

end

text \<open>
  Deleting again. A delete of a document that a delete has already removed deletes no
  chunks, reports that, and leaves the row deleted and the collection without its points: the
  operation is idempotent.
\<close>

theorem delete_execute_twice:
  assumes api: "qdrant_api (e_client env) view" and first: "delete_execute env t b d w = (Inr res1, w1)"
    and again: "delete_execute env t b d w1 = (Inr res2, w2)"
  shows "dr_chunks_deleted res2 = 0 \<and> dr_was_already_deleted res2 \<and>
    stored_by view (w_store w2) = stored_by view (w_store w1)"
proof -
  from delete_execute_correct [OF api first] obtain n r' where n: "collection_name t b = Inr n"
    and gone: "doc_points view (w_store w1) n d = {}" and r': "find_doc d (w_db w1) = Some r'" "dc_status r' = DELETED"
    by blast
  from delete_executeE [OF again] n r' have del: "delete_by_doc_id (e_client env) t b d (w_store w1) =
      (Inr (dr_chunks_deleted res2), w_store w2)" and "dr_was_already_deleted res2" by auto
  moreover have none: "\<forall>i p. stored_by view (w_store w1) n i = Some p \<longrightarrow> \<not> of_doc d p"
    using gone by (auto simp: doc_points_def)
  from qdrant_api.delete_nothing [OF api this n del] have "dr_chunks_deleted res2 = 0" .
  moreover have "stored_by view (w_store w2) m i = stored_by view (w_store w1) m i" for m i
    using chunk_store.delete_stored [OF qdrant_api.is_chunk_store [OF api] del, of m i] none n by auto
  ultimately show ?thesis by (auto intro!: ext)
qed

text \<open>
  Uploading after a delete. Once a delete has completed, uploading the document again,
  even with the very content it had, is never answered by the deleted row: a \<open>no_change\<close> can
  only name another document.
\<close>

theorem upload_after_delete:
  assumes api: "qdrant_api (e_client env) view" and del: "delete_execute env t b d w = (Inr dres, w1)"
    and up: "upload_execute env t b d body w1 = (Inr res, w2)" and "ur_status res = ''no_change''"
  shows "ur_doc_id res \<noteq> d"
proof -
  from delete_execute_correct [OF api del] obtain r' where r': "find_doc d (w_db w1) = Some r'" "dc_chunk_count r' = 0"
    by blast
  from upload_executeE [OF up] assms(4) obtain w0 bt wl r where ready: "rows_ready t b bt w1 w0"
    and row: "unchanged_row t b d (incoming_hash (e_sha256 env) body) r (w_db w0)"
    and nc: "upload_no_change env t b r w0 = (Inr res, wl)"
    by (auto dest: fresh_doneD(1) split: if_splits)
  from ready have "find_doc d (w_db w0) = find_doc d (w_db w1)" by (intro find_doc_cong) (simp add: rows_ready_def)
  with row r' have "content_match t b (incoming_hash (e_sha256 env) body) d (w_db w0) = Some r"
    by (auto simp: unchanged_row_def)
  from content_matchD [OF this] upload_no_changeE(4) [OF nc] show ?thesis by (simp add: same_content_def)
qed

end
