(* ===== verification/Threads.thy ===== *)
theory Threads
  imports Delete
begin

text \<open>
  The two pipelines cut into steps, for the study of requests that overlap. A \<open>thread\<close> is a
  computation that gives up control between steps; \<open>upload_thread\<close> and \<open>delete_thread\<close> are the
  bodies of the pipelines' \<open>with upload_lock\<close> blocks with one step per statement or phase, and
  run without interruption they are \<open>upload_locked\<close> and \<open>delete_locked\<close>.
\<close>

section \<open>Threads\<close>

text \<open>\<open>Step f g\<close> makes \<open>f w\<close> of the world \<open>w\<close> and continues as \<open>g w\<close>.\<close>

datatype ('w, 'a) thread =
    Halt "exn + 'a"
  | Step "'w \<Rightarrow> 'w" "'w \<Rightarrow> ('w, 'a) thread"

primrec run_thread :: "('w, 'a) thread \<Rightarrow> ('w, 'a) prog" where
  "run_thread (Halt r) = (\<lambda>w. (r, w))"
| "run_thread (Step f g) = (\<lambda>w. run_thread (g w) (f w))"

definition atomically :: "('w, 'b) prog \<Rightarrow> ('b \<Rightarrow> ('w, 'a) thread) \<Rightarrow> ('w, 'a) thread" where
  "atomically m k = Step (\<lambda>w. snd (m w)) (\<lambda>w. case fst (m w) of Inl e \<Rightarrow> Halt (Inl e) | Inr x \<Rightarrow> k x)"

lemma run_atomically: "run_thread (atomically m k) = bind_io m (\<lambda>x. run_thread (k x))"
  by (auto simp: atomically_def bind_io_def fun_eq_iff case_prod_beta split: sum.split)

section \<open>The pipelines as threads\<close>

definition no_change_thread ::
  "'q env \<Rightarrow> string \<Rightarrow> string \<Rightarrow> doc_row \<Rightarrow> ('q world, upload_result) thread" where
  "no_change_thread env t b r = atomically (upload_no_change env t b r) (\<lambda>res. Halt (Inr res))"

definition fresh_thread ::
  "'q env \<Rightarrow> string \<Rightarrow> string \<Rightarrow> string \<Rightarrow> upload_body \<Rightarrow> bot_row \<Rightarrow> string \<Rightarrow> bool \<Rightarrow>
     ('q world, upload_result) thread" where
  "fresh_thread env t b d body bot_ref hash is_replace =
     atomically (ensure_collection env t b) (\<lambda>name.
     atomically (timer env ''chunk'' (return_io (flat_chunks env body))) (\<lambda>flat.
     if flat = [] then Halt (Inl (Upload (NoEmbeddableContentError
       ''No chunks survived after chunking.''
       [(''items_count'', JInt (int (length (bd_items body))))])))
     else if MAX_CHUNKS_PER_DOC < length flat then Halt (Inl (Upload (DocumentTooLargeError
       (''Document produces '' @ show_nat (length flat) @ '' chunks, max is '' @ show_nat MAX_CHUNKS_PER_DOC)
       [(''chunk_count'', JInt (int (length flat))), (''max'', JInt (int MAX_CHUNKS_PER_DOC))])))
     else
       atomically (embed_chunks env flat) (\<lambda>emb.
       atomically (map_io (build_point env t b d (source_of body hash) emb) (enum_list flat)) (\<lambda>points.
       atomically (when_io is_replace (clear_document env t b d)) (\<lambda>_.
       atomically (write_points env d name points) (\<lambda>_.
       atomically (timer env ''doc_save'' (save_document env t b d body bot_ref hash (length points))) (\<lambda>_.
       Halt (Inr \<lparr>ur_doc_id = d, ur_chunks_created = length points,
         ur_items_processed = length (bd_items body), ur_collection_name = name,
         ur_status = (if is_replace then ''replaced'' else ''created'')\<rparr>))))))))"

definition deduplicated_thread ::
  "'q env \<Rightarrow> string \<Rightarrow> string \<Rightarrow> string \<Rightarrow> upload_body \<Rightarrow> bot_row \<Rightarrow> doc_row option \<Rightarrow>
     ('q world, upload_result) thread" where
  "deduplicated_thread env t b d body bot_ref existing =
     (let hash = incoming_hash (e_sha256 env) body in
      case Option.bind existing (\<lambda>r. if 0 < dc_chunk_count r \<and> dc_content_hash r = hash then Some r else None) of
        Some r \<Rightarrow> no_change_thread env t b r
      | None \<Rightarrow>
          atomically (gets_io (\<lambda>w. content_match t b hash d (w_db w))) (\<lambda>match.
          case match of
            Some r \<Rightarrow> no_change_thread env t b r
          | None \<Rightarrow> fresh_thread env t b d body bot_ref hash (existing \<noteq> None)))"

definition upload_thread ::
  "'q env \<Rightarrow> string \<Rightarrow> string \<Rightarrow> string \<Rightarrow> upload_body \<Rightarrow> ('q world, upload_result) thread" where
  "upload_thread env t b d body =
     atomically (tenant_of env t) (\<lambda>tenant.
     atomically (bot_of env tenant b) (\<lambda>bot_ref.
     atomically (gets_io (\<lambda>w. find_doc d (w_db w))) (\<lambda>existing.
     case existing of
       Some r \<Rightarrow> if foreign t b r then Halt (Inl (collision_error d t (dc_tenant_id r)))
         else deduplicated_thread env t b d body bot_ref existing
     | None \<Rightarrow> deduplicated_thread env t b d body bot_ref existing)))"

definition delete_thread ::
  "'q env \<Rightarrow> string \<Rightarrow> string \<Rightarrow> string \<Rightarrow> ('q world, delete_result) thread" where
  "delete_thread env t b d =
     atomically (gets_io (\<lambda>w. find_doc d (w_db w))) (\<lambda>existing.
     case existing of
       None \<Rightarrow> Halt (Inl (not_found_error t b d))
     | Some r \<Rightarrow>
         if foreign t b r then Halt (Inl (not_found_error t b d))
         else
           atomically (delete_chunks env t b d) (\<lambda>chunks_deleted.
           atomically (bind_io (wall_clock env) (\<lambda>now. on_db (mark_deleted now d))) (\<lambda>_.
           Halt (Inr \<lparr>dr_doc_id = d, dr_chunks_deleted = chunks_deleted,
             dr_was_already_deleted = (dc_status r = DELETED)\<rparr>))))"

section \<open>Run without interruption they are the pipelines\<close>

lemma run_Halt [simp]: "run_thread (Halt (Inr x)) = return_io x" "run_thread (Halt (Inl e)) = raise_io e"
  by (simp_all add: fun_eq_iff)

declare run_thread.simps [simp del]

lemma bind_io_return_right: "bind_io m return_io = m"
  by (auto simp: bind_io_def fun_eq_iff return_io_def split: prod.split sum.split)

lemma seq_io_bind: "seq_io m n = bind_io m (\<lambda>_. n)"
  by (simp add: seq_io_def)

lemma run_no_change_thread: "run_thread (no_change_thread env t b r) = upload_no_change env t b r"
  by (simp add: no_change_thread_def run_atomically bind_io_return_right)

lemma run_if: "run_thread (if c then th else th') = (if c then run_thread th else run_thread th')"
  by simp

lemma run_fresh_thread:
  "run_thread (fresh_thread env t b d body bt hash rep) = upload_fresh env t b d body bt hash rep"
  unfolding fresh_thread_def upload_fresh_def run_atomically run_if run_Halt seq_io_bind ..

lemma run_deduplicated_thread:
  "run_thread (deduplicated_thread env t b d body bt ex) = upload_deduplicated env t b d body bt ex"
  unfolding deduplicated_thread_def upload_deduplicated_def Let_def
  by (auto simp: run_atomically run_no_change_thread run_fresh_thread split: option.split
      intro!: arg_cong [where f = "bind_io _"] ext)

lemma run_upload_thread: "run_thread (upload_thread env t b d body) = upload_locked env t b d body"
  unfolding upload_thread_def upload_locked_def run_atomically
  by (intro arg_cong [where f = "bind_io _"] ext) (auto simp: run_deduplicated_thread split: option.split)

lemma run_delete_thread: "run_thread (delete_thread env t b d) = delete_locked env t b d"
  unfolding delete_thread_def delete_locked_def run_atomically
  by (intro arg_cong [where f = "bind_io _"] ext)
    (auto simp: run_atomically seq_io_bind bind_io_assoc split: option.split)


end
