(* ===== verification/Concurrency.thy ===== *)
theory Concurrency
  imports Threads
begin

text \<open>
  Requests that overlap. The workers of all processes share the tables and the vector database
  and meet at the advisory locks: \<open>sys_step\<close> lets one worker take its lock when no other worker
  holds that key, run one step of its thread, give the lock back, or give up waiting. Every
  worker has its own request variables and phase timings. The lock is Postgres's: the model
  takes from it only that a key is granted to one session at a time.
\<close>

section \<open>Workers\<close>

datatype answer = Uploaded upload_result | Deleted delete_result

datatype work = UploadWork upload_body | DeleteWork

record job =
  jb_tenant :: string
  jb_bot :: string
  jb_doc :: string
  jb_work :: work

definition job_thread :: "'q env \<Rightarrow> job \<Rightarrow> ('q world, answer) thread" where
  "job_thread env j = (case jb_work j of
     UploadWork body \<Rightarrow> map_thread Uploaded (upload_thread env (jb_tenant j) (jb_bot j) (jb_doc j) body)
   | DeleteWork \<Rightarrow> map_thread Deleted (delete_thread env (jb_tenant j) (jb_bot j) (jb_doc j)))"

definition job_key :: "'q env \<Rightarrow> job \<Rightarrow> exn + (int \<times> int)" where
  "job_key env j = advisory_lock_key (e_sha256 env) (jb_tenant j) (jb_bot j) (jb_doc j)"

datatype 'q phase = Waiting | Inside "('q world, answer) thread" | Left "exn + answer"

record 'q system =
  sy_world :: "'q world"
  sy_phase :: "nat \<Rightarrow> 'q phase"
  sy_local :: "nat \<Rightarrow> request_context \<times> (string \<times> rat) list option"

definition inside :: "'q phase \<Rightarrow> bool" where
  "inside ph = (case ph of Inside th \<Rightarrow> True | _ \<Rightarrow> False)"

definition holds_key :: "'q env \<Rightarrow> job list \<Rightarrow> 'q system \<Rightarrow> nat \<Rightarrow> int \<times> int \<Rightarrow> bool" where
  "holds_key env jobs s i key = (i < length jobs \<and> inside (sy_phase s i) \<and> job_key env (jobs ! i) = Inr key)"

definition enter_phase :: "nat \<Rightarrow> 'q phase \<Rightarrow> 'q system \<Rightarrow> 'q system" where
  "enter_phase i ph s = s\<lparr>sy_phase := (sy_phase s)(i := ph)\<rparr>"

text \<open>The world as worker \<open>i\<close> sees it: shared, but for its own variables.\<close>

definition seen_by :: "nat \<Rightarrow> 'q system \<Rightarrow> 'q world" where
  "seen_by i s = (sy_world s)\<lparr>w_context := fst (sy_local s i), w_phases := snd (sy_local s i)\<rparr>"

definition run_step :: "nat \<Rightarrow> ('q world \<Rightarrow> 'q world) \<Rightarrow> ('q world \<Rightarrow> ('q world, answer) thread) \<Rightarrow>
    'q system \<Rightarrow> 'q system" where
  "run_step i f g s = (let w = seen_by i s; w' = f w in
     s\<lparr>sy_world := w', sy_phase := (sy_phase s)(i := Inside (g w)),
       sy_local := (sy_local s)(i := (w_context w', w_phases w'))\<rparr>)"

text \<open>What worker \<open>i\<close> does when it is its turn.\<close>

definition fire :: "'q env \<Rightarrow> job list \<Rightarrow> nat \<Rightarrow> 'q system \<Rightarrow> 'q system" where
  "fire env jobs i s = (case sy_phase s i of
     Waiting \<Rightarrow> (case job_key env (jobs ! i) of
         Inl e \<Rightarrow> enter_phase i (Left (Inl e)) s
       | Inr key \<Rightarrow> if list_ex (\<lambda>j. j \<noteq> i \<and> holds_key env jobs s j key) [0..<length jobs] then s
           else enter_phase i (Inside (job_thread env (jobs ! i))) s)
   | Inside th \<Rightarrow> (case th of
         Halt r \<Rightarrow> enter_phase i (Left r) s
       | Step f g \<Rightarrow> run_step i f g s)
   | Left r \<Rightarrow> s)"

inductive sys_step :: "'q env \<Rightarrow> job list \<Rightarrow> nat \<Rightarrow> 'q system \<Rightarrow> 'q system \<Rightarrow> bool"
  for env jobs where
  turn: "i < length jobs \<Longrightarrow> sys_step env jobs i s (fire env jobs i s)"
| give_up: "i < length jobs \<Longrightarrow> sy_phase s i = Waiting \<Longrightarrow> sys_step env jobs i s
    (enter_phase i (Left (Inl (lock_timeout_error (jb_tenant (jobs ! i)) (jb_bot (jobs ! i)) (jb_doc (jobs ! i))))) s)"

definition start_system :: "'q world \<Rightarrow> 'q system" where
  "start_system w = \<lparr>sy_world = w, sy_phase = (\<lambda>_. Waiting), sy_local = (\<lambda>_. (w_context w, w_phases w))\<rparr>"

inductive reachable :: "'q env \<Rightarrow> job list \<Rightarrow> 'q world \<Rightarrow> 'q system \<Rightarrow> bool" for env jobs w where
  init: "reachable env jobs w (start_system w)"
| step: "reachable env jobs w s \<Longrightarrow> sys_step env jobs i s s' \<Longrightarrow> reachable env jobs w s'"

section \<open>One holder per key\<close>

definition exclusive :: "'q env \<Rightarrow> job list \<Rightarrow> 'q system \<Rightarrow> bool" where
  "exclusive env jobs s \<longleftrightarrow> (\<forall>i j key. holds_key env jobs s i key \<and> holds_key env jobs s j key \<longrightarrow> i = j)"

lemma holds_key_world [simp]:
  "holds_key env jobs (run_step i f g s) j key \<longleftrightarrow>
     (if j = i then i < length jobs \<and> job_key env (jobs ! i) = Inr key else holds_key env jobs s j key)"
  by (auto simp: holds_key_def run_step_def Let_def inside_def)

lemma holds_key_enter [simp]:
  "holds_key env jobs (enter_phase i ph s) j key \<longleftrightarrow>
     (if j = i then i < length jobs \<and> inside ph \<and> job_key env (jobs ! i) = Inr key else holds_key env jobs s j key)"
  by (simp add: holds_key_def enter_phase_def)

lemma inside_simps [simp]: "inside (Inside th)" "\<not> inside Waiting" "\<not> inside (Left r)"
  by (simp_all add: inside_def)

lemma exclusive_turn:
  assumes ex: "exclusive env jobs s" and i: "i < length jobs"
  shows "exclusive env jobs (fire env jobs i s)"
proof (cases "sy_phase s i")
  case Waiting
  show ?thesis
  proof (cases "job_key env (jobs ! i)")
    case (Inl e)
    with ex Waiting show ?thesis by (auto simp: fire_def exclusive_def)
  next
    case (Inr key)
    show ?thesis
    proof (cases "list_ex (\<lambda>j. j \<noteq> i \<and> holds_key env jobs s j key) [0..<length jobs]")
      case True
      with Waiting Inr ex show ?thesis by (simp add: fire_def)
    next
      case False
      have "\<not> holds_key env jobs s j key" if "j \<noteq> i" for j
        using False that by (auto simp: list_ex_iff holds_key_def)
      with ex have "exclusive env jobs (enter_phase i (Inside (job_thread env (jobs ! i))) s)"
        unfolding exclusive_def by (metis Inr holds_key_enter sum.inject(2))
      with Waiting Inr False show ?thesis by (simp add: fire_def)
    qed
  qed
next
  case (Inside th)
  have held: "holds_key env jobs s i key \<longleftrightarrow> job_key env (jobs ! i) = Inr key" for key
    using Inside i by (simp add: holds_key_def)
  show ?thesis
    using Inside ex i held by (cases th) (auto simp: fire_def exclusive_def split: if_splits)
next
  case (Left r)
  with ex show ?thesis by (simp add: fire_def)
qed

lemma exclusive_reachable: "reachable env jobs w s \<Longrightarrow> exclusive env jobs s"
proof (induction rule: reachable.induct)
  case init
  show ?case by (simp add: exclusive_def holds_key_def start_system_def)
next
  case (step s i s')
  from step.hyps(2) show ?case
  proof (cases rule: sys_step.cases)
    case turn
    with step.IH show ?thesis by (simp add: exclusive_turn)
  next
    case give_up
    with step.IH show ?thesis by (auto simp: exclusive_def)
  qed
qed

section \<open>What a step may touch\<close>

text \<open>\<open>R w w'\<close> for every step a thread can take, from whatever world.\<close>

primrec all_steps :: "('w \<Rightarrow> 'w \<Rightarrow> bool) \<Rightarrow> ('w, 'a) thread \<Rightarrow> bool" where
  "all_steps R (Halt r) = True"
| "all_steps R (Step f g) = (\<forall>w. R w (f w) \<and> all_steps R (g w))"

lemma all_steps_map [simp]: "all_steps R (map_thread h th) = all_steps R th"
  by (induction th) auto

lemma all_steps_atomically:
  assumes "\<And>w r w'. m w = (r, w') \<Longrightarrow> R w w'" and "\<And>w x w'. m w = (Inr x, w') \<Longrightarrow> all_steps R (k x)"
  shows "all_steps R (atomically m k)"
  unfolding atomically_def by (auto split: sum.split) (metis assms prod.collapse)+

text \<open>
  Every stored point has an id of a chunk of the document its payload names; and a row but for
  when it was last refreshed, which a deduplicated upload of another document sets.
\<close>

definition at_home :: "'q env \<Rightarrow> ('q \<Rightarrow> string \<Rightarrow> coll option) \<Rightarrow> 'q world \<Rightarrow> bool" where
  "at_home env view w \<longleftrightarrow> (\<forall>n i p. stored_by view (w_store w) n i = Some p \<longrightarrow>
     (\<exists>d idx c. lookup (p_payload p) ''doc_id'' = Some (JStr d) \<and> i = e_uuid5_oid env (build_chunk_id d idx c)))"

definition row_of :: "string \<Rightarrow> 'q world \<Rightarrow> doc_row option" where
  "row_of d w = map_option (\<lambda>r. r\<lparr>dc_last_refreshed_at := 0\<rparr>) (find_doc d (w_db w))"

definition spares_rows :: "string \<Rightarrow> 'q world \<Rightarrow> 'q world \<Rightarrow> bool" where
  "spares_rows d w w' \<longleftrightarrow> (\<forall>d'. d' \<noteq> d \<longrightarrow> row_of d' w' = row_of d' w)"

definition spares_points :: "'q env \<Rightarrow> ('q \<Rightarrow> string \<Rightarrow> coll option) \<Rightarrow> string \<Rightarrow> 'q world \<Rightarrow> 'q world \<Rightarrow> bool" where
  "spares_points env view d w w' \<longleftrightarrow> (at_home env view w \<longrightarrow> at_home env view w' \<and>
     (\<forall>d' n. d' \<noteq> d \<longrightarrow> doc_points view (w_store w') n d' = doc_points view (w_store w) n d'))"

definition spares :: "'q env \<Rightarrow> ('q \<Rightarrow> string \<Rightarrow> coll option) \<Rightarrow> string \<Rightarrow> 'q world \<Rightarrow> 'q world \<Rightarrow> bool" where
  "spares env view d w w' \<longleftrightarrow> spares_rows d w w' \<and> spares_points env view d w w'"

lemma at_home_doc:
  assumes "at_home env view w" and "stored_by view (w_store w) n i = Some p" and "of_doc d p"
  shows "\<exists>idx c. i = e_uuid5_oid env (build_chunk_id d idx c)"
  using assms by (metis at_home_def of_doc_payload)

lemma spares_points_same: "w_store w' = w_store w \<Longrightarrow> spares_points env view d w w'"
  by (simp add: spares_points_def at_home_def)

lemma spares_rows_same: "db_docs (w_db w') = db_docs (w_db w) \<Longrightarrow> spares_rows d w w'"
  by (simp add: spares_rows_def row_of_def find_doc_def)

lemma spares_points_prune:
  assumes "\<And>n i. stored_by view (w_store w') n i = stored_by view (w_store w) n i \<or>
    (stored_by view (w_store w') n i = None \<and> (\<exists>p. stored_by view (w_store w) n i = Some p \<and> of_doc d p))"
  shows "spares_points env view d w w'"
  unfolding spares_points_def
proof (intro impI conjI allI)
  assume home: "at_home env view w"
  show "at_home env view w'"
    using home assms unfolding at_home_def by (metis option.distinct(1))
  fix d' n assume other: "d' \<noteq> d"
  have "\<not> of_doc d' p" if "stored_by view (w_store w) n i = Some p" "of_doc d p" for i p
    using home that other unfolding at_home_def by (metis of_doc_payload)
  then show "doc_points view (w_store w') n d' = doc_points view (w_store w) n d'"
    unfolding doc_points_def using assms by (intro Collect_cong) (metis option.distinct(1) option.inject)
qed

lemma spares_points_put:
  assumes inj: "inj (e_uuid5_oid env)"
    and ps: "\<And>p. p \<in> set ps \<Longrightarrow> lookup (p_payload p) ''doc_id'' = Some (JStr d) \<and>
      (\<exists>idx c. p_id p = e_uuid5_oid env (build_chunk_id d idx c))"
    and put: "\<And>n i. stored_by view (w_store w') n i = stored_by view (w_store w) n i \<or>
      (\<exists>p \<in> set ps. p_id p = i \<and> stored_by view (w_store w') n i = Some p)"
  shows "spares_points env view d w w'"
  unfolding spares_points_def
proof (intro impI conjI allI)
  assume home: "at_home env view w"
  show "at_home env view w'"
    unfolding at_home_def
  proof (intro allI impI)
    fix n i p assume "stored_by view (w_store w') n i = Some p"
    with put [of n i] ps [of p] home
    show "\<exists>d idx c. lookup (p_payload p) ''doc_id'' = Some (JStr d) \<and> i = e_uuid5_oid env (build_chunk_id d idx c)"
      unfolding at_home_def by (metis option.inject)
  qed
  fix d' n assume other: "d' \<noteq> d"
  have new: "\<not> of_doc d' p" if "p \<in> set ps" for p
    using ps [OF that] other by (metis of_doc_payload)
  have old: "stored_by view (w_store w') n i = Some p" if p: "stored_by view (w_store w) n i = Some p" "of_doc d' p" for i p
  proof -
    obtain idx c where i: "i = e_uuid5_oid env (build_chunk_id d' idx c)" using at_home_doc [OF home p] by blast
    have "p_id p' \<noteq> i" if "p' \<in> set ps" for p'
      using ps [OF that] inj other unfolding i by (metis build_chunk_id_inject injD)
    with put [of n i] p(1) show ?thesis by metis
  qed
  show "doc_points view (w_store w') n d' = doc_points view (w_store w) n d'"
    unfolding doc_points_def using old new put by (intro Collect_cong) (metis option.inject)
qed

section \<open>Threads touch their own document only\<close>

lemma spares_frames:
  assumes "frame w_store m" and "frame (\<lambda>w. db_docs (w_db w)) m" and "m w = (r, w')"
  shows "spares env view d w w'"
  using frameD [OF assms(1,3)] frameD [OF assms(2,3)]
  by (simp add: spares_def spares_points_same spares_rows_same)

lemma frame_docs_db: "frame w_db m \<Longrightarrow> frame (\<lambda>w. db_docs (w_db w)) m"
  by (simp add: frame_def)

lemma spares_store_part:
  assumes "on_store f w = (r, w')"
    and "\<And>q. f (w_store w) = (r, q) \<Longrightarrow> spares_points env view d w (w\<lparr>w_store := q\<rparr>)"
  shows "spares env view d w w'"
  using assms by (auto elim!: on_storeE simp: spares_def spares_rows_def row_of_def)

lemma spares_trans: "spares env view d w w1 \<Longrightarrow> spares env view d w1 w2 \<Longrightarrow> spares env view d w w2"
  by (simp add: spares_def spares_rows_def spares_points_def)

lemma spares_eq:
  "w_db w1 = w_db w \<Longrightarrow> w_store w1 = w_store w \<Longrightarrow> w_db w2 = w_db w' \<Longrightarrow> w_store w2 = w_store w' \<Longrightarrow>
     spares env view d w w' \<Longrightarrow> spares env view d w1 w2"
  by (simp add: spares_def spares_rows_def spares_points_def at_home_def row_of_def)

text \<open>\<open>sparing\<close> is closed under the ways the stages are put together.\<close>

definition sparing :: "'q env \<Rightarrow> ('q \<Rightarrow> string \<Rightarrow> coll option) \<Rightarrow> string \<Rightarrow> ('q, 'a) action \<Rightarrow> bool" where
  "sparing env view d m \<longleftrightarrow> (\<forall>w r w'. m w = (r, w') \<longrightarrow> spares env view d w w')"

lemma sparing_frames:
  "frame w_store m \<Longrightarrow> frame (\<lambda>w. db_docs (w_db w)) m \<Longrightarrow> sparing env view d m"
  unfolding sparing_def using spares_frames by blast

lemma sparing_timer: "sparing env view d m \<Longrightarrow> sparing env view d (timer env' ph m)"
  unfolding sparing_def
  by (metis timerE pass_time_simps(1,2) spares_eq)

lemma sparing_try:
  "sparing env view d m \<Longrightarrow> (\<And>e. sparing env view d (h e)) \<Longrightarrow> sparing env view d (try_io m h)"
  unfolding sparing_def try_io_def by (auto split: prod.splits sum.splits) (metis spares_trans)+

lemma sparing_bind:
  "sparing env view d m \<Longrightarrow> (\<And>x. sparing env view d (k x)) \<Longrightarrow> sparing env view d (bind_io m k)"
  unfolding sparing_def bind_io_def by (auto split: prod.splits sum.splits) (metis spares_trans)+

lemma sparing_pure [simp]: "sparing env view d (return_io x)" "sparing env view d (raise_io e)"
  "sparing env view d (of_sum y)"
  by (rule sparing_frames; intro frame_intro)+

lemma sparing_if: "sparing env view d m \<Longrightarrow> sparing env view d n \<Longrightarrow> sparing env view d (if c then m else n)"
  by simp

lemma row_of_update:
  assumes "find_doc d' db' = (if d' = d then x else find_doc d' db)" "d' \<noteq> d"
  shows "find_doc d' db' = find_doc d' db"
  using assms by simp

lemma update_doc_spares:
  assumes "update_doc d0 f db = (r, db')" and key: "\<And>r. dc_doc_id r = d0 \<Longrightarrow> dc_doc_id (f r) = d0"
    and "d' \<noteq> d0 \<or> (\<forall>r. (f r)\<lparr>dc_last_refreshed_at := 0\<rparr> = r\<lparr>dc_last_refreshed_at := 0\<rparr>)"
  shows "map_option (\<lambda>r. r\<lparr>dc_last_refreshed_at := 0\<rparr>) (find_doc d' db') =
    map_option (\<lambda>r. r\<lparr>dc_last_refreshed_at := 0\<rparr>) (find_doc d' db)"
  using update_doc_cases [OF assms(1)] assms(3) find_doc_update [of d0 f d' db, OF key]
  by (auto simp: option.map_comp comp_def)

lemma sparing_db:
  fixes env :: "'q env"
  assumes "\<And>db r db' d'. f db = (r, db') \<Longrightarrow> d' \<noteq> d \<Longrightarrow>
    map_option (\<lambda>r. r\<lparr>dc_last_refreshed_at := 0\<rparr>) (find_doc d' db') =
    map_option (\<lambda>r. r\<lparr>dc_last_refreshed_at := 0\<rparr>) (find_doc d' db)"
  shows "sparing env view d (on_db f)"
  unfolding sparing_def
proof (intro allI impI)
  fix w w' :: "'q world" and r assume "on_db f w = (r, w')"
  then obtain db where "f (w_db w) = (r, db)" and "w' = w\<lparr>w_db := db\<rparr>" by (rule on_dbE)
  with assms show "spares env view d w w'"
    by (auto simp: spares_def spares_rows_def row_of_def intro: spares_points_same)
qed

lemma sparing_tick [simp]: "sparing env view d (tick f)" "sparing env view d (wall_clock env')"
  unfolding wall_clock_def by (rule sparing_frames; intro frame_intro; simp)+

lemma sparing_no_change: "sparing env view d (upload_no_change env' t b r)"
  unfolding upload_no_change_def seq_io_def
  by (intro sparing_bind sparing_tick sparing_db sparing_pure)
    (auto simp: refresh_doc_def intro: update_doc_spares)

lemma sparing_mark: "sparing env view d (bind_io (wall_clock env') (\<lambda>now. on_db (mark_deleted now d)))"
  by (intro sparing_bind sparing_tick sparing_db) (auto simp: mark_deleted_def intro: update_doc_spares)

lemma sparing_save: "sparing env view d (timer env' ph (save_document env' t b d body bt h k))"
  unfolding save_document_def
proof (intro sparing_timer sparing_bind sparing_tick sparing_db)
  fix raw now db r db' d'
  assume run: "update_or_create_doc now (document_row t b d body bt h k raw) db = (r, db')" and "d' \<noteq> d"
  then show "map_option (\<lambda>r. r\<lparr>dc_last_refreshed_at := 0\<rparr>) (find_doc d' db') =
      map_option (\<lambda>r. r\<lparr>dc_last_refreshed_at := 0\<rparr>) (find_doc d' db)"
    using update_or_create_doc_found [of now "document_row t b d body bt h k raw" db _ db' d']
      update_or_create_doc_cases [OF run] by (auto simp: document_row_def)
qed (auto intro!: sparing_frames frame_intro)

lemma sparing_store:
  fixes env :: "'q env"
  assumes "\<And>w r q. f (w_store w) = (r, q) \<Longrightarrow> spares_points env view d w (w\<lparr>w_store := q\<rparr>)"
  shows "sparing env view d (on_store f)"
  unfolding sparing_def
proof (intro allI impI)
  fix w w' :: "'q world" and r assume run: "on_store f w = (r, w')"
  then show "spares env view d w w'" using assms by (rule spares_store_part)
qed

lemma sparing_ensure:
  fixes env :: "'q env"
  assumes api: "qdrant_api (e_client env) view"
  shows "sparing env view d (ensure_collection env t b)"
  unfolding ensure_collection_def
proof (intro sparing_timer sparing_try sparing_if sparing_store sparing_pure)
  fix w :: "'q world" and r q assume "get_or_create_collection (e_client env) t b (w_store w) = (r, q)"
  from chunk_store.create_stored [OF qdrant_api.is_chunk_store [OF api] this]
  show "spares_points env view d w (w\<lparr>w_store := q\<rparr>)" by (intro spares_points_prune) simp
qed

lemma sparing_delete:
  fixes env :: "'q env"
  assumes api: "qdrant_api (e_client env) view"
  shows "sparing env view d (on_store (delete_by_doc_id (e_client env) t b d))"
proof (rule sparing_store)
  fix w :: "'q world" and r q assume run: "delete_by_doc_id (e_client env) t b d (w_store w) = (r, q)"
  show "spares_points env view d w (w\<lparr>w_store := q\<rparr>)"
    using chunk_store.delete_stored [OF qdrant_api.is_chunk_store [OF api] run]
    by (intro spares_points_prune) auto
qed

lemma sparing_clear:
  fixes env :: "'q env"
  assumes api: "qdrant_api (e_client env) view"
  shows "sparing env view d (clear_document env t b d)" and "sparing env view d (delete_chunks env t b d)"
  unfolding clear_document_def delete_chunks_def seq_io_def
  by (intro sparing_try sparing_bind sparing_if sparing_delete [OF api] sparing_pure)+

lemma sparing_write:
  fixes env :: "'q env"
  assumes api: "qdrant_api (e_client env) view"
    and ids: "inj (e_uuid5_oid env)"
    and ps: "list_all2 (point_for env t b d source emb) xs ps"
  shows "sparing env view d (write_points env d n ps)"
  unfolding write_points_def
proof (intro sparing_timer sparing_try sparing_store sparing_pure spares_points_put [OF ids])
  fix p assume "p \<in> set ps"
  with ps obtain x where "point_for env t b d source emb x p" by (metis in_set_conv_nth list_all2_conv_all_nth)
  then show "lookup (p_payload p) ''doc_id'' = Some (JStr d) \<and>
      (\<exists>idx c. p_id p = e_uuid5_oid env (build_chunk_id d idx c))"
    by (cases x) (auto simp: point_for_def)
next
  fix w :: "'q world" and r q m i assume run: "upsert_points (e_client env) n ps (w_store w) = (r, q)"
  note store = qdrant_api.is_chunk_store [OF api]
  show "stored_by view (w_store (w\<lparr>w_store := q\<rparr>)) m i = stored_by view (w_store w) m i \<or>
      (\<exists>p \<in> set ps. p_id p = i \<and> stored_by view (w_store (w\<lparr>w_store := q\<rparr>)) m i = Some p)"
  proof (cases r)
    case (Inl e)
    with chunk_store.upsert_failed [OF store, of n ps "w_store w" e q m i] run show ?thesis by auto
  next
    case (Inr u)
    with chunk_store.upsert_stored [OF store, of n ps "w_store w" u q m i] run points_map_Some [of ps i]
    show ?thesis by (auto split: if_splits option.splits)
  qed
qed

lemma all_steps_sparing:
  "sparing env view d m \<Longrightarrow> (\<And>w x w'. m w = (Inr x, w') \<Longrightarrow> all_steps (spares env view d) (k x)) \<Longrightarrow>
     all_steps (spares env view d) (atomically m k)"
  by (rule all_steps_atomically) (auto simp: sparing_def)

lemma sparing_reads:
  "sparing env view d (gets_io f)" "sparing env view d (tenant_of env t)" "sparing env view d (bot_of env tn b)"
  "sparing env view d (timer env ph (return_io x))" "sparing env view d (embed_chunks env flat)"
  "sparing env view d (map_io (build_point env t b d0 source emb) xs)"
  by (intro sparing_frames sparing_timer sparing_pure frame_docs_db frame_intro; simp)+

lemma all_steps_no_change: "all_steps (spares env view d) (no_change_thread env t b r)"
  unfolding no_change_thread_def by (intro all_steps_sparing sparing_no_change) simp

lemma all_steps_fresh:
  fixes env :: "'q env"
  assumes api: "qdrant_api (e_client env) view"
    and ids: "inj (e_uuid5_oid env)"
  shows "all_steps (spares env view d) (fresh_thread env t b d body bt hash rep)"
  unfolding fresh_thread_def
proof (rule all_steps_sparing [OF sparing_ensure [OF api]], rule all_steps_sparing [OF sparing_reads(4)])
  fix name flat
  have "all_steps (spares env view d) (atomically (embed_chunks env flat) (\<lambda>emb.
     atomically (map_io (build_point env t b d (source_of body hash) emb) (enum_list flat)) (\<lambda>points.
     atomically (when_io rep (clear_document env t b d)) (\<lambda>_.
     atomically (write_points env d name points) (\<lambda>_.
     atomically (timer env ''doc_save'' (save_document env t b d body bt hash (length points))) (\<lambda>_.
     Halt (Inr \<lparr>ur_doc_id = d, ur_chunks_created = length points,
         ur_items_processed = length (bd_items body), ur_collection_name = name,
         ur_status = (if rep then ''replaced'' else ''created'')\<rparr>)))))))"
  proof (rule all_steps_sparing [OF sparing_reads(5)], rule all_steps_sparing [OF sparing_reads(6)])
    fix emb w points w'
    assume "map_io (build_point env t b d (source_of body hash) emb) (enum_list flat) w = (Inr points, w')"
    note put = sparing_write [OF api ids build_pointsE(1) [OF this]]
    have "sparing env view d (when_io rep (clear_document env t b d))"
      by (cases rep) (simp_all add: when_io_def sparing_clear(1) [OF api] sparing_pure)
    then show "all_steps (spares env view d) (atomically (when_io rep (clear_document env t b d)) (\<lambda>_.
       atomically (write_points env d name points) (\<lambda>_.
       atomically (timer env ''doc_save'' (save_document env t b d body bt hash (length points))) (\<lambda>_.
       Halt (Inr \<lparr>ur_doc_id = d, ur_chunks_created = length points,
         ur_items_processed = length (bd_items body), ur_collection_name = name,
         ur_status = (if rep then ''replaced'' else ''created'')\<rparr>)))))"
      by (intro all_steps_sparing put sparing_save) simp_all
  qed
  then show "all_steps (spares env view d) (if flat = [] then Halt (Inl (Upload (NoEmbeddableContentError
       ''No chunks survived after chunking.''
       [(''items_count'', JInt (int (length (bd_items body))))])))
     else if MAX_CHUNKS_PER_DOC < length flat then Halt (Inl (Upload (DocumentTooLargeError
       (''Document produces '' @ show_nat (length flat) @ '' chunks, max is '' @ show_nat MAX_CHUNKS_PER_DOC)
       [(''chunk_count'', JInt (int (length flat))), (''max'', JInt (int MAX_CHUNKS_PER_DOC))])))
     else atomically (embed_chunks env flat) (\<lambda>emb.
       atomically (map_io (build_point env t b d (source_of body hash) emb) (enum_list flat)) (\<lambda>points.
       atomically (when_io rep (clear_document env t b d)) (\<lambda>_.
       atomically (write_points env d name points) (\<lambda>_.
       atomically (timer env ''doc_save'' (save_document env t b d body bt hash (length points))) (\<lambda>_.
       Halt (Inr \<lparr>ur_doc_id = d, ur_chunks_created = length points,
         ur_items_processed = length (bd_items body), ur_collection_name = name,
         ur_status = (if rep then ''replaced'' else ''created'')\<rparr>)))))))"
    by (simp del: all_steps.simps(2))
qed

lemma all_steps_job:
  fixes env :: "'q env"
  assumes api: "qdrant_api (e_client env) view"
    and ids: "inj (e_uuid5_oid env)"
  shows "all_steps (spares env view (jb_doc j)) (job_thread env j)"
proof (cases "jb_work j")
  case (UploadWork body)
  have "all_steps (spares env view d) (deduplicated_thread env t b d body bt ex)" for d t b bt ex
    unfolding deduplicated_thread_def Let_def
    by (auto simp del: all_steps.simps(2) split: option.split
        intro!: all_steps_sparing sparing_reads all_steps_no_change all_steps_fresh [OF api ids])
  then have "all_steps (spares env view d) (upload_thread env t b d body)" for d t b
    unfolding upload_thread_def
    by (intro all_steps_sparing sparing_reads) (auto split: option.split)
  with UploadWork show ?thesis by (simp add: job_thread_def)
next
  case DeleteWork
  have "all_steps (spares env view d) (delete_thread env t b d)" for d t b
    unfolding delete_thread_def
    by (auto simp del: all_steps.simps(2) split: option.split
        intro!: all_steps_sparing sparing_reads sparing_clear(2) [OF api] sparing_mark)
  with DeleteWork show ?thesis by (simp add: job_thread_def)
qed

section \<open>Sections of different documents\<close>

definition on_own_document :: "'q env \<Rightarrow> ('q \<Rightarrow> string \<Rightarrow> coll option) \<Rightarrow> job list \<Rightarrow> 'q system \<Rightarrow> bool" where
  "on_own_document env view jobs s \<longleftrightarrow> at_home env view (sy_world s) \<and>
     (\<forall>i th. i < length jobs \<longrightarrow> sy_phase s i = Inside th \<longrightarrow> all_steps (spares env view (jb_doc (jobs ! i))) th)"

lemma spares_refl: "spares env view d w w"
  by (simp add: spares_def spares_rows_def spares_points_def)

lemma seen_by_simps [simp]: "w_db (seen_by i s) = w_db (sy_world s)" "w_store (seen_by i s) = w_store (sy_world s)"
  by (simp_all add: seen_by_def)

lemma enter_phase_simps [simp]:
  "sy_world (enter_phase i ph s) = sy_world s" "sy_phase (enter_phase i ph s) = (sy_phase s)(i := ph)"
  by (simp_all add: enter_phase_def)

lemma run_step_simps [simp]:
  "sy_world (run_step i f g s) = f (seen_by i s)" "sy_phase (run_step i f g s) = (sy_phase s)(i := Inside (g (seen_by i s)))"
  by (simp_all add: run_step_def Let_def)

lemma turn_spares:
  assumes own: "on_own_document env view jobs s" and i: "i < length jobs"
  shows "spares env view (jb_doc (jobs ! i)) (sy_world s) (sy_world (fire env jobs i s))"
proof (cases "\<exists>f g. sy_phase s i = Inside (Step f g)")
  case True
  then obtain f g where ph: "sy_phase s i = Inside (Step f g)" by blast
  with own i have "spares env view (jb_doc (jobs ! i)) (seen_by i s) (f (seen_by i s))"
    by (auto simp: on_own_document_def)
  then have "spares env view (jb_doc (jobs ! i)) (sy_world s) (f (seen_by i s))"
    by (rule spares_eq [rotated -1]) simp_all
  with ph show ?thesis by (simp add: fire_def)
next
  case False
  then have "sy_world (fire env jobs i s) = sy_world s"
    by (auto simp: fire_def split: phase.split thread.split sum.split)
  then show ?thesis by (simp add: spares_refl)
qed

lemma own_reachable:
  assumes api: "qdrant_api (e_client env) view" and ids: "inj (e_uuid5_oid env)" and home: "at_home env view w"
  shows "reachable env jobs w s \<Longrightarrow> on_own_document env view jobs s"
proof (induction rule: reachable.induct)
  case init
  show ?case using home by (simp add: on_own_document_def start_system_def)
next
  case (step s i s')
  from step.hyps(2) show ?case
  proof (cases rule: sys_step.cases)
    case turn
    have "at_home env view (sy_world (fire env jobs i s))"
      using turn_spares [OF step.IH turn(2)] step.IH by (simp add: spares_def spares_points_def on_own_document_def)
    moreover have "all_steps (spares env view (jb_doc (jobs ! k))) th"
      if k: "k < length jobs" and th: "sy_phase (fire env jobs i s) k = Inside th" for k th
    proof (cases "k = i")
      case True
      with th show ?thesis
        using step.IH k all_steps_job [OF api ids, of "jobs ! i"]
        by (auto simp: fire_def on_own_document_def split: phase.splits thread.splits sum.splits if_splits)
    next
      case False
      with th have "sy_phase s k = Inside th"
        by (auto simp: fire_def split: phase.splits thread.splits sum.splits if_splits)
      with step.IH k show ?thesis by (simp add: on_own_document_def)
    qed
    ultimately show ?thesis by (simp add: turn(1) on_own_document_def)
  next
    case give_up
    with step.IH show ?thesis by (simp add: on_own_document_def)
  qed
qed


section \<open>Progress\<close>

lemma fire_to_end:
  assumes "sy_phase s j = Inside th"
  shows "\<exists>n r. sy_phase ((fire env jobs j ^^ n) s) j = Left r \<and>
    (\<forall>i. i \<noteq> j \<longrightarrow> sy_phase ((fire env jobs j ^^ n) s) i = sy_phase s i)"
  using assms
proof (induction th arbitrary: s)
  case (Halt r)
  then have "sy_phase (fire env jobs j s) = (sy_phase s)(j := Left r)" by (simp add: fire_def)
  then show ?case by (intro exI [of _ 1] exI [of _ r]) simp
next
  case (Step f g)
  then have now: "sy_phase (fire env jobs j s) = (sy_phase s)(j := Inside (g (seen_by j s)))" by (simp add: fire_def)
  then have "sy_phase (fire env jobs j s) j = Inside (g (seen_by j s))" by simp
  from Step.IH [OF rangeI this] obtain n r where
    "sy_phase ((fire env jobs j ^^ n) (fire env jobs j s)) j = Left r"
    "\<forall>i. i \<noteq> j \<longrightarrow> sy_phase ((fire env jobs j ^^ n) (fire env jobs j s)) i = sy_phase (fire env jobs j s) i" by blast
  then show ?case using now by (intro exI [of _ "Suc n"] exI [of _ r]) (simp add: funpow_Suc_right del: funpow.simps)
qed


end
