(* ===== verification/DocumentStore.thy ===== *)
theory DocumentStore
  imports Concurrency
begin

text \<open>
  What the pipelines promise, without tables, collections and vectors: a map from document ids
  to their owner and their content, which is a content hash and the texts of the chunks by
  chunk id. Every request that completes is one step of this map; a request that fails leaves
  all other documents alone.
\<close>

section \<open>The abstract store\<close>

record content =
  ct_hash :: string
  ct_chunks :: "(string \<times> string) set"

record stored_doc =
  sd_tenant :: string
  sd_bot :: string
  sd_content :: "content option"

type_synonym doc_store = "string \<Rightarrow> stored_doc option"

definition owned_by :: "string \<Rightarrow> string \<Rightarrow> stored_doc \<Rightarrow> bool" where
  "owned_by t b e \<longleftrightarrow> sd_tenant e = t \<and> sd_bot e = b"

definition has_content :: "doc_store \<Rightarrow> string \<Rightarrow> string \<Rightarrow> string \<Rightarrow> string \<Rightarrow> bool" where
  "has_content A t b h d \<longleftrightarrow> (\<exists>e c. A d = Some e \<and> owned_by t b e \<and> sd_content e = Some c \<and> ct_hash c = h)"

text \<open>An upload: nothing, where the bot has the content already; or the new content.\<close>

definition spec_upload ::
  "string \<Rightarrow> string \<Rightarrow> string \<Rightarrow> content \<Rightarrow> doc_store \<Rightarrow> upload_result \<Rightarrow> doc_store \<Rightarrow> bool" where
  "spec_upload t b d c A res A' \<longleftrightarrow>
     (\<forall>e. A d = Some e \<longrightarrow> owned_by t b e) \<and>
     (if \<exists>d'. has_content A t b (ct_hash c) d'
      then ur_status res = ''no_change'' \<and> has_content A t b (ct_hash c) (ur_doc_id res) \<and> A' = A
      else ur_status res = (if A d = None then ''created'' else ''replaced'') \<and>
        ur_doc_id res = d \<and> ur_chunks_created res = card (ct_chunks c) \<and>
        A' = A(d \<mapsto> \<lparr>sd_tenant = t, sd_bot = b, sd_content = Some c\<rparr>))"

definition spec_delete ::
  "string \<Rightarrow> string \<Rightarrow> string \<Rightarrow> doc_store \<Rightarrow> delete_result \<Rightarrow> doc_store \<Rightarrow> bool" where
  "spec_delete t b d A res A' \<longleftrightarrow> (\<exists>e. A d = Some e \<and> owned_by t b e \<and>
     dr_doc_id res = d \<and> dr_was_already_deleted res = (sd_content e = None) \<and>
     A' = A(d \<mapsto> e\<lparr>sd_content := None\<rparr>))"

section \<open>The abstraction\<close>

definition chunk_texts :: "point set \<Rightarrow> (string \<times> string) set" where
  "chunk_texts P = {(i, s). \<exists>p \<in> P. lookup (p_payload p) ''chunk_id'' = Some (JStr i) \<and>
     lookup (p_payload p) ''text'' = Some (JStr s)}"

definition content_of :: "('q \<Rightarrow> string \<Rightarrow> coll option) \<Rightarrow> 'q \<Rightarrow> doc_row \<Rightarrow> content option" where
  "content_of view q r = (if dc_status r = ACTIVE then Some \<lparr>ct_hash = dc_content_hash r,
     ct_chunks = (case collection_name (dc_tenant_id r) (dc_bot_id r) of Inl e \<Rightarrow> {}
       | Inr n \<Rightarrow> chunk_texts (doc_points view q n (dc_doc_id r)))\<rparr> else None)"

definition abstract_doc :: "('q \<Rightarrow> string \<Rightarrow> coll option) \<Rightarrow> 'q \<Rightarrow> doc_row \<Rightarrow> stored_doc" where
  "abstract_doc view q r = \<lparr>sd_tenant = dc_tenant_id r, sd_bot = dc_bot_id r, sd_content = content_of view q r\<rparr>"

definition docs_of :: "('q \<Rightarrow> string \<Rightarrow> coll option) \<Rightarrow> 'q world \<Rightarrow> doc_store" where
  "docs_of view w = (\<lambda>d. map_option (abstract_doc view (w_store w)) (find_doc d (w_db w)))"

text \<open>What a request asks to store.\<close>

definition requested :: "'q env \<Rightarrow> string \<Rightarrow> upload_body \<Rightarrow> content" where
  "requested env d body = \<lparr>ct_hash = incoming_hash (e_sha256 env) body,
     ct_chunks = set (map (\<lambda>(idx, it, c). (build_chunk_id d idx (c_index c), c_text c)) (flat_chunks env body))\<rparr>"

text \<open>The states requests meet when no earlier one has failed half-way.\<close>

definition in_order :: "'q env \<Rightarrow> ('q \<Rightarrow> string \<Rightarrow> coll option) \<Rightarrow> 'q world \<Rightarrow> bool" where
  "in_order env view w \<longleftrightarrow> db_wf (w_db w) \<and> at_home env view w \<and>
     (\<forall>d n. find_doc d (w_db w) = None \<longrightarrow> doc_points view (w_store w) n d = {})"

text \<open>A request through its lock.\<close>

definition serve_request :: "'q env \<Rightarrow> job \<Rightarrow> ('q, answer) action" where
  "serve_request env j = (case jb_work j of
     UploadWork body \<Rightarrow> bind_io (upload_execute env (jb_tenant j) (jb_bot j) (jb_doc j) body) (\<lambda>res. return_io (Uploaded res))
   | DeleteWork \<Rightarrow> bind_io (delete_execute env (jb_tenant j) (jb_bot j) (jb_doc j)) (\<lambda>res. return_io (Deleted res)))"

definition spec_answer :: "'q env \<Rightarrow> job \<Rightarrow> doc_store \<Rightarrow> answer \<Rightarrow> doc_store \<Rightarrow> bool" where
  "spec_answer env j A ans A' = (case jb_work j of
     UploadWork body \<Rightarrow> (case ans of
         Uploaded res \<Rightarrow> spec_upload (jb_tenant j) (jb_bot j) (jb_doc j) (requested env (jb_doc j) body) A res A'
       | Deleted res \<Rightarrow> False)
   | DeleteWork \<Rightarrow> (case ans of
         Uploaded res \<Rightarrow> False
       | Deleted res \<Rightarrow> spec_delete (jb_tenant j) (jb_bot j) (jb_doc j) A res A'))"

section \<open>Other documents\<close>

lemma run_spares:
  assumes "all_steps (spares env view d) th"
  shows "spares env view d w (snd (run_thread th w))"
  using assms
proof (induction th arbitrary: w)
  case (Halt r)
  then show ?case by (simp add: run_thread.simps spares_refl)
next
  case (Step f g)
  then show ?case by (auto simp: run_thread.simps intro: spares_trans)
qed

lemma lock_spares:
  assumes run: "upload_lock env t b d m w = (r, w')" and m: "\<And>w. spares env view d w (snd (m w))"
  shows "spares env view d w w'"
  using guard_cases_key [OF run]
proof (elim disjE exE conjE)
  assume "idled w w'"
  then show ?thesis by (intro spares_eq [OF refl refl _ _ spares_refl]) (simp_all add: idled_same)
next
  fix key w1 w2 assume idle: "idled w w1" and body: "m (locked key w1) = (r, w2)" and w': "w' = unlocked key w2"
  have "spares env view d (locked key w1) w2" using m [of "locked key w1"] body by simp
  then show ?thesis
    by (rule spares_eq [rotated -1]) (simp_all add: w' locked_def unlocked_def idled_same [OF idle])
qed

lemma pipelines_spare:
  fixes env :: "'q env"
  assumes api: "qdrant_api (e_client env) view" and ids: "inj (e_uuid5_oid env)"
  shows "upload_execute env t b d body w = (r, w') \<Longrightarrow> spares env view d w w'"
    and "delete_execute env t b d w = (r', w') \<Longrightarrow> spares env view d w w'"
proof -
  have "all_steps (spares env view d) (upload_thread env t b d body)"
    using all_steps_job [OF api ids, of "\<lparr>jb_tenant = t, jb_bot = b, jb_doc = d, jb_work = UploadWork body\<rparr>"]
    by (simp add: job_thread_def)
  then have "spares env view d w (snd (upload_locked env t b d body w))" for w
    by (metis run_spares run_upload_thread)
  then show "upload_execute env t b d body w = (r, w') \<Longrightarrow> spares env view d w w'"
    unfolding upload_execute_def by (rule lock_spares [rotated])
  have "all_steps (spares env view d) (delete_thread env t b d)"
    using all_steps_job [OF api ids, of "\<lparr>jb_tenant = t, jb_bot = b, jb_doc = d, jb_work = DeleteWork\<rparr>"]
    by (simp add: job_thread_def)
  then have "spares env view d w (snd (delete_locked env t b d w))" for w
    by (metis run_spares run_delete_thread)
  then show "delete_execute env t b d w = (r', w') \<Longrightarrow> spares env view d w w'"
    unfolding delete_execute_def by (rule lock_spares [rotated])
qed

lemma spares_docs_of:
  assumes "spares env view d w w'" and "at_home env view w" and "d' \<noteq> d"
  shows "docs_of view w' d' = docs_of view w d'"
proof -
  have rows: "row_of d' w' = row_of d' w" and pts: "doc_points view (w_store w') n d' = doc_points view (w_store w) n d'" for n
    using assms by (auto simp: spares_def spares_rows_def spares_points_def)
  have same: "abstract_doc view (w_store w') r' = abstract_doc view (w_store w) r"
    if "r'\<lparr>dc_last_refreshed_at := 0\<rparr> = r\<lparr>dc_last_refreshed_at := 0\<rparr>" "dc_doc_id r = d'" for r r'
  proof -
    have "dc_tenant_id r' = dc_tenant_id r" "dc_bot_id r' = dc_bot_id r" "dc_status r' = dc_status r"
      "dc_content_hash r' = dc_content_hash r" "dc_doc_id r' = dc_doc_id r"
      using arg_cong [OF that(1), of dc_tenant_id] arg_cong [OF that(1), of dc_bot_id]
        arg_cong [OF that(1), of dc_status] arg_cong [OF that(1), of dc_content_hash]
        arg_cong [OF that(1), of dc_doc_id] by simp_all
    then show ?thesis using that(2) pts by (auto simp: abstract_doc_def content_of_def split: sum.split)
  qed
  show ?thesis
    using rows same unfolding docs_of_def row_of_def
    by (cases "find_doc d' (w_db w')"; cases "find_doc d' (w_db w)") (auto dest: find_docD)
qed

section \<open>Uploads\<close>

lemma chunk_texts_points:
  assumes "list_all2 (point_for env t b d source emb) (enum_list xs) ps"
  shows "chunk_texts (set ps) = set (map (\<lambda>(idx, it, c). (build_chunk_id d idx (c_index c), c_text c)) xs)"
proof -
  have one: "lookup (p_payload (ps ! i)) ''chunk_id'' = Some (JStr (build_chunk_id d idx (c_index c)))"
    "lookup (p_payload (ps ! i)) ''text'' = Some (JStr (c_text c))"
    if "i < length xs" "xs ! i = (idx, it, c)" for i idx it c
    using list_all2_nthD [OF assms, of i] that by (auto simp: point_for_def)
  have len: "length ps = length xs" using list_all2_lengthD [OF assms] by simp
  show ?thesis
  proof (intro set_eqI iffI)
    fix x assume "x \<in> chunk_texts (set ps)"
    then obtain i where i: "i < length xs" "lookup (p_payload (ps ! i)) ''chunk_id'' = Some (JStr (fst x))"
      "lookup (p_payload (ps ! i)) ''text'' = Some (JStr (snd x))"
      by (auto simp: chunk_texts_def in_set_conv_nth len)
    obtain idx it c where c: "xs ! i = (idx, it, c)" by (cases "xs ! i") auto
    with one [OF i(1) c] i have "x = (build_chunk_id d idx (c_index c), c_text c)" by (cases x) simp
    with i(1) c show "x \<in> set (map (\<lambda>(idx, it, c). (build_chunk_id d idx (c_index c), c_text c)) xs)"
      by (force simp: in_set_conv_nth)
  next
    fix x assume "x \<in> set (map (\<lambda>(idx, it, c). (build_chunk_id d idx (c_index c), c_text c)) xs)"
    then obtain i idx it c where i: "i < length xs" "xs ! i = (idx, it, c)"
      and x: "x = (build_chunk_id d idx (c_index c), c_text c)"
      by (auto simp: in_set_conv_nth split: prod.splits)
    have "ps ! i \<in> set ps" using i(1) len by simp
    with one [OF i] show "x \<in> chunk_texts (set ps)" by (auto simp: chunk_texts_def x)
  qed
qed

lemma card_requested: "card (ct_chunks (requested env d body)) = length (flat_chunks env body)"
proof -
  let ?f = "\<lambda>(idx, it, c). (build_chunk_id d idx (c_index c), c_text c)"
  have "fst \<circ> ?f = chunk_id_of d" by (auto simp: fun_eq_iff chunk_id_of_def)
  with flat_chunks_distinct [of d env body] have "distinct (map fst (map ?f (flat_chunks env body)))" by simp
  then have "distinct (map ?f (flat_chunks env body))" by (simp only: distinct_map)
  from distinct_card [OF this] show ?thesis by (simp add: requested_def)
qed

lemma has_content_docs_of:
  "has_content (docs_of view w) t b h d \<longleftrightarrow> (\<exists>r. find_doc d (w_db w) = Some r \<and> dc_tenant_id r = t \<and>
     dc_bot_id r = b \<and> dc_status r = ACTIVE \<and> dc_content_hash r = h)"
  by (auto simp: has_content_def docs_of_def abstract_doc_def content_of_def owned_by_def split: if_splits)

lemma row_known: "db_wf db \<Longrightarrow> r \<in> set (db_docs db) \<Longrightarrow> find_doc (dc_doc_id r) db = Some r"
  unfolding find_doc_def by (rule find_key_unique) (simp_all add: db_wf_def)

lemma live_row: "db_wf db \<Longrightarrow> r \<in> set (db_docs db) \<Longrightarrow> dc_status r = ACTIVE \<longleftrightarrow> 0 < dc_chunk_count r"
  by (auto simp: db_wf_def doc_ok_def live_or_deleted_def ACTIVE_def DELETED_def)

lemma abstract_doc_refreshed [simp]:
  "abstract_doc view q (x\<lparr>dc_last_refreshed_at := now\<rparr>) = abstract_doc view q x"
  by (simp add: abstract_doc_def content_of_def cong: sum.case_cong)

lemma no_change_docs_of:
  assumes "db_docs db' = map (\<lambda>x. if dc_doc_id x = d then x\<lparr>dc_last_refreshed_at := now\<rparr> else x) (db_docs (w_db w))"
    and "w_db w' = db'" and "w_store w' = w_store w"
  shows "docs_of view w' = docs_of view w"
proof
  fix d'
  have "find_doc d' (w_db w') = (if d' = d then map_option (\<lambda>x. x\<lparr>dc_last_refreshed_at := now\<rparr>) (find_doc d (w_db w))
      else find_doc d' (w_db w))"
    using find_doc_update [of d "\<lambda>x. x\<lparr>dc_last_refreshed_at := now\<rparr>" d' "w_db w"] assms(1,2)
    by (simp add: find_doc_def)
  then show "docs_of view w' d' = docs_of view w d'"
    using assms(3) by (simp add: docs_of_def option.map_comp o_def)
qed

lemma spec_upload_same:
  assumes order: "in_order env view w" and run: "upload_execute env t b d body w = (Inr res, w')"
    and mine: "\<forall>r. find_doc d (w_db w) = Some r \<longrightarrow> \<not> foreign t b r" and same: "ur_status res = ''no_change''"
  shows "spec_upload t b d (requested env d body) (docs_of view w) res (docs_of view w')"
proof -
  from upload_unchanged [OF run same] obtain r now where
    r: "r \<in> set (db_docs (w_db w))" "dc_tenant_id r = t" "dc_bot_id r = b"
      "dc_content_hash r = incoming_hash (e_sha256 env) body" "0 < dc_chunk_count r" "ur_doc_id res = dc_doc_id r"
    and docs: "db_docs (w_db w') = map (\<lambda>x. if dc_doc_id x = dc_doc_id r then x\<lparr>dc_last_refreshed_at := now\<rparr> else x)
        (db_docs (w_db w))" and store: "w_store w' = w_store w" by blast
  have wf: "db_wf (w_db w)" using order by (simp add: in_order_def)
  have "has_content (docs_of view w) t b (ct_hash (requested env d body)) (ur_doc_id res)"
    using row_known [OF wf r(1)] live_row [OF wf r(1)] r by (simp add: has_content_docs_of requested_def)
  moreover have "docs_of view w' = docs_of view w"
    using docs refl store by (rule no_change_docs_of)
  moreover have "\<forall>e. docs_of view w d = Some e \<longrightarrow> owned_by t b e"
    using mine by (auto simp: docs_of_def owned_by_def abstract_doc_def foreign_def)
  ultimately show ?thesis using same unfolding spec_upload_def by auto
qed

lemma unknown_content:
  assumes wf: "db_wf (w_db w)" and none: "content_unknown t b d h db" and docs: "db_docs db = db_docs (w_db w)"
  shows "\<not> has_content (docs_of view w) t b h d'"
proof
  assume "has_content (docs_of view w) t b h d'"
  then obtain r where r: "find_doc d' (w_db w) = Some r" "dc_tenant_id r = t" "dc_bot_id r = b"
    "dc_status r = ACTIVE" "dc_content_hash r = h" by (auto simp: has_content_docs_of)
  from find_docD [OF r(1)] have mem: "r \<in> set (db_docs (w_db w))" "dc_doc_id r = d'" by simp_all
  show False
  proof (cases "d' = d")
    case True
    with none r live_row [OF wf mem(1)] find_doc_cong [OF docs, of d] show False
      by (auto simp: content_unknown_def)
  next
    case False
    with none r live_row [OF wf mem(1)] mem docs show False
      by (auto simp: content_unknown_def content_match_None same_content_def)
  qed
qed

lemma spec_upload_new:
  fixes env :: "'q env"
  assumes api: "qdrant_api (e_client env) view" and ids: "inj (e_uuid5_oid env)" and order: "in_order env view w"
    and run: "upload_execute env t b d body w = (Inr res, w')"
    and mine: "\<forall>r. find_doc d (w_db w) = Some r \<longrightarrow> \<not> foreign t b r"
    and fresh: "ur_status res \<noteq> ''no_change''"
    and none: "\<And>d'. \<not> has_content (docs_of view w) t b (incoming_hash (e_sha256 env) body) d'"
  shows "spec_upload t b d (requested env d body) (docs_of view w) res (docs_of view w')"
proof -
  have "inj_on (e_uuid5_oid env) (chunk_ids env d body)" using ids by (rule inj_on_subset) simp
  from upload_stored [OF api run fresh this] order obtain ps emb r where
    name: "collection_name t b = Inr (ur_collection_name res)"
    and pts: "doc_points view (w_store w') (ur_collection_name res) d = set ps"
      "list_all2 (point_for env t b d (source_of body (incoming_hash (e_sha256 env) body)) emb)
        (enum_list (flat_chunks env body)) ps"
    and res: "ur_doc_id res = d" "ur_chunks_created res = length ps"
      "ur_status res = (if find_doc d (w_db w) = None then ''created'' else ''replaced'')"
    and row: "find_doc d (w_db w') = Some r" "dc_tenant_id r = t" "dc_bot_id r = b" "dc_status r = ACTIVE"
      "dc_content_hash r = incoming_hash (e_sha256 env) body"
    by (auto simp: in_order_def)
  have "docs_of view w' d = Some \<lparr>sd_tenant = t, sd_bot = b, sd_content = Some (requested env d body)\<rparr>"
    using row find_docD [OF row(1)] chunk_texts_points [OF pts(2)]
    by (simp add: docs_of_def abstract_doc_def content_of_def name pts(1) requested_def)
  moreover have "docs_of view w' d' = docs_of view w d'" if "d' \<noteq> d" for d'
    using spares_docs_of [OF pipelines_spare(1) [OF api ids run] _ that] order by (simp add: in_order_def)
  ultimately have "docs_of view w' = (docs_of view w)(d \<mapsto>
      \<lparr>sd_tenant = t, sd_bot = b, sd_content = Some (requested env d body)\<rparr>)" by (auto simp: fun_eq_iff)
  moreover have "\<forall>e. docs_of view w d = Some e \<longrightarrow> owned_by t b e"
    using mine by (auto simp: docs_of_def owned_by_def abstract_doc_def foreign_def)
  moreover have "length ps = card (ct_chunks (requested env d body))"
    using list_all2_lengthD [OF pts(2)] by (simp add: card_requested)
  moreover have "docs_of view w d = None \<longleftrightarrow> find_doc d (w_db w) = None" by (simp add: docs_of_def)
  moreover have "ct_hash (requested env d body) = incoming_hash (e_sha256 env) body" by (simp add: requested_def)
  ultimately show ?thesis using res none unfolding spec_upload_def by simp
qed

lemma upload_refines:
  fixes env :: "'q env"
  assumes api: "qdrant_api (e_client env) view" and ids: "inj (e_uuid5_oid env)" and order: "in_order env view w"
    and run: "upload_execute env t b d body w = (Inr res, w')"
  shows "spec_upload t b d (requested env d body) (docs_of view w) res (docs_of view w')"
proof -
  from upload_executeE [OF run] obtain w0 bt w1 where ready: "rows_ready t b bt w w0"
    and mine: "\<forall>r. find_doc d (w_db w) = Some r \<longrightarrow> \<not> foreign t b r"
    and cases: "(\<exists>r. upload_no_change env t b r w0 = (Inr res, w1)) \<or>
      (\<exists>ps rep. content_unknown t b d (incoming_hash (e_sha256 env) body) (w_db w0) \<and>
        fresh_done env t b d body bt (incoming_hash (e_sha256 env) body) rep res ps w0 w1)" by blast
  show ?thesis
  proof (cases "ur_status res = ''no_change''")
    case True
    with spec_upload_same [OF order run mine] show ?thesis by simp
  next
    case False
    with cases have "content_unknown t b d (incoming_hash (e_sha256 env) body) (w_db w0)"
      by (auto dest: upload_no_changeE(7))
    then have "\<not> has_content (docs_of view w) t b (incoming_hash (e_sha256 env) body) d'" for d'
      using ready order by (intro unknown_content [of w t b d _ "w_db w0"]) (simp_all add: rows_ready_def in_order_def)
    with spec_upload_new [OF api ids order run mine False] show ?thesis by blast
  qed
qed

section \<open>Deletes\<close>

lemma delete_refines:
  fixes env :: "'q env"
  assumes api: "qdrant_api (e_client env) view" and ids: "inj (e_uuid5_oid env)" and order: "in_order env view w"
    and run: "delete_execute env t b d w = (Inr res, w')"
  shows "spec_delete t b d (docs_of view w) res (docs_of view w')"
proof -
  from delete_executeE [OF run] obtain r now where r: "find_doc d (w_db w) = Some r" "\<not> foreign t b r"
    and mark: "mark_deleted now d (w_db w) = (Inr (), w_db w')"
    and res: "dr_doc_id res = d" "dr_was_already_deleted res = (dc_status r = DELETED)" by blast
  have "r \<in> set (db_docs (w_db w))" using find_docD [OF r(1)] by simp
  with order have "dc_status r = ACTIVE \<longleftrightarrow> dc_status r \<noteq> DELETED"
    by (auto simp: in_order_def db_wf_def doc_ok_def live_or_deleted_def ACTIVE_def DELETED_def)
  moreover have "docs_of view w' d = Some ((abstract_doc view (w_store w) r)\<lparr>sd_content := None\<rparr>)"
    using r mark_deleted_found [OF mark, of d]
    by (simp add: docs_of_def abstract_doc_def content_of_def ACTIVE_def DELETED_def)
  moreover have "docs_of view w' d' = docs_of view w d'" if "d' \<noteq> d" for d'
    using spares_docs_of [OF pipelines_spare(2) [OF api ids run] _ that] order by (simp add: in_order_def)
  ultimately show ?thesis
    using r res unfolding spec_delete_def
    by (intro exI [of _ "abstract_doc view (w_store w) r"])
      (auto simp: docs_of_def owned_by_def abstract_doc_def foreign_def content_of_def fun_eq_iff)
qed

section \<open>Requests\<close>

lemma serve_cases:
  assumes "serve_request env j w = (r, w')"
  shows "(\<exists>body x. jb_work j = UploadWork body \<and> r = map_sum id Uploaded x \<and>
      upload_execute env (jb_tenant j) (jb_bot j) (jb_doc j) body w = (x, w')) \<or>
    (\<exists>x. jb_work j = DeleteWork \<and> r = map_sum id Deleted x \<and>
      delete_execute env (jb_tenant j) (jb_bot j) (jb_doc j) w = (x, w'))"
  using assms unfolding serve_request_def
  by (cases "jb_work j") (auto simp: bind_io_def return_io_def split: prod.splits sum.splits)

lemma in_order_kept:
  assumes "in_order env view w" and "spares env view d w w'" and "db_wf (w_db w')"
    and own: "find_doc d (w_db w') = None \<Longrightarrow> \<forall>n. doc_points view (w_store w') n d = {}"
  shows "in_order env view w'"
proof -
  have "doc_points view (w_store w') n d' = {}" if none: "find_doc d' (w_db w') = None" for d' n
  proof (cases "d' = d")
    case True
    with own none show ?thesis by simp
  next
    case False
    then have "row_of d' w' = row_of d' w" using assms(2) by (simp add: spares_def spares_rows_def)
    with none False assms(1,2) show ?thesis
      by (simp add: in_order_def spares_def spares_points_def row_of_def)
  qed
  with assms show ?thesis by (simp add: in_order_def spares_def spares_points_def)
qed

lemma upload_in_order:
  fixes env :: "'q env"
  assumes api: "qdrant_api (e_client env) view" and ids: "inj (e_uuid5_oid env)" and order: "in_order env view w"
    and run: "upload_execute env t b d body w = (Inr res, w')"
  shows "in_order env view w'"
proof (rule in_order_kept [OF order pipelines_spare(1) [OF api ids run]])
  show "db_wf (w_db w')"
    using upload_wf [of w env t b d body] order run by (simp add: in_order_def)
  assume none: "find_doc d (w_db w') = None"
  with upload_refines [OF api ids order run] have same: "ur_status res = ''no_change''" "docs_of view w' = docs_of view w"
    by (auto simp: spec_upload_def docs_of_def fun_eq_iff split: if_splits)
  from upload_unchanged [OF run same(1)] have "w_store w' = w_store w" by simp
  moreover have "find_doc d (w_db w) = None" using fun_cong [OF same(2), of d] none by (simp add: docs_of_def)
  ultimately show "\<forall>n. doc_points view (w_store w') n d = {}" using order by (simp add: in_order_def)
qed

lemma delete_in_order:
  fixes env :: "'q env"
  assumes api: "qdrant_api (e_client env) view" and ids: "inj (e_uuid5_oid env)" and order: "in_order env view w"
    and run: "delete_execute env t b d w = (Inr res, w')"
  shows "in_order env view w'"
proof (rule in_order_kept [OF order pipelines_spare(2) [OF api ids run]])
  show "db_wf (w_db w')"
    using delete_execute_wf [of w env t b d] order run by (simp add: in_order_def)
  assume "find_doc d (w_db w') = None"
  with delete_refines [OF api ids order run] have False
    by (auto simp: spec_delete_def docs_of_def fun_eq_iff split: if_splits)
  then show "\<forall>n. doc_points view (w_store w') n d = {}" ..
qed

lemma serve_refines:
  fixes env :: "'q env"
  assumes api: "qdrant_api (e_client env) view" and ids: "inj (e_uuid5_oid env)" and order: "in_order env view w"
    and run: "serve_request env j w = (Inr ans, w')"
  shows "spec_answer env j (docs_of view w) ans (docs_of view w') \<and> in_order env view w'"
  using serve_cases [OF run]
proof (elim disjE exE conjE)
  fix body x assume j: "jb_work j = UploadWork body" and x: "Inr ans = map_sum id Uploaded x"
    and up: "upload_execute env (jb_tenant j) (jb_bot j) (jb_doc j) body w = (x, w')"
  from x obtain res where "x = Inr res" "ans = Uploaded res" by (cases x) auto
  with up j show ?thesis
    using upload_refines [OF api ids order] upload_in_order [OF api ids order] by (simp add: spec_answer_def)
next
  fix x assume j: "jb_work j = DeleteWork" and x: "Inr ans = map_sum id Deleted x"
    and del: "delete_execute env (jb_tenant j) (jb_bot j) (jb_doc j) w = (x, w')"
  from x obtain res where "x = Inr res" "ans = Deleted res" by (cases x) auto
  with del j show ?thesis
    using delete_refines [OF api ids order] delete_in_order [OF api ids order] by (simp add: spec_answer_def)
qed

section \<open>Histories\<close>

text \<open>Requests one after the other, with the answers; \<open>None\<close> when one of them fails.\<close>

fun serve_all :: "'q env \<Rightarrow> job list \<Rightarrow> 'q world \<Rightarrow> (answer list \<times> 'q world) option" where
  "serve_all env [] w = Some ([], w)"
| "serve_all env (j # js) w = (case serve_request env j w of
     (Inl e, w') \<Rightarrow> None
   | (Inr ans, w') \<Rightarrow> map_option (map_prod ((#) ans) id) (serve_all env js w'))"

inductive spec_history :: "'q env \<Rightarrow> job list \<Rightarrow> doc_store \<Rightarrow> answer list \<Rightarrow> doc_store \<Rightarrow> bool" for env where
  spec_nil: "spec_history env [] A [] A"
| spec_cons: "spec_answer env j A ans A' \<Longrightarrow> spec_history env js A' anss A'' \<Longrightarrow>
    spec_history env (j # js) A (ans # anss) A''"

inductive_cases spec_history_consE: "spec_history env (j # js) A anss A''"

lemma histories_refine:
  fixes env :: "'q env"
  assumes api: "qdrant_api (e_client env) view" and ids: "inj (e_uuid5_oid env)"
  shows "in_order env view w \<Longrightarrow> serve_all env js w = Some (anss, w') \<Longrightarrow>
    spec_history env js (docs_of view w) anss (docs_of view w') \<and> in_order env view w'"
proof (induction js arbitrary: w anss)
  case Nil
  then show ?case by (auto intro: spec_nil)
next
  case (Cons j js)
  from Cons.prems(2) obtain ans w1 anss' where one: "serve_request env j w = (Inr ans, w1)"
    and rest: "serve_all env js w1 = Some (anss', w')" and anss: "anss = ans # anss'"
    by (auto split: prod.splits sum.splits)
  from serve_refines [OF api ids Cons.prems(1) one] have step: "spec_answer env j (docs_of view w) ans (docs_of view w1)"
    and next_order: "in_order env view w1" by simp_all
  from Cons.IH [OF next_order rest] spec_cons [OF step] show ?case by (simp add: anss)
qed

text \<open>
  C1 (the service refines a map of documents). From a state without left-overs of failed
  requests, every sequence of uploads and deletes that all complete is a history of the
  abstract store, answers included: an upload whose content the bot already has changes
  nothing and says so; any other puts exactly the requested chunks in the place of the
  document; a delete empties it; and no other document changes. Where a request fails, in
  whatever way, all other documents are as they were.
\<close>

theorem service_refines_store:
  fixes env :: "'q env"
  assumes api: "qdrant_api (e_client env) view" and ids: "inj (e_uuid5_oid env)" and order: "in_order env view w"
    and run: "serve_all env js w = Some (anss, w')"
  shows "spec_history env js (docs_of view w) anss (docs_of view w') \<and>
    (\<forall>j r w'' d. serve_request env j w' = (r, w'') \<and> d \<noteq> jb_doc j \<longrightarrow> docs_of view w'' d = docs_of view w' d)"
proof -
  from histories_refine [OF api ids order run] have history: "spec_history env js (docs_of view w) anss (docs_of view w')"
    and home: "at_home env view w'" by (simp_all add: in_order_def)
  have "docs_of view w'' d = docs_of view w' d" if "serve_request env j w' = (r, w'')" "d \<noteq> jb_doc j" for j r w'' d
    using serve_cases [OF that(1)] spares_docs_of [OF _ home that(2)] pipelines_spare [OF api ids] by blast
  with history show ?thesis by blast
qed

end
