(* ===== verification/MemoryStore.thy ===== *)
theory MemoryStore
  imports VectorStore
begin

text \<open>
  A reference database that behaves as the client library documents, kept in memory: named
  collections with parameters, payload indexes and points, and a script of connection
  faults, one entry per call, in which a call is lost before or after the server carried it
  out. It shows that the laws of \<open>qdrant_api\<close> hold together, on success and on failure, and
  it is what the witnesses of the development run on.
\<close>

datatype fault = Lost grpc_code | Applied grpc_code

record mem_coll =
  mc_params :: collection_params
  mc_indexes :: "(string \<times> index_schema) list"
  mc_points :: "point list"

record mem =
  mem_colls :: "string \<Rightarrow> mem_coll option"
  mem_script :: "fault option list"

definition connection_lost :: "grpc_code \<Rightarrow> exn" where
  "connection_lost c = RpcError ''_InactiveRpcError'' (Some c) ''connection lost''"

definition mem_step :: "(mem, 'a) prog \<Rightarrow> (mem, 'a) prog" where
  "mem_step op = (\<lambda>m. case mem_script m of
      [] \<Rightarrow> op m
    | f # fs \<Rightarrow> (case f of
        None \<Rightarrow> op (m\<lparr>mem_script := fs\<rparr>)
      | Some (Lost c) \<Rightarrow> (Inl (connection_lost c), m\<lparr>mem_script := fs\<rparr>)
      | Some (Applied c) \<Rightarrow> (Inl (connection_lost c), snd (op (m\<lparr>mem_script := fs\<rparr>)))))"

definition mem_not_found :: exn where
  "mem_not_found = UnexpectedResponse (Some 404) ''Not found''"

text \<open>Run \<open>f\<close> on a collection, or answer 404.\<close>

definition on_coll :: "string \<Rightarrow> (mem_coll \<Rightarrow> 'a \<times> mem_coll) \<Rightarrow> (mem, 'a) prog" where
  "on_coll n f = mem_step (\<lambda>m. case mem_colls m n of
      None \<Rightarrow> (Inl mem_not_found, m)
    | Some c \<Rightarrow> (Inr (fst (f c)), m\<lparr>mem_colls := (mem_colls m)(n \<mapsto> snd (f c))\<rparr>))"

definition points_by_id :: "point list \<Rightarrow> string \<Rightarrow> point option" where
  "points_by_id ps = map_of (map (\<lambda>p. (p_id p, p)) ps)"

definition id_matches :: "qfilter \<Rightarrow> point list \<Rightarrow> string \<Rightarrow> bool" where
  "id_matches f ps i = (case points_by_id ps i of None \<Rightarrow> False | Some p \<Rightarrow> matches f p)"

definition mem_query :: "query_request \<Rightarrow> mem_coll \<Rightarrow> scored_point list" where
  "mem_query req c = map (\<lambda>p. \<lparr>sc_payload = Some (p_payload p), sc_score = 1\<rparr>)
     (take (nat (qr_limit req)) (filter (matches (qr_filter req)) (mc_points c)))"

definition mem_client :: "mem client" where
  "mem_client = \<lparr>
     collection_exists = (\<lambda>n. mem_step (\<lambda>m. (Inr (mem_colls m n \<noteq> None), m))),
     create_collection = (\<lambda>n v s. mem_step (\<lambda>m. case mem_colls m n of
         Some c \<Rightarrow> (Inl (UnexpectedResponse (Some 409) ''Collection already exists''), m)
       | None \<Rightarrow> (Inr (), m\<lparr>mem_colls := (mem_colls m)(n \<mapsto>
           \<lparr>mc_params = \<lparr>cp_vectors = NamedVectors v, cp_sparse = Some s\<rparr>,
            mc_indexes = [], mc_points = []\<rparr>)\<rparr>))),
     create_payload_index = (\<lambda>n k sc. on_coll n (\<lambda>c. ((), c\<lparr>mc_indexes := (k, sc) # mc_indexes c\<rparr>))),
     get_collection = (\<lambda>n. on_coll n (\<lambda>c. (mc_params c, c))),
     count_points = (\<lambda>n f. on_coll n (\<lambda>c.
       (length (filter (id_matches f (mc_points c)) (remdups (map p_id (mc_points c)))), c))),
     delete_points = (\<lambda>n f. on_coll n (\<lambda>c. ((), c\<lparr>mc_points :=
       filter (\<lambda>p. \<not> id_matches f (mc_points c) (p_id p)) (mc_points c)\<rparr>))),
     delete_collection = (\<lambda>n. mem_step (\<lambda>m. (Inr (), m\<lparr>mem_colls := (mem_colls m)(n := None)\<rparr>))),
     upsert_points = (\<lambda>n ps. on_coll n (\<lambda>c. ((), c\<lparr>mc_points := rev ps @ mc_points c\<rparr>))),
     query_points = (\<lambda>req. on_coll (qr_collection req) (\<lambda>c. (mem_query req c, c))),
     get_collections = mem_step (return_io ())\<rparr>"

definition mem_coll_view :: "mem_coll \<Rightarrow> coll" where
  "mem_coll_view c = \<lparr>co_params = mc_params c, co_indexes = map_of (mc_indexes c),
     co_points = points_by_id (mc_points c)\<rparr>"

definition mem_view :: "mem \<Rightarrow> string \<Rightarrow> coll option" where
  "mem_view m n = map_option mem_coll_view (mem_colls m n)"

section \<open>It satisfies the laws\<close>

text \<open>One call: the script entry taken, and the operation run, lost or applied with its answer lost.\<close>

definition next_fault :: "mem \<Rightarrow> mem" where
  "next_fault m = m\<lparr>mem_script := tl (mem_script m)\<rparr>"

lemma next_fault_colls [simp]: "mem_colls (next_fault m) = mem_colls m"
  by (simp add: next_fault_def)

lemma mem_step_eq:
  "mem_step op m = (case mem_script m of [] \<Rightarrow> op m | None # fs \<Rightarrow> op (next_fault m)
     | Some (Lost c) # fs \<Rightarrow> (Inl (connection_lost c), next_fault m)
     | Some (Applied c) # fs \<Rightarrow> (Inl (connection_lost c), snd (op (next_fault m))))"
  by (simp add: mem_step_def next_fault_def split: list.split option.split fault.split)

lemma mem_step_cases:
  "\<exists>m0. mem_colls m0 = mem_colls m \<and>
     (mem_step op m = op m0 \<or>
      (\<exists>e. mem_step op m = (Inl e, m0)) \<or> (\<exists>e. mem_step op m = (Inl e, snd (op m0))))"
proof (cases "mem_script m")
  case Nil
  then show ?thesis by (intro exI [of _ m]) (simp add: mem_step_eq)
next
  case (Cons f fs)
  then show ?thesis
    by (intro exI [of _ "next_fault m"]) (simp add: mem_step_eq split: option.split fault.split)
qed

lemma mem_view_upd:
  "mem_colls m' = (mem_colls m)(n \<mapsto> c) \<Longrightarrow> mem_view m' = (mem_view m)(n \<mapsto> mem_coll_view c)"
  by (rule ext) (simp add: mem_view_def)

lemma mem_view_eq: "mem_colls m' = mem_colls m \<Longrightarrow> mem_view m' = mem_view m"
  by (rule ext) (simp add: mem_view_def)

lemma mem_step_run:
  fixes op :: "(mem, 'a) prog"
  assumes run: "mem_step op m = (r, m')"
    and ran: "\<And>m0. mem_colls m0 = mem_colls m \<Longrightarrow> P (fst (op m0)) (mem_view (snd (op m0)))"
    and applied: "\<And>e m0. mem_colls m0 = mem_colls m \<Longrightarrow> P (Inl e) (mem_view (snd (op m0)))"
    and lost: "\<And>e. P (Inl e) (mem_view m)"
  shows "P r (mem_view m')"
proof -
  obtain m0 where m0: "mem_colls m0 = mem_colls m" and cases: "mem_step op m = op m0 \<or>
      (\<exists>e. mem_step op m = (Inl e, m0)) \<or> (\<exists>e. mem_step op m = (Inl e, snd (op m0)))"
    using mem_step_cases by blast
  have view: "mem_view m0 = mem_view m" using m0 by (rule mem_view_eq)
  from cases show ?thesis unfolding run
  proof (elim disjE exE)
    assume "(r, m') = op m0"
    then have "fst (op m0) = r" "snd (op m0) = m'" by (metis fst_conv, metis snd_conv)
    with ran [OF m0] show ?thesis by metis
  next
    fix e assume "(r, m') = (Inl e, m0)"
    with lost [of e] view show ?thesis by (metis prod.inject)
  next
    fix e assume "(r, m') = (Inl e, snd (op m0))"
    with applied [OF m0, of e] show ?thesis by (metis prod.inject)
  qed
qed

lemma on_coll_run:
  assumes run: "on_coll n f m = (r, m')"
    and found: "\<And>c r. mem_colls m n = Some c \<Longrightarrow> r = Inr (fst (f c)) \<or> (\<exists>e. r = Inl e) \<Longrightarrow>
        P r ((mem_view m)(n \<mapsto> mem_coll_view (snd (f c))))"
    and unchanged: "\<And>e. P (Inl e) (mem_view m)"
  shows "P r (mem_view m')"
proof -
  let ?op = "\<lambda>m. case mem_colls m n of None \<Rightarrow> (Inl mem_not_found, m)
    | Some c \<Rightarrow> (Inr (fst (f c)), m\<lparr>mem_colls := (mem_colls m)(n \<mapsto> snd (f c))\<rparr>)"
  have op: "P (fst (?op m0)) (mem_view (snd (?op m0))) \<and> P (Inl e) (mem_view (snd (?op m0)))"
    if m0: "mem_colls m0 = mem_colls m" for m0 :: mem and e
  proof (cases "mem_colls m n")
    case None
    with m0 unchanged mem_view_eq [OF m0] show ?thesis by simp
  next
    case (Some c)
    have "mem_view (m0\<lparr>mem_colls := (mem_colls m)(n \<mapsto> snd (f c))\<rparr>)
        = (mem_view m)(n \<mapsto> mem_coll_view (snd (f c)))" by (rule mem_view_upd) simp
    with Some m0 found [OF Some, of "Inr (fst (f c))"] found [OF Some, of "Inl e"]
    show ?thesis by simp
  qed
  from run show ?thesis
    unfolding on_coll_def
    by (rule mem_step_run) (erule op [THEN conjunct1], erule op [THEN conjunct2], rule unchanged)
qed

lemma on_coll_read:
  assumes "on_coll n (\<lambda>c. (g c, c)) m = (r, m')"
  shows "mem_view m' = mem_view m \<and>
    (\<forall>x. r = Inr x \<longrightarrow> (\<exists>c. mem_colls m n = Some c \<and> x = g c))"
proof -
  have same: "(mem_view m)(n \<mapsto> mem_coll_view c) = mem_view m" if "mem_colls m n = Some c" for c
    using that by (simp add: mem_view_def fun_upd_idem)
  show ?thesis
    using assms
    by (rule on_coll_run [where P = "\<lambda>r v. v = mem_view m \<and>
        (\<forall>x. r = Inr x \<longrightarrow> (\<exists>c. mem_colls m n = Some c \<and> x = g c))"])
      (simp_all add: same, blast?)
qed

lemma on_coll_write:
  assumes "on_coll n (\<lambda>c. ((), g c)) m = (r, m')"
  shows "(mem_view m' = mem_view m \<and> (\<exists>e. r = Inl e)) \<or>
    (\<exists>c. mem_view m n = Some (mem_coll_view c) \<and>
       mem_view m' = (mem_view m)(n \<mapsto> mem_coll_view (g c)))"
  using assms
  by (rule on_coll_run [where P = "\<lambda>r v. (v = mem_view m \<and> (\<exists>e. r = Inl e)) \<or>
    (\<exists>c. mem_view m n = Some (mem_coll_view c) \<and> v = (mem_view m)(n \<mapsto> mem_coll_view (g c)))"])
    (auto simp: mem_view_def)

lemma matching_ids_mem:
  "matching_ids f (mem_coll_view c) = {i. id_matches f (mc_points c) i}"
  by (auto simp: matching_ids_def mem_coll_view_def id_matches_def split: option.splits)

lemma id_matches_mem: "id_matches f ps i \<Longrightarrow> i \<in> p_id ` set ps"
  by (auto simp: id_matches_def points_by_id_def split: option.splits dest!: map_of_SomeD)

lemma points_by_id_filter:
  "points_by_id (filter (\<lambda>p. \<not> P (p_id p)) ps) = points_by_id ps |` (- {i. P i})"
  by (induction ps) (auto simp: points_by_id_def restrict_map_def fun_eq_iff)

lemma count_mem:
  "length (filter (id_matches f (mc_points c)) (remdups (map p_id (mc_points c))))
    = card (matching_ids f (mem_coll_view c))"
proof -
  let ?xs = "filter (id_matches f (mc_points c)) (remdups (map p_id (mc_points c)))"
  have "length ?xs = card (set ?xs)" by (rule distinct_card [symmetric]) simp
  also have "set ?xs = {i. id_matches f (mc_points c) i}" by (auto dest: id_matches_mem)
  finally show ?thesis by (simp add: matching_ids_mem)
qed

lemma mem_exists:
  assumes "collection_exists mem_client n q = (r, q')"
  shows "mem_view q' = mem_view q \<and> (\<forall>b. r = Inr b \<longrightarrow> b = (mem_view q n \<noteq> None))"
proof -
  from assms have "mem_step (\<lambda>m. (Inr (mem_colls m n \<noteq> None), m)) q = (r, q')" by (simp add: mem_client_def)
  then show ?thesis
  proof (rule mem_step_run)
    fix m0 :: mem assume m0: "mem_colls m0 = mem_colls q"
    with mem_view_eq [OF m0]
    show "mem_view (snd (Inr (mem_colls m0 n \<noteq> None), m0)) = mem_view q \<and>
        (\<forall>b. fst (Inr (mem_colls m0 n \<noteq> None), m0) = Inr b \<longrightarrow> b = (mem_view q n \<noteq> None))"
      by (simp add: mem_view_def)
  qed (auto intro: mem_view_eq)
qed

lemma mem_create:
  assumes "create_collection mem_client n v s q = (r, q')"
  shows "(mem_view q n = None \<and> mem_view q' = (mem_view q)(n \<mapsto> empty_coll v s)) \<or>
      (mem_view q' = mem_view q \<and> (\<exists>e. r = Inl e))"
proof -
  let ?new = "\<lparr>mc_params = \<lparr>cp_vectors = NamedVectors v, cp_sparse = Some s\<rparr>,
    mc_indexes = [], mc_points = []\<rparr>"
  let ?op = "\<lambda>m. case mem_colls m n of
         Some c \<Rightarrow> (Inl (UnexpectedResponse (Some 409) ''Collection already exists''), m)
       | None \<Rightarrow> (Inr (), m\<lparr>mem_colls := (mem_colls m)(n \<mapsto> ?new)\<rparr>)"
  let ?goal = "\<lambda>r v'. (mem_view q n = None \<and> v' = (mem_view q)(n \<mapsto> empty_coll v s)) \<or>
    (v' = mem_view q \<and> (\<exists>e. r = Inl e))"
  have op: "?goal (fst (?op m0)) (mem_view (snd (?op m0))) \<and> ?goal (Inl e) (mem_view (snd (?op m0)))"
    if m0: "mem_colls m0 = mem_colls q" for m0 :: mem and e
  proof (cases "mem_colls q n")
    case None
    have "mem_view (m0\<lparr>mem_colls := (mem_colls q)(n \<mapsto> ?new)\<rparr>) = (mem_view q)(n \<mapsto> mem_coll_view ?new)"
      by (rule mem_view_upd) simp
    moreover have "mem_coll_view ?new = empty_coll v s"
      by (simp add: mem_coll_view_def empty_coll_def points_by_id_def)
    ultimately show ?thesis using None m0 by (simp add: mem_view_def [of q])
  next
    case (Some c)
    with m0 mem_view_eq [OF m0] show ?thesis by simp
  qed
  from assms have "mem_step ?op q = (r, q')" by (simp add: mem_client_def)
  then show ?thesis
    by (rule mem_step_run [where P = ?goal])
      (erule op [THEN conjunct1], erule op [THEN conjunct2], simp)
qed

interpretation mem: qdrant_api mem_client mem_view
proof unfold_locales
  fix q n co
  assume "mem_view q n = Some co"
  then show "finite (dom (co_points co))"
    by (auto simp: mem_view_def mem_coll_view_def points_by_id_def finite_dom_map_of)
next
  fix n q and r :: "exn + bool" and q'
  assume "collection_exists mem_client n q = (r, q')"
  then show "mem_view q' = mem_view q \<and> (\<forall>b. r = Inr b \<longrightarrow> b = (mem_view q n \<noteq> None))"
    by (rule mem_exists)
next
  fix n q and r :: "exn + collection_params" and q'
  assume "get_collection mem_client n q = (r, q')"
  then have "on_coll n (\<lambda>c. (mc_params c, c)) q = (r, q')" by (simp add: mem_client_def)
  from on_coll_read [OF this]
  show "mem_view q' = mem_view q \<and> (\<forall>p. r = Inr p \<longrightarrow> (\<exists>co. mem_view q n = Some co \<and> p = co_params co))"
    by (auto simp: mem_view_def mem_coll_view_def)
next
  fix n f q and r :: "exn + nat" and q'
  assume "count_points mem_client n f q = (r, q')"
  then have "on_coll n (\<lambda>c. (card (matching_ids f (mem_coll_view c)), c)) q = (r, q')"
    by (simp add: mem_client_def count_mem)
  from on_coll_read [OF this]
  show "mem_view q' = mem_view q \<and>
      (\<forall>k. r = Inr k \<longrightarrow> (\<exists>co. mem_view q n = Some co \<and> k = card (matching_ids f co)))"
    by (auto simp: mem_view_def)
next
  fix n v s q and r :: "exn + unit" and q'
  assume "create_collection mem_client n v s q = (r, q')"
  then show "(mem_view q n = None \<and> mem_view q' = (mem_view q)(n \<mapsto> empty_coll v s)) \<or>
      (mem_view q' = mem_view q \<and> (\<exists>e. r = Inl e))"
    by (rule mem_create)
next
  fix n k sc q and r :: "exn + unit" and q'
  assume "create_payload_index mem_client n k sc q = (r, q')"
  then have "on_coll n (\<lambda>c. ((), c\<lparr>mc_indexes := (k, sc) # mc_indexes c\<rparr>)) q = (r, q')"
    by (simp add: mem_client_def)
  from on_coll_write [OF this]
  show "(\<exists>co. mem_view q n = Some co \<and>
         mem_view q' = (mem_view q)(n \<mapsto> co\<lparr>co_indexes := (co_indexes co)(k \<mapsto> sc)\<rparr>)) \<or>
      (mem_view q' = mem_view q \<and> (\<exists>e. r = Inl e))"
    by (auto simp: mem_coll_view_def)
next
  fix n f q and r :: "exn + unit" and q'
  assume "delete_points mem_client n f q = (r, q')"
  then have "on_coll n (\<lambda>c. ((), c\<lparr>mc_points :=
       filter (\<lambda>p. \<not> id_matches f (mc_points c) (p_id p)) (mc_points c)\<rparr>)) q = (r, q')"
    by (simp add: mem_client_def)
  from on_coll_write [OF this]
  show "(mem_view q' = mem_view q \<and> (\<exists>e. r = Inl e)) \<or>
      (\<exists>co D. mem_view q n = Some co \<and> D \<subseteq> matching_ids f co \<and>
         mem_view q' = (mem_view q)(n \<mapsto> co\<lparr>co_points := (co_points co) |` (- D)\<rparr>) \<and>
         (r = Inr () \<longrightarrow> D = matching_ids f co))"
  proof (elim disjE exE conjE)
    fix c
    assume c: "mem_view q n = Some (mem_coll_view c)"
      and q': "mem_view q' = (mem_view q)(n \<mapsto> mem_coll_view (c\<lparr>mc_points :=
        filter (\<lambda>p. \<not> id_matches f (mc_points c) (p_id p)) (mc_points c)\<rparr>))"
    have "mem_coll_view (c\<lparr>mc_points := filter (\<lambda>p. \<not> id_matches f (mc_points c) (p_id p)) (mc_points c)\<rparr>)
      = (mem_coll_view c)\<lparr>co_points := co_points (mem_coll_view c) |` (- matching_ids f (mem_coll_view c))\<rparr>"
      unfolding matching_ids_mem by (simp add: mem_coll_view_def points_by_id_filter)
    with c q' show ?thesis by (metis subset_refl)
  qed simp
next
  fix n ps q and r :: "exn + unit" and q'
  assume "upsert_points mem_client n ps q = (r, q')"
  then have "on_coll n (\<lambda>c. ((), c\<lparr>mc_points := rev ps @ mc_points c\<rparr>)) q = (r, q')"
    by (simp add: mem_client_def)
  from on_coll_write [OF this]
  show "(mem_view q' = mem_view q \<and> (\<exists>e. r = Inl e)) \<or>
      (\<exists>co m. mem_view q n = Some co \<and> m \<subseteq>\<^sub>m points_map ps \<and>
         mem_view q' = (mem_view q)(n \<mapsto> co\<lparr>co_points := co_points co ++ m\<rparr>) \<and>
         (r = Inr () \<longrightarrow> m = points_map ps))"
  proof (elim disjE exE conjE)
    fix c
    assume c: "mem_view q n = Some (mem_coll_view c)"
      and q': "mem_view q' = (mem_view q)(n \<mapsto> mem_coll_view (c\<lparr>mc_points := rev ps @ mc_points c\<rparr>))"
    have "mem_coll_view (c\<lparr>mc_points := rev ps @ mc_points c\<rparr>)
      = (mem_coll_view c)\<lparr>co_points := co_points (mem_coll_view c) ++ points_map ps\<rparr>"
      by (simp add: mem_coll_view_def points_by_id_def points_map_def rev_map [symmetric])
    with c q' show ?thesis by (metis map_le_refl)
  qed simp
next
  fix n q and r :: "exn + unit" and q'
  assume "delete_collection mem_client n q = (r, q')"
  then have "mem_step (\<lambda>m. (Inr (), m\<lparr>mem_colls := (mem_colls m)(n := None)\<rparr>)) q = (r, q')"
    by (simp add: mem_client_def)
  then show "(mem_view q' = mem_view q \<and> (\<exists>e. r = Inl e)) \<or> mem_view q' = (mem_view q)(n := None)"
  proof (rule mem_step_run)
    fix m0 :: mem and e assume "mem_colls m0 = mem_colls q"
    then have "mem_view (m0\<lparr>mem_colls := (mem_colls m0)(n := None)\<rparr>) = (mem_view q)(n := None)"
      by (simp add: mem_view_def fun_eq_iff)
    then show "(mem_view (snd (Inr (), m0\<lparr>mem_colls := (mem_colls m0)(n := None)\<rparr>)) = mem_view q \<and>
          (\<exists>e. fst (Inr (), m0\<lparr>mem_colls := (mem_colls m0)(n := None)\<rparr>) = Inl e)) \<or>
        mem_view (snd (Inr (), m0\<lparr>mem_colls := (mem_colls m0)(n := None)\<rparr>)) = (mem_view q)(n := None)"
      and "(mem_view (snd (Inr (), m0\<lparr>mem_colls := (mem_colls m0)(n := None)\<rparr>)) = mem_view q \<and>
          (\<exists>e'. Inl e = Inl e')) \<or>
        mem_view (snd (Inr (), m0\<lparr>mem_colls := (mem_colls m0)(n := None)\<rparr>)) = (mem_view q)(n := None)"
      by (simp_all only: snd_conv fst_conv simp_thms)
  qed simp
next
  fix req q and r :: "exn + scored_point list" and q'
  assume "query_points mem_client req q = (r, q')"
  then have "on_coll (qr_collection req) (\<lambda>c. (mem_query req c, c)) q = (r, q')"
    by (simp add: mem_client_def)
  from on_coll_read [OF this] show "mem_view q' = mem_view q" by blast
next
  fix q and r :: "exn + unit" and q'
  assume "get_collections mem_client q = (r, q')"
  then have "mem_step (return_io ()) q = (r, q')" by (simp add: mem_client_def)
  then show "mem_view q' = mem_view q"
    by (rule mem_step_run) (auto intro: mem_view_eq)
qed

end
