(* ===== verification/Scenarios.thy ===== *)
theory Scenarios
  imports Delete MemoryStore
begin

text \<open>
  Concrete runs: an environment over the in-memory database in which every text is one
  token per character, the splitter keeps its input whole, the model returns one vector per
  text, and no other session holds a lock. The witnesses of the properties run on it.
\<close>

definition demo_embeddings :: "string list \<Rightarrow> embeddings" where
  "demo_embeddings ts = \<lparr>dense = map (\<lambda>_. [1]) ts, sparse = map (\<lambda>_. [(''7'', 1)]) ts,
     colbert = map (\<lambda>_. [[1]]) ts\<rparr>"

definition demo_env :: "mem env" where
  "demo_env = \<lparr>e_sha256 = (\<lambda>_. replicate 32 0), e_uuid5_oid = (\<lambda>s. s), e_uuid4 = (\<lambda>_. ''u''),
     e_elapse = (\<lambda>_. 1), e_wall = (\<lambda>k. k), e_utc_iso = (\<lambda>_. ''now''), e_lock_free = (\<lambda>_ _. True),
     e_split = (\<lambda>_ _ s. [s]), e_tokenize = map (\<lambda>_. 0), e_encode = (\<lambda>_ ts. Inr (demo_embeddings ts)),
     e_client = mem_client\<rparr>"

definition demo_item :: "string \<Rightarrow> upload_item" where
  "demo_item s = \<lparr>it_content = s, it_section_path = None, it_page_number = None, it_item_index = None\<rparr>"

definition demo_body :: "string \<Rightarrow> string list \<Rightarrow> upload_body" where
  "demo_body hash ss = \<lparr>bd_doc_id = None, bd_source_type = ''text'', bd_source_filename = None, bd_source_url = None,
     bd_content_hash = Some (Some hash), bd_items = map demo_item ss\<rparr>"

definition demo_context :: request_context where
  "demo_context = \<lparr>cx_request_id = None, cx_tenant_id = None, cx_bot_id = None, cx_doc_id = None\<rparr>"

definition demo_world :: "mem world" where
  "demo_world = \<lparr>w_db = \<lparr>db_tenants = [], db_bots = [], db_docs = [], db_next_bot = 1\<rparr>,
     w_store = \<lparr>mem_colls = (\<lambda>_. None), mem_script = []\<rparr>, w_locks = [], w_clock = 0, w_tick = 0,
     w_context = demo_context, w_phases = None, w_metrics = [], w_access_log = []\<rparr>"

text \<open>A run that returned, and one that raised.\<close>

definition returned :: "(exn + 'a) \<times> 'w \<Rightarrow> ('a \<Rightarrow> 'w \<Rightarrow> bool) \<Rightarrow> bool" where
  "returned run P = (case run of (Inl e, w) \<Rightarrow> False | (Inr x, w) \<Rightarrow> P x w)"

definition raised :: "(exn + 'a) \<times> 'w \<Rightarrow> (exn \<Rightarrow> 'w \<Rightarrow> bool) \<Rightarrow> bool" where
  "raised run P = (case run of (Inl e, w) \<Rightarrow> P e w | (Inr x, w) \<Rightarrow> False)"

lemma returnedE:
  assumes "returned run P"
  obtains x w where "run = (Inr x, w)" and "P x w"
  using assms by (auto simp: returned_def split: prod.splits sum.splits)

lemma raisedE:
  assumes "raised run P"
  obtains e w where "run = (Inl e, w)" and "P e w"
  using assms by (auto simp: raised_def split: prod.splits sum.splits)

definition demo_upload :: "string \<Rightarrow> string \<Rightarrow> string list \<Rightarrow> mem world \<Rightarrow> (exn + upload_result) \<times> mem world" where
  "demo_upload d hash ss = upload_execute demo_env ''acme'' ''bot1'' d (demo_body hash ss)"

definition demo_delete :: "string \<Rightarrow> mem world \<Rightarrow> (exn + delete_result) \<times> mem world" where
  "demo_delete d = delete_execute demo_env ''acme'' ''bot1'' d"

definition with_faults :: "fault option list \<Rightarrow> mem world \<Rightarrow> mem world" where
  "with_faults fs w = w\<lparr>w_store := (w_store w)\<lparr>mem_script := fs\<rparr>\<rparr>"

text \<open>The documents and texts of the points stored in the collection of the demo bot.\<close>

definition stored_texts :: "mem world \<Rightarrow> (json option \<times> json option) list" where
  "stored_texts w = (case mem_colls (w_store w) ''t_acme__b_bot1'' of None \<Rightarrow> []
     | Some c \<Rightarrow> map (\<lambda>p. (lookup (p_payload p) ''doc_id'', lookup (p_payload p) ''text'')) (mc_points c))"

definition uploaded :: "mem world" where
  "uploaded = snd (demo_upload ''d1'' ''h1'' [''hello''] demo_world)"

lemma demo_api: "qdrant_api (e_client demo_env) mem_view"
  by (simp add: demo_env_def mem.qdrant_api_axioms)

lemma demo_empty: "doc_points mem_view (w_store demo_world) n d = {}"
  by (simp add: doc_points_def stored_by_def stored_in_def mem_view_def demo_world_def)

lemma demo_ids: "inj_on (e_uuid5_oid demo_env) A"
  by (simp add: demo_env_def)

lemma demo_created:
  "returned (demo_upload ''d1'' ''h1'' [''hello''] demo_world) (\<lambda>res w.
     ur_status res = ''created'' \<and> ur_chunks_created res = 1 \<and> w_locks w = [] \<and>
     stored_texts w = [(Some (JStr ''d1''), Some (JStr ''hello''))])"
  by code_simp

section \<open>Witnesses\<close>

theorem get_or_create_collection_correct_witness:
  "\<exists>q'. get_or_create_collection mem_client ''acme'' ''bot1'' (w_store demo_world) = (Inr ''t_acme__b_bot1'', q') \<and>
     (\<exists>co. mem_view q' ''t_acme__b_bot1'' = Some co \<and> schema_diff (co_params co) = Inr [])"
proof -
  have "returned (get_or_create_collection mem_client ''acme'' ''bot1'' (w_store demo_world)) (\<lambda>n q. n = ''t_acme__b_bot1'')"
    by code_simp
  then obtain q' where run: "get_or_create_collection mem_client ''acme'' ''bot1'' (w_store demo_world) =
      (Inr ''t_acme__b_bot1'', q')" by (rule returnedE) simp
  with get_or_create_collection_correct [OF mem.qdrant_api_axioms run] show ?thesis by auto
qed

theorem upload_execute_stores_witness:
  "\<exists>res w'. demo_upload ''d1'' ''h1'' [''hello''] demo_world = (Inr res, w') \<and>
     (\<exists>ps. doc_points mem_view (w_store w') (ur_collection_name res) ''d1'' = set ps \<and> length ps = 1) \<and>
     (\<exists>r. find_doc ''d1'' (w_db w') = Some r \<and> dc_content_hash r = ''h1'' \<and> dc_chunk_count r = 1)"
proof -
  from demo_created obtain res w' where run: "demo_upload ''d1'' ''h1'' [''hello''] demo_world = (Inr res, w')"
    and res: "ur_status res = ''created''" "ur_chunks_created res = 1" by (rule returnedE) simp
  have hash: "incoming_hash (e_sha256 demo_env) (demo_body ''h1'' [''hello'']) = ''h1''" by code_simp
  have "ur_status res \<noteq> ''no_change''" using res by simp
  from upload_execute_stores [OF demo_api run [unfolded demo_upload_def] this demo_ids demo_empty] res(2) run
  show ?thesis by (auto simp: hash)
qed

theorem upload_no_change_correct_witness:
  "\<exists>res w'. demo_upload ''d1'' ''h1'' [''hello''] uploaded = (Inr res, w') \<and> w_store w' = w_store uploaded \<and>
     ur_status res = ''no_change''"
proof -
  have "returned (demo_upload ''d1'' ''h1'' [''hello''] uploaded) (\<lambda>res w. ur_status res = ''no_change'')"
    by code_simp
  then obtain res w' where run: "demo_upload ''d1'' ''h1'' [''hello''] uploaded = (Inr res, w')"
    and res: "ur_status res = ''no_change''" by (rule returnedE)
  from upload_no_change_correct [OF run [unfolded demo_upload_def] res] run res show ?thesis by auto
qed

theorem upload_execute_isolated_witness:
  "\<forall>i. stored_by mem_view (w_store (snd (demo_upload ''d2'' ''h2'' [''world''] uploaded))) ''other'' i
     = stored_by mem_view (w_store uploaded) ''other'' i"
proof
  fix i
  have "collection_name ''acme'' ''bot1'' \<noteq> Inr ''other''" by code_simp
  then show "stored_by mem_view (w_store (snd (demo_upload ''d2'' ''h2'' [''world''] uploaded))) ''other'' i
     = stored_by mem_view (w_store uploaded) ''other'' i"
    unfolding demo_upload_def by (intro upload_execute_isolated [OF demo_api] disjI1)
qed

theorem upload_execute_wf_witness: "db_wf (w_db uploaded) \<and> db_docs (w_db uploaded) \<noteq> []"
proof -
  have "db_wf (w_db demo_world)" by (simp add: db_wf_def demo_world_def)
  from upload_execute_wf [OF this] have "db_wf (w_db uploaded)"
    unfolding uploaded_def demo_upload_def .
  moreover have "length (db_docs (w_db uploaded)) = 1" by code_simp
  ultimately show ?thesis by auto
qed

theorem upload_execute_foreign_witness:
  "\<exists>e w'. upload_execute demo_env ''acme'' ''bot2'' ''d1'' (demo_body ''h9'' [''x'']) uploaded = (Inl e, w') \<and>
     w_store w' = w_store uploaded"
proof -
  have "(case find_doc ''d1'' (w_db uploaded) of None \<Rightarrow> False | Some r \<Rightarrow> foreign ''acme'' ''bot2'' r)" by code_simp
  then obtain r where "find_doc ''d1'' (w_db uploaded) = Some r" "foreign ''acme'' ''bot2'' r"
    by (cases "find_doc ''d1'' (w_db uploaded)") auto
  from upload_execute_foreign [OF this] show ?thesis by blast
qed


lemma unit_separator_unlike_letters:
  "char_of (31::nat) \<noteq> CHR ''a''" "char_of (31::nat) \<noteq> CHR ''b''" "char_of (31::nat) \<noteq> CHR ''c''"
  by code_simp+

theorem hash_input_determines_witness:
  "hash_input [demo_item ''ab'', demo_item ''c''] \<noteq> hash_input [demo_item ''a'', demo_item ''bc'']"
  by (subst hash_input_determines) (simp_all add: demo_item_def unit_separator_unlike_letters)

lemma flat_chunks_many:
  "length (flat_chunks demo_env (demo_body h (replicate n ''x''))) = n"
proof -
  have one: "length (chunk_item (e_split demo_env) (count_tokens (e_tokenize demo_env)) ''x'' ''text'') = 1" by code_simp
  have "length (flat_chunks demo_env (demo_body h (replicate n ''x''))) = sum_list (map (\<lambda>_. 1) [0..<n])"
    unfolding flat_chunks_def length_concat map_map
    by (rule arg_cong [where f = sum_list], rule nth_equalityI)
      (auto simp: demo_body_def demo_item_def one)
  then show ?thesis by (simp add: sum_list_triv)
qed

theorem upload_execute_cap_witness:
  "\<exists>r w'. demo_upload ''d1'' ''h2'' (replicate 5001 ''x'') uploaded = (r, w') \<and>
     stored_by mem_view (w_store w') = stored_by mem_view (w_store uploaded)"
proof -
  obtain r w' where run: "demo_upload ''d1'' ''h2'' (replicate 5001 ''x'') uploaded = (r, w')" by (metis prod.collapse)
  have "5000 < length (flat_chunks demo_env (demo_body ''h2'' (replicate 5001 ''x'')))"
    by (simp only: flat_chunks_many)
  from upload_execute_cap [OF demo_api this run [unfolded demo_upload_def]] run show ?thesis by blast
qed

theorem delete_execute_correct_witness:
  "\<exists>res w'. demo_delete ''d1'' uploaded = (Inr res, w') \<and>
     doc_points mem_view (w_store w') ''t_acme__b_bot1'' ''d1'' = {} \<and> dr_chunks_deleted res = 1"
proof -
  have "returned (demo_delete ''d1'' uploaded) (\<lambda>res w. dr_chunks_deleted res = 1)" by code_simp
  then obtain res w' where run: "demo_delete ''d1'' uploaded = (Inr res, w')" and res: "dr_chunks_deleted res = 1"
    by (rule returnedE)
  have "collection_name ''acme'' ''bot1'' = Inr ''t_acme__b_bot1''" by code_simp
  with delete_execute_correct [OF demo_api run [unfolded demo_delete_def]] run res show ?thesis by auto
qed

theorem delete_execute_not_found_witness:
  "\<exists>e w'. demo_delete ''d9'' uploaded = (Inl e, w') \<and> settled w' = settled uploaded"
proof -
  have "find_doc ''d9'' (w_db uploaded) = None" by code_simp
  then show ?thesis using delete_execute_not_found [of "''d9''" uploaded "''acme''" "''bot1''" demo_env]
    unfolding demo_delete_def by blast
qed

theorem delete_execute_isolated_witness:
  "\<forall>i. stored_by mem_view (w_store (snd (demo_delete ''d1'' uploaded))) ''other'' i
     = stored_by mem_view (w_store uploaded) ''other'' i"
proof
  fix i
  have "collection_name ''acme'' ''bot1'' \<noteq> Inr ''other''" by code_simp
  then show "stored_by mem_view (w_store (snd (demo_delete ''d1'' uploaded))) ''other'' i
     = stored_by mem_view (w_store uploaded) ''other'' i"
    unfolding demo_delete_def by (intro delete_execute_isolated [OF demo_api] disjI1)
qed

theorem delete_execute_wf_witness:
  "db_wf (w_db (snd (demo_delete ''d1'' demo_world))) \<and> w_locks (snd (demo_delete ''d1'' demo_world)) = []"
proof -
  have "db_wf (w_db demo_world)" by (simp add: db_wf_def demo_world_def)
  from delete_execute_wf [OF this, of demo_env "''acme''" "''bot1''" "''d1''"]
  show ?thesis by (simp add: demo_delete_def demo_world_def)
qed

definition deleted :: "mem world" where
  "deleted = snd (demo_delete ''d1'' uploaded)"

lemma demo_deleted: "returned (demo_delete ''d1'' uploaded) (\<lambda>res w. True)"
  by code_simp

lemma demo_deleted_again: "returned (demo_delete ''d1'' deleted) (\<lambda>res w. True)"
  by code_simp

theorem delete_execute_twice_witness:
  "\<exists>res1 w1 res2 w2. demo_delete ''d1'' uploaded = (Inr res1, w1) \<and> demo_delete ''d1'' w1 = (Inr res2, w2) \<and>
     dr_chunks_deleted res2 = 0 \<and> dr_was_already_deleted res2"
proof -
  from demo_deleted obtain res1 w1 where first: "demo_delete ''d1'' uploaded = (Inr res1, w1)"
    by (rule returnedE)
  then have "deleted = w1" by (simp add: deleted_def)
  with demo_deleted_again obtain res2 w2 where again: "demo_delete ''d1'' w1 = (Inr res2, w2)"
    by (auto elim: returnedE)
  from delete_execute_twice [OF demo_api first [unfolded demo_delete_def] again [unfolded demo_delete_def]] first again
  show ?thesis by blast
qed

definition uploaded_two :: "mem world" where
  "uploaded_two = snd (demo_upload ''d2'' ''h2'' [''world''] uploaded)"

lemma demo_moved:
  "returned (demo_delete ''d1'' uploaded_two) (\<lambda>res w. True)"
  "returned (demo_upload ''d1'' ''h2'' [''world''] (snd (demo_delete ''d1'' uploaded_two)))
     (\<lambda>res w. ur_status res = ''no_change'')"
  by code_simp+

theorem upload_after_delete_witness:
  "\<exists>res1 w1 res2 w2. demo_delete ''d1'' uploaded_two = (Inr res1, w1) \<and>
     demo_upload ''d1'' ''h2'' [''world''] w1 = (Inr res2, w2) \<and> ur_doc_id res2 \<noteq> ''d1''"
proof -
  from demo_moved(1) obtain res1 w1 where del: "demo_delete ''d1'' uploaded_two = (Inr res1, w1)"
    by (rule returnedE)
  with demo_moved(2) obtain res2 w2 where up: "demo_upload ''d1'' ''h2'' [''world''] w1 = (Inr res2, w2)"
    and res: "ur_status res2 = ''no_change''" by (auto elim: returnedE)
  from upload_after_delete [OF demo_api del [unfolded demo_delete_def] up [unfolded demo_upload_def] res] del up
  show ?thesis by blast
qed

end
