(* ===== verification/Metrics.thy ===== *)
theory Metrics
  imports Timing
begin

text \<open>
  What the service records, \<^verbatim>\<open>apps/core/metrics_recorders.py\<close>, the metric names of
  \<^verbatim>\<open>apps/core/metrics.py\<close>, and the two values \<^verbatim>\<open>search.py\<close> records after a query. A
  recording appends to \<open>w_metrics\<close>; the registry itself (buckets, exposition) is
  prometheus_client's.
\<close>

definition http_requests_total :: string where "http_requests_total = ''qdrant_rag_http_requests_total''"
definition http_request_duration_seconds :: string where
  "http_request_duration_seconds = ''qdrant_rag_http_request_duration_seconds''"
definition pipeline_phase_duration_seconds :: string where
  "pipeline_phase_duration_seconds = ''qdrant_rag_pipeline_phase_duration_seconds''"
definition grpc_requests_total :: string where "grpc_requests_total = ''qdrant_rag_grpc_requests_total''"
definition grpc_request_duration_seconds :: string where
  "grpc_request_duration_seconds = ''qdrant_rag_grpc_request_duration_seconds''"
definition search_results_count :: string where "search_results_count = ''qdrant_rag_search_results_count''"
definition search_threshold_used :: string where "search_threshold_used = ''qdrant_rag_search_threshold_used''"

definition embedder_loaded :: string where "embedder_loaded = ''qdrant_rag_embedder_loaded''"

definition recording :: "metric list \<Rightarrow> ('q, unit) action" where
  "recording ms = modify_io (\<lambda>w. w\<lparr>w_metrics := w_metrics w @ ms\<rparr>)"

definition record_http_request :: "string \<Rightarrow> string \<Rightarrow> int \<Rightarrow> rat \<Rightarrow> ('q, unit) action" where
  "record_http_request method endpoint status_code duration_seconds = recording
     [Inc http_requests_total
        [(''method'', method), (''endpoint'', endpoint), (''status_code'', show_int status_code)],
      Observe http_request_duration_seconds [(''method'', method), (''endpoint'', endpoint)] duration_seconds]"

definition record_grpc_request :: "string \<Rightarrow> string \<Rightarrow> rat \<Rightarrow> ('q, unit) action" where
  "record_grpc_request rpc status_code duration_seconds = recording
     [Inc grpc_requests_total [(''rpc'', rpc), (''status_code'', status_code)],
      Observe grpc_request_duration_seconds [(''rpc'', rpc)] duration_seconds]"

definition record_pipeline_phase :: "string \<Rightarrow> rat \<Rightarrow> ('q, unit) action" where
  "record_pipeline_phase phase duration_seconds = recording
     [Observe pipeline_phase_duration_seconds [(''phase'', phase)] duration_seconds]"

definition record_search :: "search_result \<Rightarrow> ('q, unit) action" where
  "record_search result = recording
     [Observe search_results_count [] (of_nat (sr_total_candidates result)),
      SetGauge search_threshold_used (sr_threshold_used result)]"

text \<open>
  The helpers of \<^verbatim>\<open>metrics.py\<close> itself, which nothing calls; its gauge of the embedder starts at 0.
\<close>

definition metrics_at_import :: "metric list" where
  "metrics_at_import = [SetGauge embedder_loaded 0]"

definition metrics_record_http_request :: "string \<Rightarrow> string \<Rightarrow> int \<Rightarrow> rat \<Rightarrow> ('q, unit) action" where
  "metrics_record_http_request endpoint method status_code duration_seconds = seq_io
     (recording [Inc http_requests_total
        [(''method'', method), (''endpoint'', endpoint), (''status_code'', show_int status_code)]])
     (recording [Observe http_request_duration_seconds [(''method'', method), (''endpoint'', endpoint)] duration_seconds])"

definition metrics_record_pipeline_phase :: "string \<Rightarrow> rat \<Rightarrow> ('q, unit) action" where
  "metrics_record_pipeline_phase phase duration =
     recording [Observe pipeline_phase_duration_seconds [(''phase'', phase)] duration]"

definition record_grpc :: "string \<Rightarrow> string \<Rightarrow> rat \<Rightarrow> ('q, unit) action" where
  "record_grpc rpc status_code duration_seconds = seq_io
     (recording [Inc grpc_requests_total [(''rpc'', rpc), (''status_code'', status_code)]])
     (recording [Observe grpc_request_duration_seconds [(''rpc'', rpc)] duration_seconds])"

definition record_search_results :: "int \<Rightarrow> rat \<Rightarrow> ('q, unit) action" where
  "record_search_results total_candidates threshold_used = seq_io
     (recording [Observe search_results_count [] (of_int total_candidates)])
     (recording [SetGauge search_threshold_used threshold_used])"

definition set_embedder_loaded :: "bool \<Rightarrow> ('q, unit) action" where
  "set_embedder_loaded loaded = recording [SetGauge embedder_loaded (if loaded then 1 else 0)]"

text \<open>A search as its callers see it: the query, then the recording of its result.\<close>

definition search_recorded ::
  "'q env \<Rightarrow> string \<Rightarrow> string \<Rightarrow> string \<Rightarrow> int \<Rightarrow> string list option \<Rightarrow> string list option \<Rightarrow>
     string option \<Rightarrow> ('q, search_result) action" where
  "search_recorded env tenant_id bot_id text top_k source_types tags category =
     bind_io (tick (e_encode env)) (\<lambda>encode.
     bind_io (on_store (search (e_client env) encode tenant_id bot_id text top_k source_types tags category)) (\<lambda>result.
     seq_io (record_search result) (return_io result)))"

section \<open>Lemmas\<close>

lemma recording_run [io_run, simp]: "recording ms w = (Inr (), w\<lparr>w_metrics := w_metrics w @ ms\<rparr>)"
  by (simp add: recording_def)

lemma frame_recording [frame_intro]: "(\<And>w ms. f (w\<lparr>w_metrics := ms\<rparr>) = f w) \<Longrightarrow> frame f (recording ms)"
  unfolding recording_def by (intro frame_intro) simp

lemma frame_search_recorded:
  assumes "\<And>w k. f (w\<lparr>w_tick := k\<rparr>) = f w" "\<And>w ms. f (w\<lparr>w_metrics := ms\<rparr>) = f w" "\<And>w q. f (w\<lparr>w_store := q\<rparr>) = f w"
  shows "frame f (search_recorded env t b s k st tg c)"
  unfolding search_recorded_def record_search_def by (intro frame_intro assms)

lemma for_phases_run:
  "for_io ps (\<lambda>(phase, ms). record_pipeline_phase phase (g ms)) w =
     (Inr (), w\<lparr>w_metrics := w_metrics w @
        map (\<lambda>(phase, ms). Observe pipeline_phase_duration_seconds [(''phase'', phase)] (g ms)) ps\<rparr>)"
  by (induction ps arbitrary: w)
    (auto simp: record_pipeline_phase_def seq_io_def bind_io_def)

text \<open>The helpers record what the recorders in use do.\<close>

lemma helpers_agree:
  "metrics_record_http_request endpoint meth status d = record_http_request meth endpoint status d"
  "metrics_record_pipeline_phase phase d = record_pipeline_phase phase d"
  "record_grpc rpc code d = record_grpc_request rpc code d"
  "record_search_results (int (sr_total_candidates res)) (sr_threshold_used res) = record_search res"
  by (simp_all add: fun_eq_iff metrics_record_http_request_def record_http_request_def record_grpc_def
      record_grpc_request_def metrics_record_pipeline_phase_def record_pipeline_phase_def record_search_results_def
      record_search_def seq_io_def bind_io_def)

end
