(* ===== verification/Middleware.thy ===== *)
theory Middleware
  imports Metrics
begin

text \<open>
  Requests, responses and the two middlewares of \<^verbatim>\<open>apps/core/middleware.py\<close>, as functions
  from a handler to a handler: \<open>request_id_middleware\<close> gives a request its id and its own
  context variables, \<open>access_log_middleware\<close> logs it once and records its metrics. The
  context processor of \<^verbatim>\<open>apps/core/logging.py\<close>, which reads the same variables, is at the end.
\<close>

section \<open>Requests and responses\<close>

text \<open>
  \<open>rq_url_name\<close> is the name of the route the resolver found: \<open>None\<close> if it found no route,
  \<open>Some None\<close> for a route without a name.
\<close>

record request =
  rq_method :: string
  rq_path :: string
  rq_request_id :: "string option"
  rq_url_name :: "string option option"

record response =
  rs_status :: int
  rs_headers :: "(string \<times> string) list"
  rs_body :: "json option"

type_synonym 'q handler = "request \<Rightarrow> ('q, response) action"

definition set_header :: "string \<Rightarrow> string \<Rightarrow> response \<Rightarrow> response" where
  "set_header k v resp = resp\<lparr>rs_headers := dict_set k v (rs_headers resp)\<rparr>"

section \<open>Request context\<close>

definition MAX_REQUEST_ID_LEN :: nat where "MAX_REQUEST_ID_LEN = 100"

definition REQUESTID_EXCLUDED_PATHS :: "string list" where
  "REQUESTID_EXCLUDED_PATHS = [''/static/'']"

definition ACCESSLOG_EXCLUDED_PATHS :: "string list" where
  "ACCESSLOG_EXCLUDED_PATHS = [''/metrics'', ''/healthz'', ''/static/'', ''/admin/'']"

definition excluded :: "string list \<Rightarrow> request \<Rightarrow> bool" where
  "excluded paths request = list_ex (py_startswith (rq_path request)) paths"

text \<open>A value given, or the one that is there.\<close>

definition set_var :: "string option \<Rightarrow> string option \<Rightarrow> string option" where
  "set_var new old = (case new of None \<Rightarrow> old | Some v \<Rightarrow> Some v)"

definition set_request_context ::
  "string option \<Rightarrow> string option \<Rightarrow> string option \<Rightarrow> ('q, unit) action" where
  "set_request_context tenant_id bot_id doc_id = modify_io (\<lambda>w. w\<lparr>w_context := (w_context w)
     \<lparr>cx_tenant_id := set_var tenant_id (cx_tenant_id (w_context w)),
      cx_bot_id := set_var bot_id (cx_bot_id (w_context w)),
      cx_doc_id := set_var doc_id (cx_doc_id (w_context w))\<rparr>\<rparr>)"

definition incoming_request_id :: "request \<Rightarrow> string" where
  "incoming_request_id request = take MAX_REQUEST_ID_LEN (py_strip (or_default [] (rq_request_id request)))"

definition request_id_middleware :: "'q env \<Rightarrow> 'q handler \<Rightarrow> 'q handler" where
  "request_id_middleware env get_response request =
     (if excluded REQUESTID_EXCLUDED_PATHS request then get_response request
      else bind_io (if incoming_request_id request \<noteq> [] then return_io (incoming_request_id request)
          else tick (e_uuid4 env)) (\<lambda>rid.
        bind_io (gets_io w_context) (\<lambda>outer.
        seq_io (modify_io (\<lambda>w. w\<lparr>w_context := \<lparr>cx_request_id = Some rid, cx_tenant_id = None,
          cx_bot_id = None, cx_doc_id = None\<rparr>\<rparr>))
        (finally_io
          (bind_io (get_response request) (\<lambda>resp. return_io (set_header ''X-Request-ID'' rid resp)))
          (modify_io (\<lambda>w. w\<lparr>w_context := outer\<rparr>))))))"

section \<open>Access log\<close>

text \<open>\<open>round(x, 2)\<close>: to the nearest hundredth, ties to the even one.\<close>

definition round_half_even :: "rat \<Rightarrow> int" where
  "round_half_even x = (let f = \<lfloor>x\<rfloor>; d = x - of_int f in
     if d < 1 / 2 then f else if 1 / 2 < d then f + 1 else if even f then f else f + 1)"

definition round2 :: "rat \<Rightarrow> rat" where
  "round2 x = of_int (round_half_even (x * 100)) / 100"

definition if_truthy :: "string option \<Rightarrow> string option" where
  "if_truthy x = (if truthy x then x else None)"

definition access_entry_of ::
  "request \<Rightarrow> int \<Rightarrow> rat \<Rightarrow> (string \<times> rat) list \<Rightarrow> request_context \<Rightarrow> access_entry" where
  "access_entry_of request status_code duration_ms phases cx =
     \<lparr>ae_method = rq_method request, ae_path = rq_path request, ae_status_code = status_code,
      ae_duration_ms = round2 duration_ms, ae_phases = phases, ae_tenant_id = if_truthy (cx_tenant_id cx),
      ae_bot_id = if_truthy (cx_bot_id cx), ae_doc_id = if_truthy (cx_doc_id cx)\<rparr>"

definition endpoint_of :: "request \<Rightarrow> string" where
  "endpoint_of request = (case rq_url_name request of
     Some (Some name) \<Rightarrow> if name \<noteq> [] then name else ''unknown'' | _ \<Rightarrow> ''unknown'')"

definition finish_request :: "'q env \<Rightarrow> request \<Rightarrow> rat \<Rightarrow> int \<Rightarrow> ('q, unit) action" where
  "finish_request env request started status_code =
     bind_io (monotonic env) (\<lambda>now.
     let duration_ms = (now - started) * 1000; duration_seconds = duration_ms / 1000 in
     bind_io get_phase_durations (\<lambda>phases.
     seq_io (modify_io (\<lambda>w. w\<lparr>w_access_log := w_access_log w @
       [access_entry_of request status_code duration_ms phases (w_context w)]\<rparr>))
    (seq_io (record_http_request (rq_method request) (endpoint_of request) status_code duration_seconds)
    (for_io phases (\<lambda>(phase, ms). record_pipeline_phase phase (ms / 1000))))))"

definition status_of :: "exn + response \<Rightarrow> int" where
  "status_of outcome = (case outcome of Inl e \<Rightarrow> 500 | Inr resp \<Rightarrow> rs_status resp)"

definition access_log_middleware :: "'q env \<Rightarrow> 'q handler \<Rightarrow> 'q handler" where
  "access_log_middleware env get_response request =
     (if excluded ACCESSLOG_EXCLUDED_PATHS request then get_response request
      else seq_io reset_phase_durations (
        bind_io (monotonic env) (\<lambda>started.
        bind_io (attempt_io (get_response request)) (\<lambda>outcome.
        seq_io (finish_request env request started (status_of outcome))
        (of_sum outcome)))))"

section \<open>Log lines\<close>

text \<open>\<open>d.setdefault(k, v)\<close> for a value that is there, and the processor every log line passes.\<close>

definition set_default :: "string \<Rightarrow> string option \<Rightarrow> (string \<times> json) list \<Rightarrow> (string \<times> json) list" where
  "set_default k v d = (case v of None \<Rightarrow> d
     | Some s \<Rightarrow> if lookup d k = None then d @ [(k, JStr s)] else d)"

definition request_context_processor :: "request_context \<Rightarrow> (string \<times> json) list \<Rightarrow> (string \<times> json) list" where
  "request_context_processor cx event =
     set_default ''doc_id'' (cx_doc_id cx) (set_default ''bot_id'' (cx_bot_id cx)
       (set_default ''tenant_id'' (cx_tenant_id cx) (set_default ''request_id'' (cx_request_id cx) event)))"

section \<open>Lemmas\<close>

lemma set_request_context_run [io_run, simp]:
  "set_request_context t b d w = (Inr (), w\<lparr>w_context := (w_context w)
     \<lparr>cx_tenant_id := set_var t (cx_tenant_id (w_context w)), cx_bot_id := set_var b (cx_bot_id (w_context w)),
      cx_doc_id := set_var d (cx_doc_id (w_context w))\<rparr>\<rparr>)"
  by (simp add: set_request_context_def)

lemma frame_set_request_context [frame_intro]:
  "(\<And>w cx. f (w\<lparr>w_context := cx\<rparr>) = f w) \<Longrightarrow> frame f (set_request_context t b d)"
  unfolding set_request_context_def by (intro frame_intro) simp

text \<open>The id of a request and the world its handler starts in.\<close>

definition request_id_of :: "'q env \<Rightarrow> request \<Rightarrow> 'q world \<Rightarrow> string" where
  "request_id_of env rq w =
     (if incoming_request_id rq \<noteq> [] then incoming_request_id rq else e_uuid4 env (w_tick w))"

definition request_scope :: "'q env \<Rightarrow> request \<Rightarrow> 'q world \<Rightarrow> 'q world" where
  "request_scope env rq w = (if incoming_request_id rq \<noteq> [] then w else w\<lparr>w_tick := Suc (w_tick w)\<rparr>)
     \<lparr>w_context := \<lparr>cx_request_id = Some (request_id_of env rq w), cx_tenant_id = None, cx_bot_id = None,
        cx_doc_id = None\<rparr>\<rparr>"

lemma request_id_middleware_run:
  assumes "\<not> excluded REQUESTID_EXCLUDED_PATHS rq" and "g rq (request_scope env rq w) = (r, w1)"
  shows "request_id_middleware env g rq w =
     (map_sum id (set_header ''X-Request-ID'' (request_id_of env rq w)) r, w1\<lparr>w_context := w_context w\<rparr>)"
  using assms
  by (cases r) (auto simp: request_id_middleware_def request_id_of_def request_scope_def bind_io_def
      finally_io_def)

lemma finish_request_run:
  "finish_request env rq started st w = (let w1 = pass_time env 0 w; now = seconds (w_clock w1);
       phases = or_default [] (w_phases w) in
     (Inr (), w1\<lparr>w_access_log := w_access_log w @
           [access_entry_of rq st ((now - started) * 1000) phases (w_context w)],
        w_metrics := w_metrics w @
          [Inc http_requests_total
             [(''method'', rq_method rq), (''endpoint'', endpoint_of rq), (''status_code'', show_int st)],
           Observe http_request_duration_seconds
             [(''method'', rq_method rq), (''endpoint'', endpoint_of rq)] (now - started)] @
          map (\<lambda>(phase, ms). Observe pipeline_phase_duration_seconds [(''phase'', phase)] (ms / 1000)) phases\<rparr>))"
  by (simp add: finish_request_def bind_io_def seq_io_def get_phase_durations_def Let_def record_http_request_def
      for_phases_run or_default_def del: left_diff_distrib_numeral)

lemma access_log_middleware_run:
  assumes "\<not> excluded ACCESSLOG_EXCLUDED_PATHS rq"
    and "g rq (pass_time env 0 (w\<lparr>w_phases := Some []\<rparr>)) = (r, w1)"
  shows "access_log_middleware env g rq w = (r, snd (finish_request env rq
     (seconds (w_clock (pass_time env 0 w))) (status_of r) w1))"
  using assms
  by (simp add: access_log_middleware_def reset_phase_durations_def bind_io_def seq_io_def attempt_io_run
      finish_request_run Let_def)

text \<open>The two middlewares around a handler, in the order of the settings.\<close>

definition observed :: "'q env \<Rightarrow> 'q handler \<Rightarrow> 'q handler" where
  "observed env g = request_id_middleware env (access_log_middleware env g)"

lemma request_scope_simps [simp]:
  "w_access_log (request_scope env rq w) = w_access_log w" "settled (request_scope env rq w) = settled w"
  "w_metrics (request_scope env rq w) = w_metrics w"
  by (simp_all add: request_scope_def)

lemma request_scope_context: "request_scope env rq (w\<lparr>w_context := cx\<rparr>) = request_scope env rq w"
  and request_id_of_context: "request_id_of env rq (w\<lparr>w_context := cx\<rparr>) = request_id_of env rq w"
  by (simp_all add: request_scope_def request_id_of_def)

lemma status_of_header [simp]: "status_of (map_sum id (set_header k v) r) = status_of r"
  by (cases r) (simp_all add: status_of_def set_header_def)

text \<open>
  C24 (requests are separate and logged once). Around a handler that writes no access log of its
  own, a request that no middleware skips: the outcome does not depend on the variables an
  earlier request left behind, and those are back in place afterwards, also when the handler
  raises; exactly one line is logged, with the method, path and final status (500 if the
  handler raised); a response carries the request's id, at most 100 characters when the client
  chose it.
\<close>

theorem request_observed:
  assumes "\<not> excluded REQUESTID_EXCLUDED_PATHS rq" and "\<not> excluded ACCESSLOG_EXCLUDED_PATHS rq"
    and quiet: "frame w_access_log (g rq)"
  shows "\<exists>r w' entry. observed env g rq w = (r, w') \<and> w_context w' = w_context w \<and>
    (\<forall>cx. fst (observed env g rq (w\<lparr>w_context := cx\<rparr>)) = r) \<and>
    w_access_log w' = w_access_log w @ [entry] \<and> ae_status_code entry = status_of r \<and>
    ae_method entry = rq_method rq \<and> ae_path entry = rq_path rq \<and>
    (\<forall>resp. r = Inr resp \<longrightarrow> lookup (rs_headers resp) ''X-Request-ID'' = Some (request_id_of env rq w)) \<and>
    length (incoming_request_id rq) \<le> 100"
proof -
  let ?s = "request_scope env rq w"
  obtain r0 w1 where inner: "g rq (pass_time env 0 (?s\<lparr>w_phases := Some []\<rparr>)) = (r0, w1)" by (metis prod.collapse)
  let ?t = "seconds (w_clock (pass_time env 0 ?s))"
  let ?w2 = "snd (finish_request env rq ?t (status_of r0) w1)"
  have log: "access_log_middleware env g rq ?s = (r0, ?w2)"
    using assms(2) inner by (rule access_log_middleware_run)
  have run: "observed env g rq (w\<lparr>w_context := cx\<rparr>) =
      (map_sum id (set_header ''X-Request-ID'' (request_id_of env rq w)) r0, ?w2\<lparr>w_context := cx\<rparr>)" for cx
    using request_id_middleware_run [OF assms(1), of "access_log_middleware env g" env "w\<lparr>w_context := cx\<rparr>"] log
    by (simp add: observed_def request_scope_context request_id_of_context)
  from run [of "w_context w"] have this_run: "observed env g rq w =
      (map_sum id (set_header ''X-Request-ID'' (request_id_of env rq w)) r0, ?w2\<lparr>w_context := w_context w\<rparr>)" by simp
  have "w_access_log w1 = w_access_log w" using frameD [OF quiet inner] by simp
  then have "\<exists>entry. w_access_log ?w2 = w_access_log w @ [entry] \<and> ae_status_code entry = status_of r0 \<and>
      ae_method entry = rq_method rq \<and> ae_path entry = rq_path rq"
    by (simp add: finish_request_run Let_def access_entry_of_def)
  moreover have "lookup (rs_headers resp) ''X-Request-ID'' = Some (request_id_of env rq w)"
    if "map_sum id (set_header ''X-Request-ID'' (request_id_of env rq w)) r0 = Inr resp" for resp
    using that by (cases r0) (auto simp: set_header_def)
  moreover have "length (incoming_request_id rq) \<le> 100"
    by (simp add: incoming_request_id_def MAX_REQUEST_ID_LEN_def)
  ultimately show ?thesis using run this_run by (auto simp: status_of_header)
qed

end
