(* ===== verification/Serializers.thy ===== *)
theory Serializers
  imports Pipeline
begin

text \<open>
  The request serializers, \<^verbatim>\<open>apps/documents/serializers.py\<close>. The declared fields are data,
  the \<open>validate\<close> methods are functions over the raw body (\<open>initial_data\<close>) and the validated
  one. What REST framework makes of a field declaration is a parameter, the record \<open>drf\<close>:
  \<open>d_upload_fields\<close> and \<open>d_search_fields\<close> run the declared fields over a body and return the
  errors or the validated data, and \<open>d_error_details\<close> turns the detail of a
  \<open>ValidationError\<close> into \<open>serializer.errors\<close>.
\<close>

section \<open>Dynamic values\<close>

text \<open>\<open>bool(v)\<close>, \<open>type(v).__name__\<close> and the elements a \<open>for\<close> loop sees.\<close>

primrec json_truthy :: "json \<Rightarrow> bool" where
  "json_truthy JNull = False"
| "json_truthy (JBool b) = b"
| "json_truthy (JInt i) = (i \<noteq> 0)"
| "json_truthy (JFloat r) = (r \<noteq> 0)"
| "json_truthy (JStr s) = (s \<noteq> [])"
| "json_truthy (JList xs) = (xs \<noteq> [])"
| "json_truthy (JObj d) = (d \<noteq> [])"

primrec py_type_name :: "json \<Rightarrow> string" where
  "py_type_name JNull = ''NoneType''"
| "py_type_name (JBool b) = ''bool''"
| "py_type_name (JInt i) = ''int''"
| "py_type_name (JFloat r) = ''float''"
| "py_type_name (JStr s) = ''str''"
| "py_type_name (JList xs) = ''list''"
| "py_type_name (JObj d) = ''dict''"

definition not_iterable :: "json \<Rightarrow> exn" where
  "not_iterable v = OtherError ''TypeError'' (py_repr (py_type_name v) @ '' object is not iterable'')"

definition elements :: "json \<Rightarrow> exn + json list" where
  "elements v = (case v of
     JList xs \<Rightarrow> Inr xs
   | JStr s \<Rightarrow> Inr (map (\<lambda>c. JStr [c]) s)
   | JObj d \<Rightarrow> Inr (map JStr (keys d))
   | _ \<Rightarrow> Inl (not_iterable v))"

definition no_attribute :: "json \<Rightarrow> string \<Rightarrow> exn" where
  "no_attribute v name = OtherError ''AttributeError''
     (py_repr (py_type_name v) @ '' object has no attribute '' @ py_repr name)"

definition keys_of :: "json \<Rightarrow> exn + string list" where
  "keys_of v = (case v of JObj d \<Rightarrow> Inr (keys d) | _ \<Rightarrow> Inl (no_attribute v ''keys''))"

definition get_key :: "json \<Rightarrow> string \<Rightarrow> exn + json option" where
  "get_key v k = (case v of JObj d \<Rightarrow> Inr (lookup d k) | _ \<Rightarrow> Inl (no_attribute v ''get''))"

text \<open>\<open>f"{names}"\<close> of a list of strings.\<close>

definition list_repr :: "string list \<Rightarrow> string" where
  "list_repr xs = ''['' @ join_with '', '' (map py_repr xs) @ '']''"

section \<open>Declared fields\<close>

text \<open>
  A field with its arguments. \<open>required\<close> is \<open>False\<close> where a default is given, as the
  framework sets it.
\<close>

datatype field_type =
    CharField bool
  | IntegerField "int option" "int option"
  | UUIDField
  | BooleanField
  | ChoiceField "string list"
  | ListField field_type
  | NestedField "(string \<times> field) list" bool
and field = Field (field_type: field_type) (required: bool) (allow_null: bool) (default: "json option")

definition upload_item_fields :: "(string \<times> field) list" where
  "upload_item_fields =
    [(''content'', Field (CharField False) True False None),
     (''section_path'', Field (ListField (CharField True)) False False (Some (JList []))),
     (''page_number'', Field (IntegerField (Some 1) None) False True None),
     (''item_index'', Field (IntegerField (Some 0) None) False False None)]"

definition SOURCE_TYPES :: "string list" where
  "SOURCE_TYPES = [''pdf'', ''docx'', ''url'', ''html'', ''csv'', ''faq'', ''image'', ''text'']"

definition upload_body_fields :: "(string \<times> field) list" where
  "upload_body_fields =
    [(''doc_id'', Field UUIDField False False None),
     (''source_type'', Field (ChoiceField SOURCE_TYPES) False False (Some (JStr ''text''))),
     (''source_filename'', Field (CharField True) False True None),
     (''source_url'', Field (CharField True) False True None),
     (''content_hash'', Field (CharField True) False True None),
     (''items'', Field (NestedField upload_item_fields True) True False None)]"

definition search_filters_fields :: "(string \<times> field) list" where
  "search_filters_fields =
    [(''source_types'', Field (ListField (CharField False)) False False (Some (JList []))),
     (''tags'', Field (ListField (CharField False)) False False (Some (JList []))),
     (''category'', Field (CharField True) False True None),
     (''only_active'', Field BooleanField False False (Some (JBool True)))]"

definition search_request_fields :: "(string \<times> field) list" where
  "search_request_fields =
    [(''query'', Field (CharField False) True False None),
     (''top_k'', Field (IntegerField (Some 1) (Some 20)) False False (Some (JInt 5))),
     (''filters'', Field (NestedField search_filters_fields False) False False None)]"

text \<open>The validated search request; \<open>filters\<close>, when given, has its defaults filled in.\<close>

record search_filters =
  sf_source_types :: "string list"
  sf_tags :: "string list"
  sf_category :: "string option option"
  sf_only_active :: bool

record search_body =
  sb_query :: string
  sb_top_k :: int
  sb_filters :: "search_filters option"

record drf =
  d_upload_fields :: "(string \<times> field) list \<Rightarrow> json \<Rightarrow> details + upload_body"
  d_search_fields :: "(string \<times> field) list \<Rightarrow> json \<Rightarrow> details + search_body"
  d_error_details :: "details \<Rightarrow> details"

section \<open>Validation\<close>

text \<open>A \<open>ValidationError\<close> of a \<open>validate\<close> method: its error code and message.\<close>

definition validation_error :: "string \<Rightarrow> string \<Rightarrow> details" where
  "validation_error code text = [(''error_code'', JStr code), (''message'', JStr text)]"

text \<open>The names of a set that are keys of the body, sorted.\<close>

definition forbidden :: "string list \<Rightarrow> string list \<Rightarrow> string list" where
  "forbidden names ks = filter (\<lambda>n. n \<in> set ks) names"

definition REMOVED_FIELDS :: "string list" where
  "REMOVED_FIELDS = [''custom_metadata'', ''language'']"

definition REMOVED_ITEM_FIELDS :: "string list" where
  "REMOVED_ITEM_FIELDS = [''item_type'', ''language'', ''title'', ''url'']"

definition id_fields :: "string list" where
  "id_fields = [''bot_id'', ''tenant_id'']"

fun removed_item_field :: "nat \<Rightarrow> json list \<Rightarrow> details option" where
  "removed_item_field i [] = None"
| "removed_item_field i (raw # rest) = (case raw of
     JObj d \<Rightarrow> (case forbidden REMOVED_ITEM_FIELDS (keys d) of
         [] \<Rightarrow> removed_item_field (Suc i) rest
       | ns \<Rightarrow> Some (validation_error ''removed_field''
           (''items['' @ show_nat i @ ''] contains removed fields '' @ list_repr ns @ ''. Drop them.'')))
   | _ \<Rightarrow> removed_item_field (Suc i) rest)"

definition raw_items :: "json \<Rightarrow> exn + json list" where
  "raw_items data = and_then (get_key data ''items'') (\<lambda>v. case v of
     None \<Rightarrow> Inr [] | Some x \<Rightarrow> if json_truthy x then elements x else Inr [])"

definition upload_validate :: "json \<Rightarrow> upload_body \<Rightarrow> exn + (details + upload_body)" where
  "upload_validate data attrs = and_then (keys_of data) (\<lambda>ks.
     if forbidden REMOVED_FIELDS ks \<noteq> [] then Inr (Inl (validation_error ''removed_field''
       (''Fields '' @ list_repr (forbidden REMOVED_FIELDS ks) @
        '' were removed in Phase 7.5. Drop them from the request body.'')))
     else if forbidden id_fields ks \<noteq> [] then Inr (Inl (validation_error ''id_in_body''
       (''Body must not contain '' @ list_repr (forbidden id_fields ks) @
        '' -- these come from the URL path.'')))
     else and_then (raw_items data) (\<lambda>items.
       case removed_item_field 0 items of
         Some err \<Rightarrow> Inr (Inl err)
       | None \<Rightarrow> if bd_items attrs = []
           then Inr (Inl (validation_error ''empty_items'' ''items[] must not be empty.''))
           else Inr (Inr attrs)))"

definition search_validate :: "search_body \<Rightarrow> exn + (details + search_body)" where
  "search_validate attrs =
     (if (case sb_filters attrs of None \<Rightarrow> False | Some f \<Rightarrow> \<not> sf_only_active f)
      then Inr (Inl (validation_error ''only_active_must_be_true'' ''filters.only_active must be true in v1.''))
      else if py_strip (sb_query attrs) = []
      then Inr (Inl (validation_error ''empty_query'' ''query must be non-empty after stripping.''))
      else Inr (Inr attrs))"

text \<open>\<open>serializer.is_valid()\<close>: the declared fields, then \<open>validate\<close>.\<close>

definition run_serializer ::
  "drf \<Rightarrow> (details + 'a) \<Rightarrow> ('a \<Rightarrow> exn + (details + 'a)) \<Rightarrow> exn + (details + 'a)" where
  "run_serializer drf checked validate = (case checked of
     Inl errors \<Rightarrow> Inr (Inl errors)
   | Inr attrs \<Rightarrow> and_then (validate attrs) (\<lambda>r. case r of
       Inl detail \<Rightarrow> Inr (Inl (d_error_details drf detail)) | Inr body \<Rightarrow> Inr (Inr body)))"

definition upload_is_valid :: "drf \<Rightarrow> json \<Rightarrow> exn + (details + upload_body)" where
  "upload_is_valid drf data =
     run_serializer drf (d_upload_fields drf upload_body_fields data) (upload_validate data)"

definition search_is_valid :: "drf \<Rightarrow> json \<Rightarrow> exn + (details + search_body)" where
  "search_is_valid drf data =
     run_serializer drf (d_search_fields drf search_request_fields data) search_validate"

section \<open>Lemmas\<close>

lemma forbidden_Nil: "forbidden names ks = [] \<longleftrightarrow> set names \<inter> set ks = {}"
  by (auto simp: forbidden_def filter_empty_conv)

lemma forbidden_Cons: "forbidden names ks = x # xs \<Longrightarrow> set names \<inter> set ks \<noteq> {}"
  by (metis forbidden_Nil list.distinct(1))

lemma removed_item_field_None:
  "removed_item_field i raws = None \<longleftrightarrow>
     (\<forall>d. JObj d \<in> set raws \<longrightarrow> set REMOVED_ITEM_FIELDS \<inter> set (keys d) = {})"
  by (induction i raws rule: removed_item_field.induct)
    (auto simp: forbidden_Nil dest: forbidden_Cons split: json.splits list.splits)

lemma upload_validate_iff:
  "upload_validate data attrs = Inr (Inr body) \<longleftrightarrow> body = attrs \<and> bd_items attrs \<noteq> [] \<and>
     (\<exists>d raws. data = JObj d \<and> raw_items data = Inr raws \<and>
        set REMOVED_FIELDS \<inter> set (keys d) = {} \<and> set id_fields \<inter> set (keys d) = {} \<and>
        (\<forall>it. JObj it \<in> set raws \<longrightarrow> set REMOVED_ITEM_FIELDS \<inter> set (keys it) = {}))"
proof (cases "\<exists>d raws. data = JObj d \<and> raw_items data = Inr raws")
  case True
  then obtain d raws where data: "data = JObj d" and raws: "raw_items (JObj d) = Inr raws" by auto
  show ?thesis
    using removed_item_field_None [of 0 raws]
    by (cases "removed_item_field 0 raws")
      (auto simp: data raws upload_validate_def keys_of_def forbidden_Nil)
next
  case False
  then show ?thesis
    by (cases data; cases "raw_items data") (auto simp: upload_validate_def keys_of_def split: if_splits)
qed

lemma run_serializer_valid:
  "run_serializer drf checked validate = Inr (Inr body) \<longleftrightarrow>
     (\<exists>attrs. checked = Inr attrs \<and> validate attrs = Inr (Inr body))"
  by (auto simp: run_serializer_def and_then_def split: sum.splits)

text \<open>
  C39 (what a valid upload is). A body passes the upload serializer exactly when it is an
  object whose declared fields are right, without a removed field and without \<open>tenant_id\<close> or
  \<open>bot_id\<close> at the top, with items none of which has a removed field, and at least one item;
  the serializer then changes nothing of the validated data.
\<close>

theorem upload_is_valid_iff:
  "upload_is_valid drf data = Inr (Inr body) \<longleftrightarrow>
     (\<exists>d raws. data = JObj d \<and> d_upload_fields drf upload_body_fields data = Inr body \<and>
        set (keys d) \<inter> {''language'', ''custom_metadata'', ''tenant_id'', ''bot_id''} = {} \<and>
        raw_items data = Inr raws \<and>
        (\<forall>it. JObj it \<in> set raws \<longrightarrow> set (keys it) \<inter> {''language'', ''url'', ''item_type'', ''title''} = {}) \<and>
        bd_items body \<noteq> [])"
  by (auto simp: upload_is_valid_def run_serializer_valid upload_validate_iff REMOVED_FIELDS_def id_fields_def
      REMOVED_ITEM_FIELDS_def)

end
