(* ===== verification/Views.thy ===== *)
theory Views
  imports Middleware Serializers Delete
begin

text \<open>
  The HTTP views, \<^verbatim>\<open>apps/documents/views.py\<close>: identifiers are normalised and checked, the
  body is validated, the pipeline or the search runs, and every outcome becomes a response.
  \<open>data\<close> is what reading \<open>request.data\<close> gives: the parsed body, or the exception the parser
  raises. The outermost \<open>except Exception\<close> of each view is \<open>unhandled\<close>.
\<close>

section \<open>Responses\<close>

definition error_response :: "int \<Rightarrow> string \<Rightarrow> string \<Rightarrow> details \<Rightarrow> response" where
  "error_response status code text info =
     \<lparr>rs_status = status, rs_headers = [],
      rs_body = Some (JObj [(''error'', JObj ([(''code'', JStr code), (''message'', JStr text)] @
        (if info \<noteq> [] then [(''details'', JObj info)] else [])))])\<rparr>"

definition internal_error :: "exn \<Rightarrow> response" where
  "internal_error e = error_response 500 ''internal_error'' (exn_class e @ '': '' @ exn_text e) []"

text \<open>The response to an \<open>UploadError\<close>; a lock timeout says when to try again.\<close>

definition upload_error_response :: "upload_error \<Rightarrow> response" where
  "upload_error_response u =
     (let resp = error_response (http_status u) (error_code u) (message u) (details u)
      in case u of ConcurrentUploadError m r d \<Rightarrow> set_header ''Retry-After'' (show_int r) resp | _ \<Rightarrow> resp)"

definition unhandled :: "('q, response) action \<Rightarrow> ('q, response) action" where
  "unhandled m = try_io m (\<lambda>exc. return_io (internal_error exc))"

definition handle_upload_error :: "('q, response) action \<Rightarrow> ('q, response) action" where
  "handle_upload_error m = try_io m (\<lambda>exc. case exc of
     Upload u \<Rightarrow> return_io (upload_error_response u) | _ \<Rightarrow> raise_io exc)"

section \<open>Identifiers of the path\<close>

definition path_identifiers :: "string \<Rightarrow> string \<Rightarrow> exn + (string \<times> string)" where
  "path_identifiers tenant_id bot_id =
     (let t = normalize_slug tenant_id; b = normalize_slug bot_id in
      and_then (validate_slug ''tenant_id'' t) (\<lambda>_.
      and_then (validate_slug ''bot_id'' b) (\<lambda>_. Inr (t, b))))"

definition invalid_slug_response :: "exn \<Rightarrow> response" where
  "invalid_slug_response e = error_response 400 ''invalid_slug'' (exn_text e) []"

definition with_identifiers ::
  "string \<Rightarrow> string \<Rightarrow> (string \<Rightarrow> string \<Rightarrow> ('q, response) action) \<Rightarrow> ('q, response) action" where
  "with_identifiers tenant_id bot_id continue =
     (case path_identifiers tenant_id bot_id of
       Inl e \<Rightarrow> (case e of InvalidIdentifierError m \<Rightarrow> return_io (invalid_slug_response e) | _ \<Rightarrow> raise_io e)
     | Inr (t, b) \<Rightarrow> continue t b)"

section \<open>Upload\<close>

definition invalid_payload_response :: "details \<Rightarrow> response" where
  "invalid_payload_response errors = error_response 400 ''invalid_payload'' ''Body validation failed.'' errors"

definition upload_answer :: "upload_result \<Rightarrow> response" where
  "upload_answer result = \<lparr>rs_status = (if ur_status result = ''no_change'' then 200 else 201), rs_headers = [],
     rs_body = Some (JObj
       [(''doc_id'', JStr (ur_doc_id result)),
        (''chunks_created'', JInt (int (ur_chunks_created result))),
        (''items_processed'', JInt (int (ur_items_processed result))),
        (''collection_name'', JStr (ur_collection_name result)),
        (''status'', JStr (ur_status result))])\<rparr>"

definition document_id :: "'q env \<Rightarrow> upload_body \<Rightarrow> ('q, string) action" where
  "document_id env body = (case bd_doc_id body of Some d \<Rightarrow> return_io d | None \<Rightarrow> tick (e_uuid4 env))"

definition upload_view ::
  "'q env \<Rightarrow> drf \<Rightarrow> exn + json \<Rightarrow> string \<Rightarrow> string \<Rightarrow> ('q, response) action" where
  "upload_view env drf data tenant_id bot_id = unhandled (with_identifiers tenant_id bot_id (\<lambda>t b.
     seq_io (set_request_context (Some t) (Some b) None)
    (bind_io (of_sum data) (\<lambda>initial.
     bind_io (of_sum (upload_is_valid drf initial)) (\<lambda>checked.
     case checked of
       Inl errors \<Rightarrow> return_io (invalid_payload_response errors)
     | Inr body \<Rightarrow>
         bind_io (document_id env body) (\<lambda>doc_id.
         seq_io (set_request_context None None (Some doc_id))
        (handle_upload_error (bind_io (upload_execute env t b doc_id body) (\<lambda>result.
           return_io (upload_answer result))))))))))"

section \<open>Delete\<close>

definition deleted_response :: response where
  "deleted_response = \<lparr>rs_status = 204, rs_headers = [], rs_body = None\<rparr>"

definition delete_view :: "'q env \<Rightarrow> string \<Rightarrow> string \<Rightarrow> string \<Rightarrow> ('q, response) action" where
  "delete_view env tenant_id bot_id doc_id = unhandled (with_identifiers tenant_id bot_id (\<lambda>t b.
     seq_io (set_request_context (Some t) (Some b) (Some doc_id))
    (handle_upload_error (bind_io (delete_execute env t b doc_id) (\<lambda>result. return_io deleted_response)))))"

section \<open>Search\<close>

text \<open>\<open>list(xs or []) or None\<close>, and \<open>s or None\<close> of an optional string.\<close>

definition list_or_none :: "'a list \<Rightarrow> 'a list option" where
  "list_or_none xs = (if xs = [] then None else Some xs)"

definition search_answer :: "search_result \<Rightarrow> response" where
  "search_answer result = \<lparr>rs_status = 200, rs_headers = [], rs_body = Some (JObj
     [(''chunks'', JList (map JObj (sr_chunks result))),
      (''total_candidates'', JInt (int (sr_total_candidates result))),
      (''threshold_used'', JFloat (sr_threshold_used result))])\<rparr>"

definition search_error_response :: "exn \<Rightarrow> response" where
  "search_error_response exc = (case exc of
     Qdrant (CollectionNotFoundError m) \<Rightarrow> error_response 404 ''collection_not_found''
       ''No collection for this bot. Upload a document first.'' []
   | Qdrant (QdrantConnectionError m) \<Rightarrow> error_response 503 ''qdrant_unavailable'' m []
   | _ \<Rightarrow> internal_error exc)"

definition search_arguments ::
  "search_body \<Rightarrow> string \<times> int \<times> string list option \<times> string list option \<times> string option" where
  "search_arguments body = (py_strip (sb_query body), sb_top_k body,
     (case sb_filters body of None \<Rightarrow> None | Some f \<Rightarrow> list_or_none (sf_source_types f)),
     (case sb_filters body of None \<Rightarrow> None | Some f \<Rightarrow> list_or_none (sf_tags f)),
     (case sb_filters body of None \<Rightarrow> None | Some f \<Rightarrow> if_truthy (get_field (sf_category f))))"

definition search_view ::
  "'q env \<Rightarrow> drf \<Rightarrow> exn + json \<Rightarrow> string \<Rightarrow> string \<Rightarrow> ('q, response) action" where
  "search_view env drf data tenant_id bot_id = unhandled (with_identifiers tenant_id bot_id (\<lambda>t b.
     seq_io (set_request_context (Some t) (Some b) None)
    (bind_io (of_sum data) (\<lambda>initial.
     bind_io (of_sum (search_is_valid drf initial)) (\<lambda>checked.
     case checked of
       Inl errors \<Rightarrow> return_io (invalid_payload_response errors)
     | Inr body \<Rightarrow> (case search_arguments body of (text, top_k, source_types, tags, category) \<Rightarrow>
         try_io (bind_io (search_recorded env t b text top_k source_types tags category) (\<lambda>result.
           return_io (search_answer result)))
         (\<lambda>exc. return_io (search_error_response exc))))))))"

section \<open>How a request ends\<close>

lemma path_identifiers_error:
  "path_identifiers t b = Inl e \<Longrightarrow> \<exists>m. e = InvalidIdentifierError m"
  by (auto simp: path_identifiers_def Let_def and_then_def validate_slug_def split: if_splits sum.splits)

lemma path_identifiers_valid:
  "path_identifiers t b = Inr (t', b') \<Longrightarrow>
     t' = normalize_slug t \<and> b' = normalize_slug b \<and> slug_fullmatch t' \<and> slug_fullmatch b'"
  by (auto simp: path_identifiers_def Let_def and_then_def validate_slug_def split: if_splits sum.splits)

definition outcome_response :: "('a \<Rightarrow> response) \<Rightarrow> exn + 'a \<Rightarrow> response" where
  "outcome_response answer r = (case r of
     Inl (Upload u) \<Rightarrow> upload_error_response u | Inl e \<Rightarrow> internal_error e | Inr x \<Rightarrow> answer x)"

lemma unhandled_outcome:
  "unhandled (handle_upload_error (bind_io m (\<lambda>x. return_io (answer x)))) w =
     (Inr (outcome_response answer (fst (m w))), snd (m w))"
  by (cases "m w"; cases "fst (m w)")
    (auto simp: unhandled_def handle_upload_error_def try_io_def bind_io_def outcome_response_def split: exn.splits)

lemma unhandled_step: "m w = n w1 \<Longrightarrow> unhandled m w = unhandled n w1"
  by (simp add: unhandled_def try_io_def)

text \<open>What a view does before its pipeline or search runs changes the request's variables only.\<close>

definition prelude_done :: "'q world \<Rightarrow> 'q world \<Rightarrow> bool" where
  "prelude_done w w1 \<longleftrightarrow> settled w1 = settled w \<and> w_metrics w1 = w_metrics w \<and> w_access_log w1 = w_access_log w \<and>
     w_phases w1 = w_phases w \<and> w_clock w1 = w_clock w \<and> cx_request_id (w_context w1) = cx_request_id (w_context w)"

lemma prelude_done_settled: "prelude_done w w1 \<Longrightarrow> w_db w1 = w_db w \<and> w_store w1 = w_store w \<and> w_locks w1 = w_locks w"
  by (simp add: prelude_done_def settled_eq)

lemma upload_view_cases:
  assumes "upload_view env drf data t b w = (r, w')"
  obtains (slug) e where "path_identifiers t b = Inl e" "r = Inr (invalid_slug_response e)" "w' = w"
  | (refused) t' b' resp where "path_identifiers t b = Inr (t', b')" "prelude_done w w'" "r = Inr resp"
      "(\<exists>e. (data = Inl e \<or> (\<exists>d. data = Inr d \<and> upload_is_valid drf d = Inl e)) \<and> resp = internal_error e) \<or>
       (\<exists>d errors. data = Inr d \<and> upload_is_valid drf d = Inr (Inl errors) \<and> resp = invalid_payload_response errors)"
  | (run) t' b' d body doc_id w1 where "path_identifiers t b = Inr (t', b')" "data = Inr d"
      "upload_is_valid drf d = Inr (Inr body)" "prelude_done w w1"
      "doc_id = (case bd_doc_id body of Some x \<Rightarrow> x | None \<Rightarrow> e_uuid4 env (w_tick w))"
      "w_context w1 = \<lparr>cx_request_id = cx_request_id (w_context w), cx_tenant_id = Some t', cx_bot_id = Some b',
         cx_doc_id = Some doc_id\<rparr>"
      "r = Inr (outcome_response upload_answer (fst (upload_execute env t' b' doc_id body w1)))"
      "w' = snd (upload_execute env t' b' doc_id body w1)"
proof (cases "path_identifiers t b")
  case (Inl e)
  with assms path_identifiers_error [OF Inl] show ?thesis
    by (intro slug [OF Inl]) (auto simp: upload_view_def with_identifiers_def unhandled_def try_io_def)
next
  case (Inr tb)
  then obtain t' b' where tb: "path_identifiers t b = Inr (t', b')" by (cases tb) auto
  let ?w1 = "snd (set_request_context (Some t') (Some b') None w)"
  have done1: "prelude_done w ?w1" by (simp add: prelude_done_def)
  show ?thesis
  proof (cases "\<exists>d body. data = Inr d \<and> upload_is_valid drf d = Inr (Inr body)")
    case False
    have "r = Inr resp \<Longrightarrow> w' = ?w1 \<Longrightarrow> ((\<exists>e. (data = Inl e \<or> (\<exists>d. data = Inr d \<and> upload_is_valid drf d = Inl e)) \<and> resp = internal_error e) \<or>
       (\<exists>d errors. data = Inr d \<and> upload_is_valid drf d = Inr (Inl errors) \<and> resp = invalid_payload_response errors)) \<Longrightarrow> thesis" for resp
      using refused [OF tb] done1 by blast
    with False assms tb show ?thesis
      by (cases data; cases "upload_is_valid drf (projr data)"; cases "projr (upload_is_valid drf (projr data))")
        (auto simp: upload_view_def with_identifiers_def unhandled_def try_io_def seq_io_def bind_io_def)
  next
    case True
    then obtain d body where d: "data = Inr d" "upload_is_valid drf d = Inr (Inr body)" by blast
    let ?id = "case bd_doc_id body of Some x \<Rightarrow> x | None \<Rightarrow> e_uuid4 env (w_tick w)"
    let ?w2 = "snd (set_request_context None None (Some ?id) (snd (document_id env body ?w1)))"
    have "upload_view env drf data t b w = unhandled (handle_upload_error
        (bind_io (upload_execute env t' b' ?id body) (\<lambda>x. return_io (upload_answer x)))) ?w2"
      unfolding upload_view_def
      by (rule unhandled_step)
        (cases "bd_doc_id body"; simp add: with_identifiers_def tb d seq_io_def bind_io_def document_id_def)
    then show ?thesis
      using assms
      by (intro run [OF tb d, of ?w2 ?id])
        (auto simp: unhandled_outcome prelude_done_def set_var_def document_id_def split: option.splits)
  qed
qed

lemma delete_view_cases:
  assumes "delete_view env t b d w = (r, w')"
  obtains (slug) e where "path_identifiers t b = Inl e" "r = Inr (invalid_slug_response e)" "w' = w"
  | (run) t' b' w1 where "path_identifiers t b = Inr (t', b')" "prelude_done w w1"
      "w_context w1 = \<lparr>cx_request_id = cx_request_id (w_context w), cx_tenant_id = Some t', cx_bot_id = Some b',
         cx_doc_id = Some d\<rparr>"
      "r = Inr (outcome_response (\<lambda>_. deleted_response) (fst (delete_execute env t' b' d w1)))"
      "w' = snd (delete_execute env t' b' d w1)"
proof (cases "path_identifiers t b")
  case (Inl e)
  with assms path_identifiers_error [OF Inl] show ?thesis
    by (intro slug [OF Inl]) (auto simp: delete_view_def with_identifiers_def unhandled_def try_io_def)
next
  case (Inr tb)
  then obtain t' b' where tb: "path_identifiers t b = Inr (t', b')" by (cases tb) auto
  let ?w1 = "snd (set_request_context (Some t') (Some b') (Some d) w)"
  have "delete_view env t b d w = unhandled (handle_upload_error
      (bind_io (delete_execute env t' b' d) (\<lambda>x. return_io deleted_response))) ?w1"
    unfolding delete_view_def by (rule unhandled_step) (simp add: with_identifiers_def tb seq_io_def bind_io_def)
  with assms show ?thesis
    by (intro run [OF tb, of ?w1]) (auto simp: unhandled_outcome prelude_done_def set_var_def)
qed

section \<open>Properties\<close>

definition wire_ok :: "response \<Rightarrow> bool" where
  "wire_ok resp \<longleftrightarrow> rs_status resp \<in> {200, 201, 204, 400, 404, 409, 422, 500} \<and>
     (rs_status resp = 409) = (lookup (rs_headers resp) ''Retry-After'' \<noteq> None)"

lemma wire_ok_error_response: "status \<in> {400, 404, 422, 500} \<Longrightarrow> wire_ok (error_response status c m i)"
  by (auto simp: wire_ok_def error_response_def lookup_def)

lemma wire_ok_responses [simp]:
  "wire_ok (invalid_slug_response e)" "wire_ok (internal_error e)" "wire_ok (invalid_payload_response d)"
  "wire_ok (upload_answer res)" "wire_ok deleted_response"
  by (simp_all add: invalid_slug_response_def internal_error_def invalid_payload_response_def
      wire_ok_error_response) (simp_all add: wire_ok_def upload_answer_def deleted_response_def lookup_def)

lemma wire_ok_upload_error [simp]: "wire_ok (upload_error_response u)"
  by (cases u) (simp_all add: wire_ok_def upload_error_response_def error_response_def set_header_def lookup_def)

lemma wire_ok_outcome: "(\<And>x. wire_ok (answer x)) \<Longrightarrow> wire_ok (outcome_response answer r)"
  by (auto simp: outcome_response_def split: sum.splits exn.splits)


lemma outcome_response_201:
  assumes "rs_status (outcome_response upload_answer r) = 201"
  obtains res where "r = Inr res" "ur_status res \<noteq> ''no_change''" "outcome_response upload_answer r = upload_answer res"
proof (cases r)
  case (Inl e)
  have "http_status u \<noteq> 201" for u by (cases u) simp_all
  with assms Inl show ?thesis
    by (cases e) (auto simp: outcome_response_def internal_error_def error_response_def upload_error_response_def
        set_header_def Let_def split: upload_error.splits)
next
  case (Inr res)
  with assms show ?thesis
    by (intro that [of res]) (auto simp: outcome_response_def upload_answer_def)
qed


text \<open>
  C22 (refused requests). A request whose identifiers are invalid or whose body does not pass
  the serializer is answered with 400 and a body that cannot be read with 500; in each case
  nothing but the request's own variables has changed, and no lock was asked for.
\<close>

theorem upload_view_refuses:
  assumes "(\<exists>e. path_identifiers t b = Inl e) \<or> (\<exists>e. data = Inl e) \<or>
    (\<exists>d errors. data = Inr d \<and> upload_is_valid drf d = Inr (Inl errors))"
  shows "\<exists>resp w'. upload_view env drf data t b w = (Inr resp, w') \<and> settled w' = settled w \<and>
    w_clock w' = w_clock w \<and>
    rs_status resp = (if (\<exists>tb. path_identifiers t b = Inr tb) \<and> (\<exists>e. data = Inl e) then 500 else 400)"
proof -
  obtain r w' where run: "upload_view env drf data t b w = (r, w')" by (metis prod.collapse)
  from run have "\<exists>resp. r = Inr resp \<and> settled w' = settled w \<and> w_clock w' = w_clock w \<and>
      rs_status resp = (if (\<exists>tb. path_identifiers t b = Inr tb) \<and> (\<exists>e. data = Inl e) then 500 else 400)"
    by (rule upload_view_cases) (use assms in \<open>auto simp: prelude_done_def invalid_slug_response_def
      internal_error_def invalid_payload_response_def error_response_def\<close>)
  with run show ?thesis by blast
qed

text \<open>
  C23 (no existence leak). Deleting a document that does not exist and deleting one that belongs
  to somebody else change nothing and cannot be told apart: unless the lock is refused, the
  response is the same 404, determined by the identifiers of the request alone.
\<close>

theorem delete_view_hides_others:
  assumes unknown: "find_doc d (w_db w) = None \<or>
      (\<exists>r. find_doc d (w_db w) = Some r \<and> foreign (normalize_slug t) (normalize_slug b) r)"
    and tb: "path_identifiers t b = Inr (t', b')"
  shows "\<exists>resp w'. delete_view env t b d w = (Inr resp, w') \<and> settled w' = settled w \<and>
    (resp = error_response 404 ''document_not_found'' (''Document '' @ d @ '' not found.'')
        [(''tenant_id'', JStr t'), (''bot_id'', JStr b'), (''doc_id'', JStr d)] \<or>
     (\<exists>e. lock_refused env t' b' d e \<and> resp = outcome_response (\<lambda>_::delete_result. deleted_response) (Inl e)))"
proof -
  obtain r w' where run: "delete_view env t b d w = (r, w')" by (metis prod.collapse)
  from run show ?thesis
  proof (cases rule: delete_view_cases)
    case (slug e)
    with tb show ?thesis by simp
  next
    case (run t'' b'' w1)
    have same: "t'' = t'" "b'' = b'" using run(1) tb by simp_all
    note valid = path_identifiers_valid [OF tb]
    have "find_doc d (w_db w1) = None \<or> (\<exists>r. find_doc d (w_db w1) = Some r \<and> foreign t' b' r)"
      using unknown prelude_done_settled [OF run(2)] valid by simp
    from delete_unknown [OF this] obtain e w2 where del: "delete_execute env t' b' d w1 = (Inl e, w2)"
      and "settled w2 = settled w1" and e: "e = not_found_error t' b' d \<or> lock_refused env t' b' d e" by blast
    with run(2) have "settled w' = settled w" using run(5) by (simp add: same prelude_done_def)
    moreover have "outcome_response (\<lambda>_::delete_result. deleted_response) (Inl (not_found_error t' b' d)) =
        error_response 404 ''document_not_found'' (''Document '' @ d @ '' not found.'')
          [(''tenant_id'', JStr t'), (''bot_id'', JStr b'), (''doc_id'', JStr d)]"
      by (simp add: outcome_response_def not_found_error_def upload_error_response_def)
    ultimately show ?thesis using \<open>delete_view env t b d w = (r, w')\<close> run(4) del e by (auto simp: same)
  qed
qed

end
