(* ===== verification/GrpcHandler.thy ===== *)
theory GrpcHandler
  imports Views
begin

text \<open>
  The gRPC service, \<^verbatim>\<open>apps/grpc_service/handler.py\<close>. \<open>context.abort\<close> raises a plain exception
  that no handler of the service's code catches, so an aborted call is the value
  \<open>Inl (code, details)\<close>; an exception that leaves a handler is one that leaves the
  computation. The generated message classes are a parameter: \<open>pb cls fields\<close> is the
  construction of a message of class \<open>cls\<close> from keyword arguments.
\<close>

section \<open>Messages and aborts\<close>

record grpc_filters =
  gf_source_types :: "string list"
  gf_tags :: "string list"
  gf_category :: string
  gf_only_active :: bool

record search_call =
  gs_tenant_id :: string
  gs_bot_id :: string
  gs_query :: string
  gs_top_k :: int
  gs_filters :: grpc_filters

type_synonym fields = "(string \<times> json) list"
type_synonym messages = "string \<Rightarrow> fields \<Rightarrow> exn + fields"

record search_reply =
  sp_head :: fields
  sp_chunks :: "fields list"

type_synonym 'a rpc_outcome = "(grpc_code \<times> string) + 'a"

definition abort :: "grpc_code \<Rightarrow> string \<Rightarrow> ('q, 'a rpc_outcome) action" where
  "abort code text = return_io (Inl (code, text))"

definition code_name :: "grpc_code \<Rightarrow> string" where
  "code_name c = (case c of
     OK \<Rightarrow> ''OK'' | CANCELLED \<Rightarrow> ''CANCELLED'' | UNKNOWN \<Rightarrow> ''UNKNOWN'' | INVALID_ARGUMENT \<Rightarrow> ''INVALID_ARGUMENT''
   | DEADLINE_EXCEEDED \<Rightarrow> ''DEADLINE_EXCEEDED'' | NOT_FOUND \<Rightarrow> ''NOT_FOUND'' | ALREADY_EXISTS \<Rightarrow> ''ALREADY_EXISTS''
   | PERMISSION_DENIED \<Rightarrow> ''PERMISSION_DENIED'' | RESOURCE_EXHAUSTED \<Rightarrow> ''RESOURCE_EXHAUSTED''
   | FAILED_PRECONDITION \<Rightarrow> ''FAILED_PRECONDITION'' | ABORTED \<Rightarrow> ''ABORTED'' | OUT_OF_RANGE \<Rightarrow> ''OUT_OF_RANGE''
   | UNIMPLEMENTED \<Rightarrow> ''UNIMPLEMENTED'' | INTERNAL \<Rightarrow> ''INTERNAL'' | UNAVAILABLE \<Rightarrow> ''UNAVAILABLE''
   | DATA_LOSS \<Rightarrow> ''DATA_LOSS'' | UNAUTHENTICATED \<Rightarrow> ''UNAUTHENTICATED'')"

section \<open>Metrics around a call\<close>

text \<open>
  The status the decorator records. On the normal way out nothing has set the context's code;
  an abort arrives in its \<open>except Exception\<close>.
\<close>

definition recorded_status :: "exn + 'a rpc_outcome \<Rightarrow> grpc_code" where
  "recorded_status outcome = (case outcome of
     Inr (Inr reply) \<Rightarrow> OK
   | Inr (Inl (code, text)) \<Rightarrow> INTERNAL
   | Inl (RpcError cls c m) \<Rightarrow> (case c of Some code \<Rightarrow> code | None \<Rightarrow> UNKNOWN)
   | Inl e \<Rightarrow> INTERNAL)"

definition record_metrics ::
  "'q env \<Rightarrow> string \<Rightarrow> ('q, 'a rpc_outcome) action \<Rightarrow> ('q, 'a rpc_outcome) action" where
  "record_metrics env rpc_name fn =
     bind_io (monotonic env) (\<lambda>started.
     bind_io (attempt_io fn) (\<lambda>outcome.
     bind_io (monotonic env) (\<lambda>now.
     seq_io (record_grpc_request rpc_name (code_name (recorded_status outcome)) (now - started))
     (of_sum outcome))))"

section \<open>Search\<close>

text \<open>\<open>d.get(k, v)\<close>, and \<open>d.get(k) or v\<close>.\<close>

definition get_or :: "fields \<Rightarrow> string \<Rightarrow> json \<Rightarrow> json" where
  "get_or d k v = (case lookup d k of None \<Rightarrow> v | Some x \<Rightarrow> x)"

definition get_truthy_or :: "fields \<Rightarrow> string \<Rightarrow> json \<Rightarrow> json" where
  "get_truthy_or d k v = (let x = get_or d k JNull in if json_truthy x then x else v)"

text \<open>\<open>float(v)\<close>; a text is not parsed here: the score of a search result is always a float.\<close>

definition py_float :: "json \<Rightarrow> exn + rat" where
  "py_float v = (case v of
     JFloat r \<Rightarrow> Inr r | JInt i \<Rightarrow> Inr (of_int i) | JBool b \<Rightarrow> Inr (if b then 1 else 0)
   | JStr s \<Rightarrow> Inl (ValueError (''could not convert string to float: '' @ py_repr s))
   | _ \<Rightarrow> Inl (OtherError ''TypeError'' (''float() argument must be a string or a real number, not '' @
       py_repr (py_type_name v))))"

definition chunk_message :: "messages \<Rightarrow> fields \<Rightarrow> exn + fields" where
  "chunk_message pb chunk_dict =
     and_then (elements (get_truthy_or chunk_dict ''section_path'' (JList []))) (\<lambda>section_path.
     and_then (py_float (get_or chunk_dict ''score'' (JFloat 0))) (\<lambda>score.
     pb ''Chunk''
       [(''chunk_id'', get_or chunk_dict ''chunk_id'' (JStr [])),
        (''doc_id'', get_or chunk_dict ''doc_id'' (JStr [])),
        (''text'', get_or chunk_dict ''text'' (JStr [])),
        (''source_type'', get_or chunk_dict ''source_type'' (JStr [])),
        (''source_filename'', get_truthy_or chunk_dict ''source_filename'' (JStr [])),
        (''source_url'', get_truthy_or chunk_dict ''source_url'' (JStr [])),
        (''section_path'', JList section_path),
        (''page_number'', get_truthy_or chunk_dict ''page_number'' (JInt 0)),
        (''score'', JFloat score)]))"

fun chunk_messages :: "messages \<Rightarrow> fields list \<Rightarrow> exn + fields list" where
  "chunk_messages pb [] = Inr []"
| "chunk_messages pb (c # cs) = and_then (chunk_message pb c) (\<lambda>m.
     and_then (chunk_messages pb cs) (\<lambda>ms. Inr (m # ms)))"

definition search_reply_of :: "messages \<Rightarrow> search_result \<Rightarrow> exn + search_reply" where
  "search_reply_of pb result =
     and_then (pb ''SearchResponse''
       [(''total_candidates'', JInt (int (sr_total_candidates result))),
        (''threshold_used'', JFloat (sr_threshold_used result))]) (\<lambda>head.
     and_then (chunk_messages pb (sr_chunks result)) (\<lambda>chunks.
     Inr \<lparr>sp_head = head, sp_chunks = chunks\<rparr>))"

definition search_abort :: "exn \<Rightarrow> grpc_code \<times> string" where
  "search_abort exc = (case exc of
     Qdrant (CollectionNotFoundError m) \<Rightarrow> (NOT_FOUND, ''Collection does not exist for this tenant/bot.'')
   | Qdrant (QdrantConnectionError m) \<Rightarrow> (UNAVAILABLE, ''Qdrant unavailable: '' @ exn_text exc)
   | Qdrant q \<Rightarrow> (INTERNAL, ''Qdrant error: '' @ exn_text exc)
   | _ \<Rightarrow> (INTERNAL, ''Unexpected error: '' @ exn_text exc))"

definition answer_search :: "messages \<Rightarrow> exn + search_result \<Rightarrow> exn + search_reply rpc_outcome" where
  "answer_search pb outcome = (case outcome of
     Inl exc \<Rightarrow> Inr (Inl (search_abort exc))
   | Inr result \<Rightarrow> and_then (search_reply_of pb result) (\<lambda>reply. Inr (Inr reply)))"

definition effective_top_k :: "int \<Rightarrow> int" where
  "effective_top_k k = (if k \<noteq> 0 then k else DEFAULT_TOP_K)"

definition search_handler ::
  "'q env \<Rightarrow> messages \<Rightarrow> search_call \<Rightarrow> ('q, search_reply rpc_outcome) action" where
  "search_handler env pb req =
     (case path_identifiers (gs_tenant_id req) (gs_bot_id req) of
       Inl e \<Rightarrow> (case e of InvalidIdentifierError m \<Rightarrow> abort INVALID_ARGUMENT m | _ \<Rightarrow> raise_io e)
     | Inr (tenant_id, bot_id) \<Rightarrow>
         let text = py_strip (gs_query req); top_k = effective_top_k (gs_top_k req); f = gs_filters req in
         if text = [] then abort INVALID_ARGUMENT ''Query must be non-empty.''
         else if top_k < 1 \<or> MAX_TOP_K < top_k then abort INVALID_ARGUMENT
           (''top_k must be in [1, '' @ show_int MAX_TOP_K @ ''], got '' @ show_int top_k @ ''.'')
         else if \<not> gf_only_active f then abort INVALID_ARGUMENT ''filters.only_active must be true in v1.''
         else bind_io (attempt_io (search_recorded env tenant_id bot_id text top_k
             (list_or_none (gf_source_types f)) (list_or_none (gf_tags f))
             (if_truthy (Some (gf_category f))))) (\<lambda>outcome.
           of_sum (answer_search pb outcome)))"

definition Search_rpc ::
  "'q env \<Rightarrow> messages \<Rightarrow> search_call \<Rightarrow> ('q, search_reply rpc_outcome) action" where
  "Search_rpc env pb req = record_metrics env ''Search'' (search_handler env pb req)"

section \<open>Properties\<close>

lemma record_metrics_run:
  "record_metrics env rpc fn w = (let w0 = pass_time env 0 w; w1 = snd (fn w0); w2 = pass_time env 0 w1 in
     (fst (fn w0), w2\<lparr>w_metrics := w_metrics w1 @
       [Inc grpc_requests_total [(''rpc'', rpc), (''status_code'', code_name (recorded_status (fst (fn w0))))],
        Observe grpc_request_duration_seconds [(''rpc'', rpc)]
          (seconds (w_clock w2) - seconds (w_clock w0))]\<rparr>))"
  by (simp add: record_metrics_def bind_io_def seq_io_def attempt_io_run record_grpc_request_def Let_def)

text \<open>
  C25 (a defect: rejected calls are counted as internal errors). Whatever code a search is
  aborted with, \<open>INVALID_ARGUMENT\<close>, \<open>NOT_FOUND\<close> or \<open>UNAVAILABLE\<close>, the counter of requests is
  incremented under the label \<open>INTERNAL\<close>, once, after everything the call itself recorded.
\<close>

theorem aborts_count_as_internal:
  assumes "Search_rpc env pb req w = (Inr (Inl (code, text)), w')"
  shows "\<exists>w1 seconds. search_handler env pb req (pass_time env 0 w) = (Inr (Inl (code, text)), w1) \<and>
    w_metrics w' = w_metrics w1 @
      [Inc grpc_requests_total [(''rpc'', ''Search''), (''status_code'', ''INTERNAL'')],
       Observe grpc_request_duration_seconds [(''rpc'', ''Search'')] seconds]"
proof -
  let ?run = "search_handler env pb req (pass_time env 0 w)"
  have w': "w' = snd (Search_rpc env pb req w)" using assms by simp
  have out: "fst ?run = Inr (Inl (code, text))"
    using assms by (simp add: Search_rpc_def record_metrics_run Let_def)
  from out have run: "?run = (Inr (Inl (code, text)), snd ?run)" by (metis prod.collapse)
  have "recorded_status (Inr (Inl (code, text)) :: exn + search_reply rpc_outcome) = INTERNAL"
    by (simp add: recorded_status_def)
  with out have "w_metrics w' = w_metrics (snd ?run) @
      [Inc grpc_requests_total [(''rpc'', ''Search''), (''status_code'', ''INTERNAL'')],
       Observe grpc_request_duration_seconds [(''rpc'', ''Search'')]
         (seconds (w_clock (pass_time env 0 (snd ?run))) - seconds (w_clock (pass_time env 0 w)))]"
    unfolding w' Search_rpc_def record_metrics_run Let_def out by (simp add: code_name_def)
  with run show ?thesis by blast
qed

text \<open>A search reads the model's answer and the vector database, and appends to the metrics.\<close>

lemma search_recorded_run:
  "search_recorded env t b s k st tg c w =
     (let run = search (e_client env) (e_encode env (w_tick w)) t b s k st tg c (w_store w) in
      (fst run, w\<lparr>w_tick := Suc (w_tick w), w_store := snd run,
        w_metrics := w_metrics w @ (case fst run of Inl e \<Rightarrow> []
          | Inr res \<Rightarrow> [Observe search_results_count [] (of_nat (sr_total_candidates res)),
              SetGauge search_threshold_used (sr_threshold_used res)])\<rparr>))"
  by (auto simp: search_recorded_def bind_io_def on_store_def on_part_def record_search_def seq_io_def
      case_prod_beta Let_def split: sum.splits)

text \<open>The gRPC call that asks for what a validated HTTP search asks for.\<close>

definition call_of :: "string \<Rightarrow> string \<Rightarrow> search_body \<Rightarrow> search_call" where
  "call_of t b body = \<lparr>gs_tenant_id = t, gs_bot_id = b, gs_query = sb_query body, gs_top_k = sb_top_k body,
     gs_filters = (case sb_filters body of
       None \<Rightarrow> \<lparr>gf_source_types = [], gf_tags = [], gf_category = [], gf_only_active = True\<rparr>
     | Some f \<Rightarrow> \<lparr>gf_source_types = sf_source_types f, gf_tags = sf_tags f,
         gf_category = or_default [] (get_field (sf_category f)), gf_only_active = True\<rparr>)\<rparr>"

definition rpc_code :: "exn + 'a rpc_outcome \<Rightarrow> grpc_code" where
  "rpc_code outcome = (case outcome of Inl e \<Rightarrow> UNKNOWN | Inr (Inl (code, text)) \<Rightarrow> code | Inr (Inr r) \<Rightarrow> OK)"

lemma search_arguments_call:
  "search_arguments body = (py_strip (gs_query (call_of t b body)), gs_top_k (call_of t b body),
     list_or_none (gf_source_types (gs_filters (call_of t b body))),
     list_or_none (gf_tags (gs_filters (call_of t b body))),
     if_truthy (Some (gf_category (gs_filters (call_of t b body)))))"
proof -
  have "if_truthy (Some (or_default [] c)) = if_truthy c" for c
    by (cases c) (simp_all add: if_truthy_def truthy_def or_default_def)
  moreover have "if_truthy (Some ([] :: string)) = None" by (simp add: if_truthy_def truthy_def)
  ultimately show ?thesis
    by (cases "sb_filters body") (simp_all add: search_arguments_def call_of_def list_or_none_def)
qed

lemma search_handler_call_of:
  assumes "path_identifiers t b = Inr (t', b')" and "search_validate body = Inr (Inr body)"
    and "1 \<le> sb_top_k body" and "sb_top_k body \<le> 20"
  shows "search_handler env pb (call_of t b body) =
    (case search_arguments body of (text, top_k, source_types, tags, category) \<Rightarrow>
      bind_io (attempt_io (search_recorded env t' b' text top_k source_types tags category))
        (\<lambda>outcome. of_sum (answer_search pb outcome)))"
proof -
  have "py_strip (gs_query (call_of t b body)) \<noteq> []"
    using assms(2) by (auto simp: search_validate_def call_of_def split: if_splits)
  moreover have "gf_only_active (gs_filters (call_of t b body))"
    by (simp add: call_of_def split: option.split)
  moreover have "effective_top_k (gs_top_k (call_of t b body)) = gs_top_k (call_of t b body)"
    "\<not> gs_top_k (call_of t b body) < 1" "\<not> 20 < gs_top_k (call_of t b body)"
    using assms(3,4) by (simp_all add: effective_top_k_def call_of_def)
  moreover have "gs_tenant_id (call_of t b body) = t" "gs_bot_id (call_of t b body) = b"
    by (simp_all add: call_of_def)
  ultimately show ?thesis
    using assms(1) by (simp add: search_handler_def search_arguments_call [of body t b] MAX_TOP_K_def Let_def)
qed

definition http_answer :: "exn + search_result \<Rightarrow> response" where
  "http_answer outcome = (case outcome of Inl exc \<Rightarrow> search_error_response exc | Inr res \<Rightarrow> search_answer res)"

lemma search_view_run:
  assumes tb: "path_identifiers t b = Inr (t', b')" and "search_is_valid drf d = Inr (Inr body)"
    and args: "search_arguments body = (text, top_k, source_types, tags, category)"
  shows "search_view env drf (Inr d) t b w = (let run = search_recorded env t' b' text top_k source_types tags category
      (snd (set_request_context (Some t') (Some b') None w)) in (Inr (http_answer (fst run)), snd run))"
  by (auto simp: search_view_def unhandled_def try_io_def with_identifiers_def seq_io_def bind_io_def assms
      http_answer_def Let_def case_prod_beta split: sum.splits)

lemma search_is_valid_body:
  assumes "search_is_valid drf d = Inr (Inr body)"
  shows "search_validate body = Inr (Inr body)"
  using assms by (auto simp: search_is_valid_def run_serializer_valid search_validate_def split: if_splits)

definition same_outcome :: "(int \<times> grpc_code) list" where
  "same_outcome = [(200, OK), (200, UNKNOWN), (404, NOT_FOUND), (503, UNAVAILABLE), (500, INTERNAL)]"

lemma answers_agree:
  "(rs_status (http_answer outcome), rpc_code (answer_search pb outcome)) \<in> set same_outcome"
  by (cases outcome)
    (auto simp: http_answer_def answer_search_def search_error_response_def search_abort_def rpc_code_def
      same_outcome_def error_response_def internal_error_def search_answer_def and_then_def
      split: sum.splits exn.splits qdrant_error.splits)

text \<open>
  C20 (two transports, one search). A validated HTTP search and the gRPC call that asks for the
  same thing run the same query: they leave the vector database and the recorded values the
  same, their statuses correspond (200 and \<open>OK\<close>, 404 and \<open>NOT_FOUND\<close>, 503 and \<open>UNAVAILABLE\<close>, 500
  and \<open>INTERNAL\<close>; only a message that cannot be built makes a 200 an \<open>UNKNOWN\<close>), and a reply is
  built from the very result the HTTP response shows.
\<close>

theorem search_transports_agree:
  assumes tb: "path_identifiers t b = Inr (t', b')" and valid: "search_is_valid drf d = Inr (Inr body)"
    and top_k: "1 \<le> sb_top_k body" "sb_top_k body \<le> 20"
  shows "\<exists>resp w1 outcome w2. search_view env drf (Inr d) t b w = (Inr resp, w1) \<and>
    search_handler env pb (call_of t b body) w = (outcome, w2) \<and>
    w_store w2 = w_store w1 \<and> w_metrics w2 = w_metrics w1 \<and>
    (rs_status resp, rpc_code outcome) \<in> set same_outcome \<and>
    (\<forall>reply. outcome = Inr (Inr reply) \<longrightarrow> (\<exists>res. resp = search_answer res \<and> search_reply_of pb res = Inr reply))"
proof -
  obtain s k st tg c where args: "search_arguments body = (s, k, st, tg, c)" by (metis prod_cases5)
  let ?run = "\<lambda>w. search_recorded env t' b' s k st tg c w"
  let ?w1 = "snd (set_request_context (Some t') (Some b') None w)"
  have same: "fst (?run ?w1) = fst (?run w)" "w_store (snd (?run ?w1)) = w_store (snd (?run w))"
    "w_metrics (snd (?run ?w1)) = w_metrics (snd (?run w))"
    by (simp_all add: search_recorded_run Let_def)
  have http: "search_view env drf (Inr d) t b w = (Inr (http_answer (fst (?run w))), snd (?run ?w1))"
    by (simp only: search_view_run [OF tb valid args] Let_def same)
  have grpc: "search_handler env pb (call_of t b body) w = (answer_search pb (fst (?run w)), snd (?run w))"
    by (simp add: search_handler_call_of [OF tb search_is_valid_body [OF valid] top_k] args bind_io_def attempt_io_run)
  have "\<exists>res. http_answer (fst (?run w)) = search_answer res \<and> search_reply_of pb res = Inr reply"
    if "answer_search pb (fst (?run w)) = Inr (Inr reply)" for reply
    using that by (auto simp: answer_search_def http_answer_def and_then_Inr_iff split: sum.splits)
  then show ?thesis using http grpc same answers_agree [of "fst (?run w)" pb] by auto
qed

end
