(* ===== verification/Health.thy ===== *)
theory Health
  imports GrpcHandler
begin

text \<open>
  Readiness: the warmup of the embedder (\<^verbatim>\<open>apps/ingestion/_warmup.py\<close>) and when it is wanted
  (\<^verbatim>\<open>apps/ingestion/apps.py\<close>), the probe \<open>/healthz\<close> (\<^verbatim>\<open>apps/core/views.py\<close>) and the gRPC
  \<open>HealthCheck\<close>. The two flags of the warmup module are the state of a process; its threads
  are steps of it.
\<close>

section \<open>Warmup\<close>

text \<open>\<open>wu_threads\<close> are the warmup threads started, \<open>wu_finished\<close> those that have ended.\<close>

record warmup =
  wu_embedder_loaded :: bool
  wu_warmup_started :: bool
  wu_threads :: nat
  wu_finished :: nat

definition fresh_process :: warmup where
  "fresh_process = \<lparr>wu_embedder_loaded = False, wu_warmup_started = False, wu_threads = 0, wu_finished = 0\<rparr>"

definition is_embedder_loaded :: "warmup \<Rightarrow> bool" where
  "is_embedder_loaded s = wu_embedder_loaded s"

text \<open>The body of the thread, given what the model answers.\<close>

definition do_warmup :: "(string list \<Rightarrow> exn + embeddings) \<Rightarrow> warmup \<Rightarrow> warmup" where
  "do_warmup encode s = (case embed_query encode ''warmup'' of
     Inr q \<Rightarrow> s\<lparr>wu_embedder_loaded := True, wu_finished := Suc (wu_finished s)\<rparr>
   | Inl exc \<Rightarrow> s\<lparr>wu_finished := Suc (wu_finished s)\<rparr>)"

definition start_warmup_in_background :: "warmup \<Rightarrow> warmup" where
  "start_warmup_in_background s = (if wu_warmup_started s then s
     else s\<lparr>wu_warmup_started := True, wu_threads := Suc (wu_threads s)\<rparr>)"

text \<open>
  A process calls \<open>start_warmup_in_background\<close> any number of times; a started thread runs once,
  at any later time, against a model that may answer or fail.
\<close>

inductive warmup_step :: "warmup \<Rightarrow> warmup \<Rightarrow> bool" where
  start: "warmup_step s (start_warmup_in_background s)"
| thread: "wu_finished s < wu_threads s \<Longrightarrow> warmup_step s (do_warmup encode s)"

inductive warmup_reachable :: "warmup \<Rightarrow> bool" where
  init: "warmup_reachable fresh_process"
| step: "warmup_reachable s \<Longrightarrow> warmup_step s s' \<Longrightarrow> warmup_reachable s'"

inductive_cases warmup_stepE: "warmup_step s s'"

section \<open>When to warm up\<close>

definition env_flag :: "string option \<Rightarrow> bool" where
  "env_flag val = (py_lower (py_strip (or_default [] val)) \<in> {''1'', ''true'', ''yes'', ''on''})"

definition should_warm_embedder :: "string option \<Rightarrow> string list \<Rightarrow> bool" where
  "should_warm_embedder skip_warmup argv =
     (if env_flag skip_warmup then False
      else let argv0 = py_lower (case argv of [] \<Rightarrow> [] | a # _ \<Rightarrow> a) in
        if py_contains argv0 ''pytest'' \<or> py_endswith argv0 ''/pytest'' then False
        else if py_endswith argv0 ''/celery'' \<or> py_endswith argv0 ''celery'' then False
        else if py_endswith argv0 ''manage.py'' \<and> 1 < length argv \<and> argv ! 1 \<noteq> ''runserver'' then False
        else True)"

definition app_ready :: "string option \<Rightarrow> string list \<Rightarrow> warmup \<Rightarrow> warmup" where
  "app_ready skip_warmup argv s =
     (if \<not> should_warm_embedder skip_warmup argv then s else start_warmup_in_background s)"

section \<open>Probes\<close>

text \<open>How a probe submitted to the executor ends; a \<open>TimeoutError\<close> of its own counts as a timeout.\<close>

datatype probe = Answered | TimedOut | Failed exn

definition timed_out :: "probe \<Rightarrow> bool" where
  "timed_out p = (case p of TimedOut \<Rightarrow> True | Failed e \<Rightarrow> exn_class e = ''TimeoutError'' | Answered \<Rightarrow> False)"

definition ping_postgres :: "probe \<Rightarrow> string" where
  "ping_postgres p = (if timed_out p then ''error: timeout after 2s''
     else case p of
       Failed e \<Rightarrow> ''error: '' @ exn_class e @ '': '' @ take 120 (exn_text e)
     | _ \<Rightarrow> ''ok'')"

definition classify_qdrant_error :: "exn \<Rightarrow> string" where
  "classify_qdrant_error exc = (let msg = py_lower (exn_text exc) in
     if py_contains msg ''401'' \<or> py_contains msg ''unauthorized'' \<or> py_contains msg ''authentication''
     then ''error: unauthorized -- check QDRANT_API_KEY''
     else if py_contains msg ''unauthenticated'' then ''error: unauthorized -- check QDRANT_API_KEY''
     else ''error: unreachable -- '' @ exn_class exc)"

definition ping_qdrant :: "probe \<Rightarrow> string" where
  "ping_qdrant p = (if timed_out p then ''error: timeout after 2s''
     else case p of Failed e \<Rightarrow> classify_qdrant_error e | _ \<Rightarrow> ''ok'')"

definition VERSION :: string where "VERSION = ''0.1.0-dev''"

definition healthz :: "probe \<Rightarrow> probe \<Rightarrow> warmup \<Rightarrow> response" where
  "healthz postgres qdrant s =
     (let pg = ping_postgres postgres; qd = ping_qdrant qdrant; embedder_ready = is_embedder_loaded s;
          em = (if embedder_ready then ''ok'' else ''warming'');
          all_ok = (pg = ''ok'' \<and> qd = ''ok'' \<and> embedder_ready)
      in \<lparr>rs_status = (if all_ok then 200 else 503), rs_headers = [],
          rs_body = Some (JObj
            [(''status'', JStr (if all_ok then ''ok''
                else if pg = ''ok'' \<and> qd = ''ok'' then ''warming'' else ''degraded'')),
             (''version'', JStr VERSION),
             (''components'', JObj [(''postgres'', JStr pg), (''qdrant'', JStr qd), (''embedder'', JStr em)]),
             (''embedder_loaded'', JBool embedder_ready)])\<rparr>)"

definition health_check_handler ::
  "'q env \<Rightarrow> messages \<Rightarrow> warmup \<Rightarrow> ('q, fields rpc_outcome) action" where
  "health_check_handler env pb s =
     bind_io (attempt_io (on_store (get_collections (e_client env)))) (\<lambda>r.
     bind_io (of_sum (pb ''HealthCheckResponse''
       [(''qdrant_ok'', JBool (case r of Inr u \<Rightarrow> True | Inl e \<Rightarrow> False)),
        (''embedder_loaded'', JBool (is_embedder_loaded s)), (''version'', JStr VERSION)]))
     (\<lambda>reply. return_io (Inr reply)))"

definition HealthCheck_rpc :: "'q env \<Rightarrow> messages \<Rightarrow> warmup \<Rightarrow> ('q, fields rpc_outcome) action" where
  "HealthCheck_rpc env pb s = record_metrics env ''HealthCheck'' (health_check_handler env pb s)"

section \<open>Properties\<close>

lemma ping_ok [simp]: "ping_postgres p = ''ok'' \<longleftrightarrow> p = Answered" "ping_qdrant p = ''ok'' \<longleftrightarrow> p = Answered"
  by (cases p; simp add: ping_postgres_def ping_qdrant_def timed_out_def classify_qdrant_error_def Let_def)+

definition warmup_inv :: "warmup \<Rightarrow> bool" where
  "warmup_inv s \<longleftrightarrow> wu_finished s \<le> wu_threads s \<and> wu_threads s = (if wu_warmup_started s then 1 else 0) \<and>
     (wu_embedder_loaded s \<longrightarrow> wu_finished s = 1)"

lemma warmup_inv_step: "warmup_step s s' \<Longrightarrow> warmup_inv s \<Longrightarrow> warmup_inv s'"
  by (elim warmup_stepE)
    (auto simp: warmup_inv_def start_warmup_in_background_def do_warmup_def split: sum.splits if_splits)

lemma warmup_inv_reachable: "warmup_reachable s \<Longrightarrow> warmup_inv s"
proof (induction rule: warmup_reachable.induct)
  case init
  show ?case by (simp add: warmup_inv_def fresh_process_def)
next
  case (step s s')
  from step.hyps(2) step.IH show ?case by (rule warmup_inv_step)
qed



end
