(* ===== verification/HttpScenarios.thy ===== *)
theory HttpScenarios
  imports Scenarios Health
begin

text \<open>
  Concrete requests through the views, the middlewares and the gRPC service, over the world of
  \<open>Scenarios\<close>: the framework passes every object as the same validated body, and the message
  classes take any fields. The witnesses of the transport properties run on them.
\<close>

definition demo_drf :: drf where
  "demo_drf = \<lparr>d_upload_fields = (\<lambda>_ _. Inr (demo_body ''h1'' [''hello''])),
     d_search_fields = (\<lambda>_ _. Inr \<lparr>sb_query = ''hello'', sb_top_k = 5, sb_filters = None\<rparr>),
     d_error_details = (\<lambda>d. d)\<rparr>"

definition demo_request :: request where
  "demo_request = \<lparr>rq_method = ''POST'', rq_path = ''/v1/tenants/acme/bots/bot1/documents'',
     rq_request_id = Some '' abc '', rq_url_name = Some (Some ''upload-document'')\<rparr>"

definition demo_json :: json where
  "demo_json = JObj [(''items'', JList [JObj [(''content'', JStr ''hello'')]])]"

definition demo_pb :: messages where
  "demo_pb cls kw = Inr kw"

definition demo_post :: "mem world \<Rightarrow> (exn + response) \<times> mem world" where
  "demo_post = upload_view demo_env demo_drf (Inr demo_json) ''acme'' ''bot1''"

lemma demo_post_created: "returned (demo_post demo_world) (\<lambda>resp w. rs_status resp = 201)"
  by code_simp

theorem upload_is_valid_iff_witness:
  "upload_is_valid demo_drf demo_json = Inr (Inr (demo_body ''h1'' [''hello'']))"
proof -
  have raws: "raw_items demo_json = Inr [JObj [(''content'', JStr ''hello'')]]" by code_simp
  have "bd_items (demo_body ''h1'' [''hello'']) \<noteq> []" by (simp add: demo_body_def)
  with raws show ?thesis
    by (subst upload_is_valid_iff) (simp add: demo_json_def demo_drf_def keys_def)
qed


theorem upload_view_refuses_witness:
  "\<exists>resp w'. upload_view demo_env demo_drf (Inl (OtherError ''ParseError'' ''JSON parse error'')) ''acme'' ''bot1'' demo_world =
       (Inr resp, w') \<and> rs_status resp = 500"
proof -
  have "\<exists>tb. path_identifiers ''acme'' ''bot1'' = Inr tb"
    by (rule exI [of _ "(''acme'', ''bot1'')"]) code_simp
  then show ?thesis
    using upload_view_refuses [of "''acme''" "''bot1''" "Inl (OtherError ''ParseError'' ''JSON parse error'')"
        demo_drf demo_env demo_world] by auto
qed

theorem delete_view_hides_others_witness:
  "\<exists>resp w'. delete_view demo_env ''acme'' ''bot2'' ''d1'' uploaded = (Inr resp, w') \<and> settled w' = settled uploaded"
proof -
  have "(case find_doc ''d1'' (w_db uploaded) of None \<Rightarrow> False
      | Some r \<Rightarrow> foreign (normalize_slug ''acme'') (normalize_slug ''bot2'') r)" by code_simp
  then have unknown: "find_doc ''d1'' (w_db uploaded) = None \<or> (\<exists>r. find_doc ''d1'' (w_db uploaded) = Some r \<and>
      foreign (normalize_slug ''acme'') (normalize_slug ''bot2'') r)"
    by (cases "find_doc ''d1'' (w_db uploaded)") auto
  have "path_identifiers ''acme'' ''bot2'' = Inr (''acme'', ''bot2'')" by code_simp
  from delete_view_hides_others [OF unknown this, of demo_env] show ?thesis by blast
qed

definition demo_call :: "string \<Rightarrow> search_call" where
  "demo_call s = \<lparr>gs_tenant_id = ''acme'', gs_bot_id = ''bot1'', gs_query = s, gs_top_k = 0,
     gs_filters = \<lparr>gf_source_types = [], gf_tags = [], gf_category = [], gf_only_active = True\<rparr>\<rparr>"

theorem aborts_count_as_internal_witness:
  "\<exists>w' dur. Search_rpc demo_env demo_pb (demo_call '' '') demo_world =
       (Inr (Inl (INVALID_ARGUMENT, ''Query must be non-empty.'')), w') \<and>
     Inc grpc_requests_total [(''rpc'', ''Search''), (''status_code'', ''INTERNAL'')] \<in> set (w_metrics w')"
proof -
  have "returned (Search_rpc demo_env demo_pb (demo_call '' '') demo_world)
      (\<lambda>r w. r = Inl (INVALID_ARGUMENT, ''Query must be non-empty.''))" by code_simp
  then obtain w' where run: "Search_rpc demo_env demo_pb (demo_call '' '') demo_world =
      (Inr (Inl (INVALID_ARGUMENT, ''Query must be non-empty.'')), w')" by (rule returnedE) simp
  from aborts_count_as_internal [OF run] run show ?thesis by auto
qed

theorem search_transports_agree_witness:
  "\<exists>resp w1. search_view demo_env demo_drf (Inr demo_json) ''acme'' ''bot1'' uploaded = (Inr resp, w1) \<and>
     rs_status resp \<in> {200, 404, 500, 503}"
proof -
  let ?body = "\<lparr>sb_query = ''hello'', sb_top_k = 5, sb_filters = None\<rparr>"
  have "path_identifiers ''acme'' ''bot1'' = Inr (''acme'', ''bot1'')" by code_simp
  moreover have "search_is_valid demo_drf demo_json = Inr (Inr ?body)" by code_simp
  ultimately have "\<exists>resp w1 code. search_view demo_env demo_drf (Inr demo_json) ''acme'' ''bot1'' uploaded = (Inr resp, w1) \<and>
      (rs_status resp, code) \<in> set same_outcome"
    using search_transports_agree [of "''acme''" "''bot1''" "''acme''" "''bot1''" demo_drf demo_json ?body demo_env uploaded demo_pb]
    by auto
  then show ?thesis by (auto simp: same_outcome_def)
qed

theorem request_observed_witness:
  "\<exists>r w' entry. observed demo_env (\<lambda>rq. upload_view demo_env demo_drf (Inl (OtherError ''ParseError'' [])) ''A'' ''B'')
       demo_request demo_world = (r, w') \<and> w_access_log w' = [entry] \<and> ae_status_code entry = status_of r"
proof -
  let ?g = "\<lambda>rq. upload_view demo_env demo_drf (Inl (OtherError ''ParseError'' [])) ''A'' ''B'' :: (mem, response) action"
  have "frame w_access_log (?g demo_request)"
  proof (rule frameI)
    fix w r w' assume "?g demo_request w = (r, w')"
    then show "w_access_log w' = w_access_log w"
      by (rule upload_view_cases) (auto simp: prelude_done_def)
  qed
  moreover have "\<not> excluded REQUESTID_EXCLUDED_PATHS demo_request" "\<not> excluded ACCESSLOG_EXCLUDED_PATHS demo_request"
    by code_simp+
  ultimately have "\<exists>r w' entry. observed demo_env ?g demo_request demo_world = (r, w') \<and>
      w_access_log w' = w_access_log demo_world @ [entry] \<and> ae_status_code entry = status_of r"
    using request_observed [of demo_request ?g demo_env demo_world] by blast
  then show ?thesis by (simp add: demo_world_def)
qed

end
