(* ===== verification/Defects.thy ===== *)
theory Defects
  imports HttpScenarios
begin

text \<open>
  Runs of the code that end where its documentation says they cannot, each from the empty
  service over the in-memory database of \<open>MemoryStore\<close>. They are found by evaluation; nothing
  but the requests and, in the first, one lost connection is chosen.
\<close>

section \<open>A replacement that fails half-way\<close>

text \<open>The connection is lost at the sixth call, the upsert after the delete of the old chunks.\<close>

definition lost_upsert :: "mem world \<Rightarrow> mem world" where
  "lost_upsert = with_faults (replicate 5 None @ [Some (Lost UNAVAILABLE)])"


section \<open>A content hash the column cannot hold\<close>


section \<open>Two tenants, one collection\<close>

definition neighbour_upload :: "mem world" where
  "neighbour_upload = snd (upload_execute demo_env ''acme'' ''x__b_bot'' ''d1'' (demo_body ''h1'' [''secret'']) demo_world)"


end
