(* ===== verification/Races.thy ===== *)
theory Races
  imports DocumentStore Defects
begin

text \<open>
  Schedules of two overlapping requests over the in-memory database: the witnesses of the
  properties of \<open>Concurrency\<close>, and two races the lock does not prevent, because it is taken per
  tenant, bot and document while the checks it protects look at more. A section that is not
  interrupted is evaluated as the computation it refines (\<open>section_runs\<close>).
\<close>

section \<open>Uninterrupted sections\<close>

text \<open>The system after worker \<open>i\<close> alone has moved to a phase, leaving a world.\<close>

definition resumed :: "nat \<Rightarrow> 'q phase \<Rightarrow> 'q world \<Rightarrow> 'q system \<Rightarrow> 'q system" where
  "resumed i ph w s = s\<lparr>sy_world := w, sy_phase := (sy_phase s)(i := ph),
     sy_local := (sy_local s)(i := (w_context w, w_phases w))\<rparr>"

lemma resumed_simps [simp]:
  "sy_world (resumed i ph w s) = w" "sy_phase (resumed i ph w s) = (sy_phase s)(i := ph)"
  "sy_local (resumed i ph w s) = (sy_local s)(i := (w_context w, w_phases w))"
  "resumed i ph w (resumed i ph' w' s) = resumed i ph w s"
  "seen_by i (resumed i ph w s) = w"
  by (simp_all add: resumed_def seen_by_def)

lemma run_step_resumed: "run_step i f g s = resumed i (Inside (g (seen_by i s))) (f (seen_by i s)) s"
  by (simp add: run_step_def resumed_def Let_def)

lemma reachable_turns:
  assumes "reachable env jobs w s" and "i < length jobs"
  shows "reachable env jobs w ((fire env jobs i ^^ n) s)"
  using assms by (induction n) (auto intro: reachable.step sys_step.turn)

lemma section_ends:
  assumes "sy_phase s i = Inside th" and "sy_world s = seen_by i s" and "run_thread th (seen_by i s) = (r, w')"
  shows "\<exists>n. (fire env jobs i ^^ n) s = resumed i (Left r) w' s"
  using assms
proof (induction th arbitrary: s)
  case (Halt r0)
  have "w_context (sy_world s) = fst (sy_local s i)" "w_phases (sy_world s) = snd (sy_local s i)"
    using arg_cong [OF Halt.prems(2), of w_context] arg_cong [OF Halt.prems(2), of w_phases]
    by (simp_all add: seen_by_def)
  then have local: "(sy_local s)(i := (w_context (sy_world s), w_phases (sy_world s))) = sy_local s" by simp
  have "r0 = r" "w' = seen_by i s" using Halt.prems(3) by (simp_all add: run_thread.simps)
  then have "r0 = r" "w' = sy_world s" by (simp_all only: Halt.prems(2))
  then have "fire env jobs i s = resumed i (Left r) w' s"
    using Halt.prems(1) by (simp add: fire_def enter_phase_def resumed_def local)
  then show ?case by (intro exI [of _ 1]) simp
next
  case (Step f g)
  let ?s = "resumed i (Inside (g (seen_by i s))) (f (seen_by i s)) s"
  have "\<exists>n. (fire env jobs i ^^ n) ?s = resumed i (Left r) w' ?s"
    using Step.prems(3) by (intro Step.IH [OF rangeI]) (simp_all add: run_thread.simps)
  moreover have "fire env jobs i s = ?s" using Step.prems(1) by (simp add: fire_def run_step_resumed)
  ultimately obtain n where "(fire env jobs i ^^ n) (fire env jobs i s) = resumed i (Left r) w' s" by auto
  then have "(fire env jobs i ^^ Suc n) s = resumed i (Left r) w' s" by (simp add: funpow_Suc_right del: funpow.simps)
  then show ?case ..
qed

text \<open>One step of a section, and the rest of it.\<close>

lemma section_goes_on:
  assumes reach: "reachable env jobs w s" and i: "i < length jobs" and ph: "sy_phase s i = Inside (atomically m k)"
    and run: "m (seen_by i s) = (Inr x, w')"
  shows "reachable env jobs w (resumed i (Inside (k x)) w' s)"
proof -
  have "fire env jobs i s = resumed i (Inside (k x)) w' s"
    using ph run by (simp add: fire_def atomically_def run_step_resumed)
  with reach i show ?thesis by (metis reachable.step sys_step.turn)
qed

lemma section_goes_further:
  assumes "reachable env jobs w (resumed i (Inside (atomically m k)) w1 s)" and "i < length jobs"
    and "m w1 = (Inr x, w')"
  shows "reachable env jobs w (resumed i (Inside (k x)) w' s)"
  using section_goes_on [OF assms(1,2), of m k x w'] assms(3) by simp

lemma section_runs:
  assumes reach: "reachable env jobs w s" and i: "i < length jobs" and ph: "sy_phase s i = Inside th" "th = atomically m k"
    and run: "run_thread th (seen_by i s) = (r, w')"
  shows "reachable env jobs w (resumed i (Left r) w' s)"
proof -
  from ph obtain f g where th: "th = Step f g" by (simp add: atomically_def)
  let ?s = "resumed i (Inside (g (seen_by i s))) (f (seen_by i s)) s"
  have "fire env jobs i s = ?s" using ph(1) th by (simp add: fire_def run_step_resumed)
  with reach i have now: "reachable env jobs w ?s" by (metis reachable.step sys_step.turn)
  have "\<exists>n. (fire env jobs i ^^ n) ?s = resumed i (Left r) w' ?s"
    using run th by (intro section_ends) (simp_all add: run_thread.simps)
  with reachable_turns [OF now i] show ?thesis by (metis resumed_simps(4))
qed

lemma worker_enters:
  assumes reach: "reachable env jobs w s" and i: "i < length jobs" and ph: "sy_phase s i = Waiting"
    and key: "job_key env (jobs ! i) = Inr key" and free: "\<forall>j < length jobs. j \<noteq> i \<longrightarrow> \<not> holds_key env jobs s j key"
  shows "reachable env jobs w (enter_phase i (Inside (job_thread env (jobs ! i))) s)"
proof -
  have "\<not> list_ex (\<lambda>j. j \<noteq> i \<and> holds_key env jobs s j key) [0..<length jobs]"
    using free by (auto simp: list_ex_iff)
  then have "fire env jobs i s = enter_phase i (Inside (job_thread env (jobs ! i))) s"
    using ph key by (simp add: fire_def)
  with reach i show ?thesis by (metis reachable.step sys_step.turn)
qed

lemma map_atomically: "map_thread h (atomically m k) = atomically m (\<lambda>x. map_thread h (k x))"
  by (auto simp: atomically_def fun_eq_iff split: sum.split)

lemma run_map_thread: "run_thread (map_thread h th) w = (map_sum id h (fst (run_thread th w)), snd (run_thread th w))"
  by (induction th arbitrary: w) (simp_all add: run_thread.simps)

section \<open>Two uploads\<close>

text \<open>What an upload does before it decides to write: the first four statements of its section.\<close>

definition upload_checks ::
  "'q env \<Rightarrow> string \<Rightarrow> string \<Rightarrow> string \<Rightarrow> upload_body \<Rightarrow> ('q, bot_row \<times> doc_row option \<times> doc_row option) action" where
  "upload_checks env t b d body =
     bind_io (tenant_of env t) (\<lambda>tenant.
     bind_io (bot_of env tenant b) (\<lambda>bot_ref.
     bind_io (gets_io (\<lambda>w. find_doc d (w_db w))) (\<lambda>existing.
     bind_io (gets_io (\<lambda>w. content_match t b (incoming_hash (e_sha256 env) body) d (w_db w))) (\<lambda>match.
     return_io (bot_ref, existing, match)))))"

lemma upload_pauses:
  assumes reach: "reachable env jobs w s" and i: "i < length jobs"
    and ph: "sy_phase s i = Inside (map_thread h (upload_thread env t b d body))"
    and run: "upload_checks env t b d body (seen_by i s) = (Inr (bot_ref, None, None), w')"
  shows "reachable env jobs w (resumed i (Inside (map_thread h
     (fresh_thread env t b d body bot_ref (incoming_hash (e_sha256 env) body) False))) w' s)"
proof -
  from run obtain tenant w1 where 1: "tenant_of env t (seen_by i s) = (Inr tenant, w1)"
    and 2: "bot_of env tenant b w1 = (Inr bot_ref, w')" and 3: "find_doc d (w_db w') = None"
    and 4: "content_match t b (incoming_hash (e_sha256 env) body) d (w_db w') = None"
    by (auto simp: upload_checks_def bind_io_def gets_io_def return_io_def split: prod.splits sum.splits)
  note ph = ph [unfolded upload_thread_def map_atomically]
  note s1 = section_goes_on [OF reach i ph 1]
  note s2 = section_goes_further [OF s1 i 2]
  from 3 have 3: "gets_io (\<lambda>w. find_doc d (w_db w)) w' = (Inr None, w')" by (simp add: gets_io_def)
  note s3 = section_goes_further [OF s2 i 3]
  then have s3: "reachable env jobs w (resumed i (Inside (atomically
     (gets_io (\<lambda>w. content_match t b (incoming_hash (e_sha256 env) body) d (w_db w)))
     (\<lambda>match. map_thread h (case match of Some r \<Rightarrow> no_change_thread env t b r
       | None \<Rightarrow> fresh_thread env t b d body bot_ref (incoming_hash (e_sha256 env) body) False)))) w' s)"
    by (simp add: deduplicated_thread_def map_atomically Let_def cong: option.case_cong)
  from 4 have 4: "gets_io (\<lambda>w. content_match t b (incoming_hash (e_sha256 env) body) d (w_db w)) w' = (Inr None, w')"
    by (simp add: gets_io_def)
  from section_goes_further [OF s3 i 4] show ?thesis by simp
qed

text \<open>A world with the variables of the worker who goes on in it.\<close>

definition taken_over :: "'q world \<Rightarrow> 'q world \<Rightarrow> 'q world" where
  "taken_over v w = w\<lparr>w_context := w_context v, w_phases := w_phases v\<rparr>"

definition upload_job :: "string \<Rightarrow> string \<Rightarrow> string \<Rightarrow> upload_body \<Rightarrow> job" where
  "upload_job t b d body = \<lparr>jb_tenant = t, jb_bot = b, jb_doc = d, jb_work = UploadWork body\<rparr>"

definition race ::
  "'q env \<Rightarrow> string \<Rightarrow> string \<Rightarrow> string \<Rightarrow> upload_body \<Rightarrow> string \<Rightarrow> string \<Rightarrow> string \<Rightarrow> upload_body \<Rightarrow>
     ('q, upload_result \<times> upload_result) action" where
  "race env t b d body t' b' d' body' = (\<lambda>w.
     bind_io (upload_checks env t b d body) (\<lambda>(bot_ref, existing, match) w1.
       if existing \<noteq> None \<or> match \<noteq> None then (Inl (OtherError [] []), w1)
       else bind_io (upload_locked env t' b' d' body') (\<lambda>res' w2.
         bind_io (upload_fresh env t b d body bot_ref (incoming_hash (e_sha256 env) body) False)
           (\<lambda>res. return_io (res, res')) (taken_over w1 w2)) (taken_over w w1)) w)"

text \<open>The first worker gets through its checks, the second does all its work, the first goes on.\<close>

lemma race_reachable:
  assumes keys: "advisory_lock_key (e_sha256 env) t b d = Inr key" "advisory_lock_key (e_sha256 env) t' b' d' = Inr key'"
      "key \<noteq> key'"
    and run: "race env t b d body t' b' d' body' w = (Inr (res, res'), w3)"
  shows "\<exists>s. reachable env [upload_job t b d body, upload_job t' b' d' body'] w s \<and>
     sy_phase s 0 = Left (Inr (Uploaded res)) \<and> sy_phase s 1 = Left (Inr (Uploaded res')) \<and> sy_world s = w3"
proof -
  let ?jobs = "[upload_job t b d body, upload_job t' b' d' body']"
  let ?hash = "incoming_hash (e_sha256 env) body"
  from run obtain bot_ref w1 w2 where 1: "upload_checks env t b d body w = (Inr (bot_ref, None, None), w1)"
    and 2: "upload_locked env t' b' d' body' (taken_over w w1) = (Inr res', w2)"
    and 3: "upload_fresh env t b d body bot_ref ?hash False (taken_over w1 w2) = (Inr res, w3)"
    by (auto simp: race_def bind_io_def return_io_def split: prod.splits sum.splits if_splits)
  have own: "seen_by i (start_system w) = w" for i by (simp add: seen_by_def start_system_def)
  have key: "job_key env (?jobs ! 0) = Inr key" "job_key env (?jobs ! 1) = Inr key'"
    using keys by (simp_all add: job_key_def upload_job_def)
  let ?s0 = "enter_phase 0 (Inside (job_thread env (?jobs ! 0))) (start_system w)"
  have s0: "reachable env ?jobs w ?s0"
    by (rule worker_enters [OF reachable.init _ _ key(1)])
      (auto simp: holds_key_def start_system_def)
  let ?th = "map_thread Uploaded (fresh_thread env t b d body bot_ref ?hash False)"
  let ?s1 = "resumed 0 (Inside ?th) w1 ?s0"
  have s1: "reachable env ?jobs w ?s1"
    by (rule upload_pauses [OF s0]) (simp_all add: job_thread_def upload_job_def 1 own [unfolded seen_by_def] seen_by_def start_system_def enter_phase_def)
  let ?s2 = "enter_phase 1 (Inside (job_thread env (?jobs ! 1))) ?s1"
  have s2: "reachable env ?jobs w ?s2"
    by (rule worker_enters [OF s1 _ _ key(2)])
      (use keys(3) key(1) in \<open>auto simp: holds_key_def start_system_def less_Suc_eq\<close>)
  have 2: "run_thread (map_thread Uploaded (upload_thread env t' b' d' body')) (seen_by 1 ?s2) = (Inr (Uploaded res'), w2)"
    using 2 by (simp add: run_map_thread run_upload_thread seen_by_def enter_phase_def start_system_def resumed_def taken_over_def)
  have s3: "reachable env ?jobs w (resumed 1 (Left (Inr (Uploaded res'))) w2 ?s2)"
    by (rule section_runs [OF s2 _ _ _ 2])
      (simp_all add: job_thread_def upload_job_def upload_thread_def map_atomically)
  let ?s3 = "resumed 1 (Left (Inr (Uploaded res'))) w2 ?s2"
  have 3: "run_thread ?th (seen_by 0 ?s3) = (Inr (Uploaded res), w3)"
    using 3 by (simp add: run_map_thread run_fresh_thread seen_by_def enter_phase_def start_system_def resumed_def taken_over_def)
  have "reachable env ?jobs w (resumed 0 (Left (Inr (Uploaded res))) w3 ?s3)"
    by (rule section_runs [OF s3 _ _ _ 3]) (simp_all add: fresh_thread_def map_atomically)
  then show ?thesis by (intro exI conjI, assumption) simp_all
qed

section \<open>The same content at the same time\<close>

text \<open>A digest that tells the documents apart.\<close>

definition race_env :: "mem env" where
  "race_env = demo_env\<lparr>e_sha256 :=
     (\<lambda>bs. replicate 7 0 @ (if hd bs = 97 \<and> last bs = 49 then 0 else 1) # replicate 24 0)\<rparr>"

definition hello :: upload_body where
  "hello = demo_body ''h1'' [''hello'']"

definition statuses :: "upload_result \<times> upload_result \<Rightarrow> string \<times> string" where
  "statuses = map_prod ur_status ur_status"

definition points_of_beta :: "mem world \<Rightarrow> nat" where
  "points_of_beta w = (case mem_colls (w_store w) ''t_beta__b_bot1'' of None \<Rightarrow> 0 | Some c \<Rightarrow> length (mc_points c))"

lemma race_keys:
  "(case (advisory_lock_key (e_sha256 race_env) ''acme'' ''bot1'' ''d1'',
          advisory_lock_key (e_sha256 race_env) ''acme'' ''bot1'' ''d2'',
          advisory_lock_key (e_sha256 race_env) ''beta'' ''bot1'' ''d1'') of
     (Inr k1, Inr k2, Inr k3) \<Rightarrow> k1 \<noteq> k2 \<and> k1 \<noteq> k3 | _ \<Rightarrow> False)"
  by code_simp

lemma content_race:
  "returned (race race_env ''acme'' ''bot1'' ''d1'' hello ''acme'' ''bot1'' ''d2'' hello demo_world) (\<lambda>res w.
     statuses res = (''created'', ''created'') \<and>
     stored_texts w = [(Some (JStr ''d1''), Some (JStr ''hello'')), (Some (JStr ''d2''), Some (JStr ''hello''))])"
  by code_simp

lemma content_in_turn:
  "returned (upload_execute race_env ''acme'' ''bot1'' ''d2'' hello
     (snd (upload_execute race_env ''acme'' ''bot1'' ''d1'' hello demo_world)))
   (\<lambda>res w. ur_status res = ''no_change'')"
  by code_simp

lemma document_race:
  "returned (race race_env ''acme'' ''bot1'' ''d1'' hello ''beta'' ''bot1'' ''d1'' hello demo_world) (\<lambda>res w. statuses res = (''created'', ''created''))"
  "returned (race race_env ''acme'' ''bot1'' ''d1'' hello ''beta'' ''bot1'' ''d1'' hello demo_world) (\<lambda>res w. points_of_beta w = 1)"
  "returned (race race_env ''acme'' ''bot1'' ''d1'' hello ''beta'' ''bot1'' ''d1'' hello demo_world) (\<lambda>res w. map_option dc_tenant_id (find_doc ''d1'' (w_db w)) = Some ''acme'')"
  by code_simp+

lemma returned_conj: "returned run P \<Longrightarrow> returned run Q \<Longrightarrow> returned run (\<lambda>x w. P x w \<and> Q x w)"
  by (auto simp: returned_def split: prod.splits sum.splits)

lemma race_env_simps [simp]: "e_client race_env = mem_client" "e_uuid5_oid race_env = (\<lambda>s. s)"
  by (simp_all add: race_env_def demo_env_def)

text \<open>
  C11 (a defect: overlapping uploads escape deduplication). Two uploads of the same content for
  the same bot under different document ids overlap: a reachable state has both answered
  \<open>created\<close> and the text stored twice, although one after the other the second is answered
  \<open>no_change\<close>. Their locks differ, so neither sees the other's row.
\<close>

theorem overlap_escapes_deduplication:
  "(\<exists>s res res'. reachable race_env [upload_job ''acme'' ''bot1'' ''d1'' hello, upload_job ''acme'' ''bot1'' ''d2'' hello]
       demo_world s \<and> sy_phase s 0 = Left (Inr (Uploaded res)) \<and> sy_phase s 1 = Left (Inr (Uploaded res')) \<and>
     ur_status res = ''created'' \<and> ur_status res' = ''created'' \<and>
     stored_texts (sy_world s) = [(Some (JStr ''d1''), Some (JStr ''hello'')), (Some (JStr ''d2''), Some (JStr ''hello''))]) \<and>
   returned (upload_execute race_env ''acme'' ''bot1'' ''d2'' hello
     (snd (upload_execute race_env ''acme'' ''bot1'' ''d1'' hello demo_world)))
   (\<lambda>res w. ur_status res = ''no_change'')"
proof (rule conjI [OF _ content_in_turn])
  from content_race obtain res res' w where
    run: "race race_env ''acme'' ''bot1'' ''d1'' hello ''acme'' ''bot1'' ''d2'' hello demo_world = (Inr (res, res'), w)"
    and out: "ur_status res = ''created''" "ur_status res' = ''created''"
      "stored_texts w = [(Some (JStr ''d1''), Some (JStr ''hello'')), (Some (JStr ''d2''), Some (JStr ''hello''))]"
    by (rule returnedE) (auto simp: statuses_def split: prod.splits)
  from race_keys obtain k1 k2 where "advisory_lock_key (e_sha256 race_env) ''acme'' ''bot1'' ''d1'' = Inr k1"
    "advisory_lock_key (e_sha256 race_env) ''acme'' ''bot1'' ''d2'' = Inr k2" "k1 \<noteq> k2"
    by (auto split: sum.splits)
  from race_reachable [OF this run] out show "\<exists>s res res'. reachable race_env
       [upload_job ''acme'' ''bot1'' ''d1'' hello, upload_job ''acme'' ''bot1'' ''d2'' hello] demo_world s \<and>
     sy_phase s 0 = Left (Inr (Uploaded res)) \<and> sy_phase s 1 = Left (Inr (Uploaded res')) \<and>
     ur_status res = ''created'' \<and> ur_status res' = ''created'' \<and>
     stored_texts (sy_world s) = [(Some (JStr ''d1''), Some (JStr ''hello'')), (Some (JStr ''d2''), Some (JStr ''hello''))]"
    by blast
qed

text \<open>
  C12 (a defect: overlapping uploads of one id orphan a document). Two tenants upload the same
  document id and overlap: a reachable state has both answered \<open>created\<close>, the second tenant's
  chunk stored, and the only row owned by the first, so the second tenant's delete is answered
  \<open>not found\<close> (or the lock is refused) and leaves everything in place. The collision check is
  meant to stop one of them, but the lock key contains the tenant.
\<close>

theorem overlap_orphans_document:
  "\<exists>s res res'. reachable race_env [upload_job ''acme'' ''bot1'' ''d1'' hello, upload_job ''beta'' ''bot1'' ''d1'' hello]
       demo_world s \<and> sy_phase s 0 = Left (Inr (Uploaded res)) \<and> sy_phase s 1 = Left (Inr (Uploaded res')) \<and>
     ur_status res = ''created'' \<and> ur_status res' = ''created'' \<and> points_of_beta (sy_world s) = 1 \<and>
     map_option dc_tenant_id (find_doc ''d1'' (w_db (sy_world s))) = Some ''acme'' \<and>
     (\<exists>e w'. delete_execute race_env ''beta'' ''bot1'' ''d1'' (sy_world s) = (Inl e, w') \<and> settled w' = settled (sy_world s))"
proof -
  from returned_conj [OF returned_conj [OF document_race(1,2)] document_race(3)] obtain res res' w where
    run: "race race_env ''acme'' ''bot1'' ''d1'' hello ''beta'' ''bot1'' ''d1'' hello demo_world = (Inr (res, res'), w)"
    and out: "ur_status res = ''created''" "ur_status res' = ''created''" "points_of_beta w = 1"
      "map_option dc_tenant_id (find_doc ''d1'' (w_db w)) = Some ''acme''"
    by (rule returnedE) (auto simp: statuses_def split: prod.splits)
  from out(4) have "\<exists>r. find_doc ''d1'' (w_db w) = Some r \<and> foreign ''beta'' ''bot1'' r" by (auto simp: foreign_def)
  then have gone: "\<exists>e w'. delete_execute race_env ''beta'' ''bot1'' ''d1'' w = (Inl e, w') \<and> settled w' = settled w"
    using delete_unknown [of "''d1''" w "''beta''" "''bot1''" race_env] by blast
  from race_keys obtain k1 k3 where "advisory_lock_key (e_sha256 race_env) ''acme'' ''bot1'' ''d1'' = Inr k1"
    "advisory_lock_key (e_sha256 race_env) ''beta'' ''bot1'' ''d1'' = Inr k3" "k1 \<noteq> k3"
    by (auto split: sum.splits)
  from race_reachable [OF this run] out gone show ?thesis by blast
qed

section \<open>Witnesses\<close>

definition overlapping_jobs :: "job list" where
  "overlapping_jobs = [upload_job ''acme'' ''bot1'' ''d1'' hello, upload_job ''acme'' ''bot1'' ''d2'' hello,
     upload_job ''acme'' ''bot1'' ''d1'' hello]"

text \<open>The first worker holds its lock, the others wait.\<close>

definition first_inside :: "mem system" where
  "first_inside = enter_phase 0 (Inside (job_thread race_env (overlapping_jobs ! 0))) (start_system demo_world)"

lemma first_inside:
  assumes "advisory_lock_key (e_sha256 race_env) ''acme'' ''bot1'' ''d1'' = Inr key"
  shows "reachable race_env overlapping_jobs demo_world first_inside"
    and "holds_key race_env overlapping_jobs first_inside 0 key"
    and "sy_phase first_inside 2 = Waiting" "job_key race_env (overlapping_jobs ! 2) = Inr key"
proof -
  have key: "job_key race_env (overlapping_jobs ! 0) = Inr key"
    using assms by (simp add: job_key_def overlapping_jobs_def upload_job_def)
  have "overlapping_jobs \<noteq> []" by (simp add: overlapping_jobs_def)
  then show "reachable race_env overlapping_jobs demo_world first_inside"
    unfolding first_inside_def
    by (intro worker_enters [OF reachable.init _ _ key]) (auto simp: holds_key_def start_system_def)
  show "holds_key race_env overlapping_jobs first_inside 0 key"
    using key \<open>overlapping_jobs \<noteq> []\<close> by (simp add: first_inside_def holds_key_def)
  show "sy_phase first_inside 2 = Waiting" "job_key race_env (overlapping_jobs ! 2) = Inr key"
    using assms by (simp_all add: first_inside_def start_system_def job_key_def overlapping_jobs_def upload_job_def)
qed



lemma demo_in_order: "in_order demo_env mem_view demo_world"
  by (simp add: in_order_def db_wf_def at_home_def doc_points_def stored_by_def stored_in_def mem_view_def demo_world_def)

theorem service_refines_store_witness:
  "\<exists>anss w'. serve_all demo_env [upload_job ''acme'' ''bot1'' ''d1'' hello] demo_world = Some (anss, w') \<and>
     spec_history demo_env [upload_job ''acme'' ''bot1'' ''d1'' hello] (docs_of mem_view demo_world) anss (docs_of mem_view w')"
proof -
  from demo_created obtain res w' where "demo_upload ''d1'' ''h1'' [''hello''] demo_world = (Inr res, w')"
    by (rule returnedE) simp
  then have run: "serve_all demo_env [upload_job ''acme'' ''bot1'' ''d1'' hello] demo_world = Some ([Uploaded res], w')"
    by (simp add: serve_request_def upload_job_def demo_upload_def hello_def bind_io_def)
  have "inj (e_uuid5_oid demo_env)" by (simp add: demo_env_def)
  from service_refines_store [OF demo_api this demo_in_order run] run show ?thesis by blast
qed

end
