(* ===== verification/LoadTest.thy ===== *)
theory LoadTest
  imports Serializers Pipeline
begin

text \<open>
  The load test, \<^verbatim>\<open>scripts/load_test.py\<close>: a warm-up upload, a number of uploads, searches for
  some seconds, percentiles of their latencies, and a check that no chunk got lost. The HTTP
  client, the clock, \<open>asyncio.sleep\<close> and the count query of the vector database are the fields
  of a \<open>stack\<close>; the tasks of a \<open>gather\<close> run in the order they are created. What is printed is
  left out.
\<close>

section \<open>The stack under test\<close>

record reply =
  re_status_code :: int
  re_text :: string
  re_json :: "exn + json"

record 's stack =
  st_post :: "string \<Rightarrow> json \<Rightarrow> ('s, reply) prog"
  st_count :: "string \<Rightarrow> ('s, int) prog"
  st_monotonic :: "('s, rat) prog"
  st_sleep :: "rat \<Rightarrow> ('s, unit) prog"

record load_args =
  la_uploads :: nat
  la_searches :: nat
  la_duration :: nat

text \<open>What the command line leaves out.\<close>

definition default_load_args :: load_args where
  "default_load_args = \<lparr>la_uploads = 10, la_searches = 100, la_duration = 30\<rparr>"

definition WARMUP_TIMEOUT :: rat where "WARMUP_TIMEOUT = 30"

section \<open>One request\<close>

definition build_upload_body :: "nat \<Rightarrow> json" where
  "build_upload_body idx = JObj
     [(''source_type'', JStr ''text''),
      (''source_filename'', JStr (''loadtest_'' @ show_nat idx @ ''.txt'')),
      (''items'', JList [JObj [(''content'',
         JStr (concat (replicate 20 (''Load test content for upload number '' @ show_nat idx @ ''. ''))))]])]"

definition bot_url :: "string \<Rightarrow> string \<Rightarrow> string \<Rightarrow> string" where
  "bot_url tenant bot_id endpoint = ''/v1/tenants/'' @ tenant @ ''/bots/'' @ bot_id @ ''/'' @ endpoint"

definition http_error :: "reply \<Rightarrow> string" where
  "http_error r = ''http '' @ show_int (re_status_code r) @ '': '' @ take 200 (re_text r)"

definition exn_error :: "exn \<Rightarrow> string" where
  "exn_error exc = exn_class exc @ '': '' @ exn_text exc"

text \<open>\<open>int()\<close> of a JSON value.\<close>

definition int_of_json :: "json \<Rightarrow> exn + int" where
  "int_of_json v = (case v of
     JInt i \<Rightarrow> Inr i
   | JBool b \<Rightarrow> Inr (if b then 1 else 0)
   | JFloat r \<Rightarrow> Inr (if 0 \<le> r then \<lfloor>r\<rfloor> else \<lceil>r\<rceil>)
   | JStr s \<Rightarrow> py_int s
   | _ \<Rightarrow> Inl (OtherError ''TypeError''
       (''int() argument must be a string, a bytes-like object or a real number, not '' @ py_repr (py_type_name v))))"

text \<open>\<open>int(body.get("chunks_created", 0))\<close> and \<open>body.get("doc_id")\<close>.\<close>

definition upload_reply :: "reply \<Rightarrow> exn + bool \<times> int \<times> json" where
  "upload_reply r = (if re_status_code r \<noteq> 201 then Inr (False, 0, JStr (http_error r))
     else and_then (re_json r) (\<lambda>body.
       and_then (get_key body ''chunks_created'') (\<lambda>chunks.
       and_then (int_of_json (or_default (JInt 0) chunks)) (\<lambda>n.
       and_then (get_key body ''doc_id'') (\<lambda>doc_id.
       Inr (True, n, or_default JNull doc_id))))))"

definition upload_one :: "'s stack \<Rightarrow> string \<Rightarrow> string \<Rightarrow> nat \<Rightarrow> ('s, bool \<times> int \<times> json) prog" where
  "upload_one st tenant bot_id idx =
     try_io (bind_io (st_post st (bot_url tenant bot_id ''documents'') (build_upload_body idx)) (\<lambda>r.
       of_sum (upload_reply r)))
     (\<lambda>exc. return_io (False, 0, JStr (exn_error exc)))"

definition search_one :: "'s stack \<Rightarrow> string \<Rightarrow> string \<Rightarrow> string \<Rightarrow> ('s, bool \<times> rat \<times> string option) prog" where
  "search_one st tenant bot_id text =
     bind_io (st_monotonic st) (\<lambda>started.
     try_io (bind_io (st_post st (bot_url tenant bot_id ''search'') (JObj [(''query'', JStr text)])) (\<lambda>r.
       bind_io (st_monotonic st) (\<lambda>now.
       return_io (if re_status_code r \<noteq> 200 then (False, (now - started) * 1000, Some (http_error r))
         else (True, (now - started) * 1000, None)))))
     (\<lambda>exc. bind_io (st_monotonic st) (\<lambda>now.
       return_io (False, (now - started) * 1000, Some (exn_error exc)))))"

section \<open>Warm-up\<close>

text \<open>
  The loop \<open>while time.monotonic() - started < WARMUP_TIMEOUT\<close> with its \<open>else\<close>; \<open>fuel\<close> bounds
  its rounds. A round that goes on sleeps a second, so thirty rounds are enough on a clock that
  does not go back.
\<close>

definition system_exit :: "nat \<Rightarrow> exn" where
  "system_exit code = OtherError ''SystemExit'' (show_nat code)"

definition out_of_fuel :: exn where
  "out_of_fuel = OtherError ''OutOfFuel'' []"

primrec warmup_loop :: "nat \<Rightarrow> 's stack \<Rightarrow> string \<Rightarrow> string \<Rightarrow> rat \<Rightarrow> ('s, unit) prog" where
  "warmup_loop 0 st tenant bot_id started = bind_io (st_monotonic st) (\<lambda>now.
     if now - started < WARMUP_TIMEOUT then raise_io out_of_fuel else raise_io (system_exit 2))"
| "warmup_loop (Suc fuel) st tenant bot_id started = bind_io (st_monotonic st) (\<lambda>now.
     if now - started < WARMUP_TIMEOUT then
       bind_io (upload_one st tenant bot_id 0) (\<lambda>(ok, _, err).
       if ok then return_io () else seq_io (st_sleep st 1) (warmup_loop fuel st tenant bot_id started))
     else raise_io (system_exit 2))"

definition warm_up :: "nat \<Rightarrow> 's stack \<Rightarrow> string \<Rightarrow> string \<Rightarrow> ('s, unit) prog" where
  "warm_up fuel st tenant bot_id =
     bind_io (st_monotonic st) (\<lambda>started.
     seq_io (warmup_loop fuel st tenant bot_id started)
    (bind_io (search_one st tenant bot_id ''load test warm'') (\<lambda>_. return_io ())))"

section \<open>Percentiles\<close>

text \<open>\<open>None\<close> is not-a-number.\<close>

definition percentile :: "rat list \<Rightarrow> rat \<Rightarrow> rat option" where
  "percentile vals p = (if vals = [] then None
     else let sorted_vals = sort vals; k = of_nat (length sorted_vals - 1) * p; f = nat \<lfloor>k\<rfloor>;
              c = min (f + 1) (length sorted_vals - 1)
          in Some (sorted_vals ! f + (sorted_vals ! c - sorted_vals ! f) * (k - of_nat f)))"

section \<open>The run\<close>

text \<open>
  The tasks created until \<open>end_at\<close>, at most \<open>left\<close>; the source leaves its loop when their number
  reaches thirty times the argument. The argument is positive: with none the semaphore admits
  no task and the script waits for ever.
\<close>

primrec search_tasks :: "nat \<Rightarrow> 's stack \<Rightarrow> string \<Rightarrow> string \<Rightarrow> rat \<Rightarrow> nat \<Rightarrow>
    ('s, (bool \<times> rat \<times> string option) list) prog" where
  "search_tasks 0 st tenant bot_id end_at n = return_io []"
| "search_tasks (Suc left) st tenant bot_id end_at n = bind_io (st_monotonic st) (\<lambda>now.
     if now < end_at then
       bind_io (search_one st tenant bot_id (''load test query '' @ show_nat (n mod 50))) (\<lambda>r.
       bind_io (search_tasks left st tenant bot_id end_at (Suc n)) (\<lambda>rs. return_io (r # rs)))
     else return_io [])"

text \<open>The count query, with the name derived inside the \<open>try\<close>; -1 when it is skipped.\<close>

definition chunk_count :: "'s stack \<Rightarrow> string \<Rightarrow> string \<Rightarrow> ('s, int) prog" where
  "chunk_count st tenant bot_id =
     try_io (bind_io (of_sum (collection_name tenant bot_id)) (st_count st)) (\<lambda>exc. return_io (- 1))"

definition upload_chunks :: "(bool \<times> int \<times> json) list \<Rightarrow> int" where
  "upload_chunks results = sum_list (map (\<lambda>(ok, c, _). c) (filter fst results))"

definition below :: "rat option \<Rightarrow> rat \<Rightarrow> bool" where
  "below x limit = (case x of None \<Rightarrow> False | Some v \<Rightarrow> v < limit)"

definition passing :: "(bool \<times> int \<times> json) list \<Rightarrow> (bool \<times> rat \<times> string option) list \<Rightarrow> int \<Rightarrow> bool" where
  "passing upload_results searches qdrant_chunk_count =
     (let latencies = map (\<lambda>(ok, e, _). e) (filter fst searches);
          chunk_loss_ok = (if 0 \<le> qdrant_chunk_count
            then Some (qdrant_chunk_count = upload_chunks upload_results) else None)
      in filter (\<lambda>r. \<not> fst r) upload_results = [] \<and> filter (\<lambda>r. \<not> fst r) searches = [] \<and>
         chunk_loss_ok \<in> {Some True, None} \<and>
         (if latencies \<noteq> [] then below (percentile latencies (1/2)) 100 \<and>
            below (percentile latencies (95/100)) 250 \<and> below (percentile latencies (99/100)) 500 else False))"

definition run_load_test :: "nat \<Rightarrow> 's stack \<Rightarrow> load_args \<Rightarrow> string \<Rightarrow> string \<Rightarrow> ('s, int) prog" where
  "run_load_test fuel st args tenant bot_id =
     seq_io (warm_up fuel st tenant bot_id)
    (bind_io (map_io (upload_one st tenant bot_id) (map Suc [0..<la_uploads args])) (\<lambda>upload_results.
     bind_io (st_monotonic st) (\<lambda>search_started.
     bind_io (search_tasks (la_searches args * 30) st tenant bot_id (search_started + of_nat (la_duration args)) 0) (\<lambda>searches.
     bind_io (chunk_count st tenant bot_id) (\<lambda>qdrant_chunk_count.
     return_io (if passing upload_results searches qdrant_chunk_count then 0 else 1))))))"

section \<open>Percentiles are between the extremes\<close>

lemma percentile_index:
  fixes p :: rat
  assumes "vals \<noteq> []" and "0 \<le> p" and "p \<le> 1"
  defines "k \<equiv> of_nat (length vals - 1) * p"
  shows "nat \<lfloor>k\<rfloor> < length vals" and "0 \<le> k - of_nat (nat \<lfloor>k\<rfloor>)" and "k - of_nat (nat \<lfloor>k\<rfloor>) < 1"
proof -
  have k: "0 \<le> k" "k \<le> of_nat (length vals - 1)"
    using assms(2,3) unfolding k_def by (simp_all add: mult_left_le)
  then have "\<lfloor>k\<rfloor> \<le> int (length vals - 1)" by linarith
  with assms(1) show "nat \<lfloor>k\<rfloor> < length vals" by (cases vals) auto
  show "0 \<le> k - of_nat (nat \<lfloor>k\<rfloor>)" "k - of_nat (nat \<lfloor>k\<rfloor>) < 1"
    using k(1) by (simp_all add: of_nat_nat) linarith
qed

lemma between:
  fixes a b x :: rat
  assumes "a \<le> b" and "0 \<le> x" and "x \<le> 1"
  shows "a \<le> a + (b - a) * x" and "a + (b - a) * x \<le> b"
proof -
  have "0 \<le> (b - a) * x" using assms by simp
  moreover have "(b - a) * x \<le> (b - a) * 1" using assms by (intro mult_left_mono) simp_all
  ultimately show "a \<le> a + (b - a) * x" "a + (b - a) * x \<le> b" by simp_all
qed

text \<open>
  Percentiles. The percentile of a non-empty list exists for every proportion and lies
  between its least and its greatest element; of none it is not a number.
\<close>

theorem percentile_bounds:
  assumes "0 \<le> p" and "p \<le> 1"
  shows "if vals = [] then percentile vals p = None
    else \<exists>v. percentile vals p = Some v \<and> Min (set vals) \<le> v \<and> v \<le> Max (set vals)"
proof (cases "vals = []")
  case False
  define xs where "xs = sort vals"
  have xs: "xs \<noteq> []" "sorted xs" "set xs = set vals" using False by (auto simp: xs_def dest: arg_cong [of _ _ set])
  define k where "k = of_nat (length xs - 1) * p"
  define f where "f = nat \<lfloor>k\<rfloor>"
  define c where "c = min (f + 1) (length xs - 1)"
  have f: "f < length xs" "0 \<le> k - of_nat f" "k - of_nat f \<le> 1"
    using percentile_index [OF xs(1) assms, folded k_def, folded f_def] less_imp_le by blast+
  with xs(1) have c: "c < length xs" "f \<le> c" by (auto simp: c_def)
  have order: "xs ! f \<le> xs ! c" using sorted_nth_mono [OF xs(2) c(2) c(1)] .
  have "xs ! f \<in> set vals" "xs ! c \<in> set vals" using f(1) c(1) by (simp_all flip: xs(3))
  then have "Min (set vals) \<le> xs ! f" "xs ! c \<le> Max (set vals)" by simp_all
  with between [OF order f(2,3)] have "Min (set vals) \<le> xs ! f + (xs ! c - xs ! f) * (k - of_nat f)"
      "xs ! f + (xs ! c - xs ! f) * (k - of_nat f) \<le> Max (set vals)" by linarith+
  moreover have "percentile vals p = Some (xs ! f + (xs ! c - xs ! f) * (k - of_nat f))"
    using False unfolding percentile_def Let_def xs_def [symmetric] k_def [symmetric] f_def [symmetric] c_def [symmetric] by simp
  ultimately show ?thesis using False by simp
qed (simp add: percentile_def)

section \<open>The warm-up ends\<close>

text \<open>A clock that reads \<open>time\<close>, does not go back and moves on while the script sleeps.\<close>

definition clocked :: "'s stack \<Rightarrow> ('s \<Rightarrow> rat) \<Rightarrow> bool" where
  "clocked st time \<longleftrightarrow>
     (\<forall>s. \<exists>s'. st_monotonic st s = (Inr (time s), s') \<and> time s \<le> time s') \<and>
     (\<forall>x s. \<exists>s'. st_sleep st x s = (Inr (), s') \<and> time s + x \<le> time s') \<and>
     (\<forall>url body s r s'. st_post st url body s = (r, s') \<longrightarrow> time s \<le> time s')"

lemma clocked_upload:
  assumes "clocked st time" and "upload_one st t b idx s = (r, s')"
  shows "time s \<le> time s'" and "\<exists>x. r = Inr x"
  using assms unfolding upload_one_def clocked_def
  by (auto simp: try_io_def bind_io_def return_io_def of_sum_def split: prod.splits sum.splits)

lemma warmup_loop_ends:
  assumes ck: "clocked st time"
  shows "30 - (time s - started) \<le> of_nat fuel \<Longrightarrow> fst (warmup_loop fuel st t b started s) \<noteq> Inl out_of_fuel"
proof (induction fuel arbitrary: s)
  case 0
  obtain s1 where "st_monotonic st s = (Inr (time s), s1)" using ck unfolding clocked_def by blast
  with 0 show ?case by (simp add: bind_io_def WARMUP_TIMEOUT_def raise_io_def system_exit_def out_of_fuel_def)
next
  case (Suc fuel)
  obtain s1 where now: "st_monotonic st s = (Inr (time s), s1)" "time s \<le> time s1"
    using ck by (metis clocked_def)
  obtain r s2 where up: "upload_one st t b 0 s1 = (r, s2)" by (metis prod.collapse)
  from clocked_upload [OF ck this] obtain ok c err where r: "r = Inr (ok, c, err)" "time s1 \<le> time s2"
    by (cases r) auto
  obtain s3 where sl: "st_sleep st 1 s2 = (Inr (), s3)" "time s2 + 1 \<le> time s3"
    using ck by (metis clocked_def)
  have "30 - (time s3 - started) \<le> of_nat fuel" using Suc.prems now(2) r(2) sl(2) by simp
  from Suc.IH [OF this] now(1) up r(1) sl(1) show ?case
    by (auto simp: bind_io_def seq_io_def raise_io_def return_io_def system_exit_def out_of_fuel_def)
qed

lemma warm_up_ends:
  assumes ck: "clocked st time"
  shows "fst (warm_up 30 st t b s) \<noteq> Inl out_of_fuel"
proof -
  obtain s1 where now: "st_monotonic st s = (Inr (time s), s1)" "time s \<le> time s1"
    using ck by (metis clocked_def)
  obtain r s2 where loop: "warmup_loop 30 st t b (time s) s1 = (r, s2)" by (metis prod.collapse)
  have "r \<noteq> Inl out_of_fuel"
    using warmup_loop_ends [OF ck, of s1 "time s" 30 t b] now(2) loop by simp
  moreover have "\<exists>x s3. search_one st t b q s2 = (Inr x, s3)" for q
  proof -
    have clock: "\<exists>s'. st_monotonic st s0 = (Inr (time s0), s')" for s0 using ck by (metis clocked_def)
    obtain s3 where "st_monotonic st s2 = (Inr (time s2), s3)" using clock by blast
    moreover obtain p s4 where "st_post st (bot_url t b ''search'') (JObj [(''query'', JStr q)]) s3 = (p, s4)"
      by (metis prod.collapse)
    moreover obtain s5 where "st_monotonic st s4 = (Inr (time s4), s5)" using clock by blast
    ultimately show ?thesis
      by (cases p) (auto simp: search_one_def bind_io_def try_io_def return_io_def)
  qed
  then obtain x s3 where "search_one st t b ''load test warm'' s2 = (Inr x, s3)" by blast
  ultimately show ?thesis using now(1) loop
    by (cases r) (auto simp: warm_up_def bind_io_def seq_io_def return_io_def)
qed

section \<open>The test against a service that keeps its word\<close>

text \<open>
  A service that counts: \<open>stored\<close> is what the count query answers, an upload answered 201 with
  \<open>n\<close> chunks adds at least \<open>n\<close>, at least one, and nothing else removes any.
\<close>

definition counts_chunks :: "'s stack \<Rightarrow> ('s \<Rightarrow> int) \<Rightarrow> bool" where
  "counts_chunks st stored \<longleftrightarrow>
     (\<forall>url body s r s'. st_post st url body s = (r, s') \<longrightarrow> stored s \<le> stored s') \<and>
     (\<forall>url body s r s' n d. st_post st url body s = (Inr r, s') \<longrightarrow> upload_reply r = Inr (True, n, d) \<longrightarrow>
        1 \<le> n \<and> stored s + n \<le> stored s') \<and>
     (\<forall>s r s'. st_monotonic st s = (r, s') \<longrightarrow> stored s' = stored s) \<and>
     (\<forall>x s r s'. st_sleep st x s = (r, s') \<longrightarrow> stored s' = stored s) \<and>
     (\<forall>n s. \<exists>s'. st_count st n s = (Inr (stored s), s'))"

lemma counts_chunksD:
  assumes "counts_chunks st stored"
  shows "st_post st url body s = (r, s') \<Longrightarrow> stored s \<le> stored s'"
    and "st_post st url body s = (Inr rep, s') \<Longrightarrow> upload_reply rep = Inr (True, n, d) \<Longrightarrow>
      1 \<le> n \<and> stored s + n \<le> stored s'"
    and "st_monotonic st s = (u, s') \<Longrightarrow> stored s' = stored s"
    and "st_sleep st x s = (v, s') \<Longrightarrow> stored s' = stored s"
    and "\<exists>s'. st_count st m s = (Inr (stored s), s')"
  using assms unfolding counts_chunks_def by simp_all

lemma upload_oneE:
  assumes "upload_one st t b idx s = (r, s')"
  obtains post where "st_post st (bot_url t b ''documents'') (build_upload_body idx) s = (post, s')"
    and "r = Inr (case and_then post upload_reply of Inl e \<Rightarrow> (False, 0, JStr (exn_error e)) | Inr y \<Rightarrow> y)"
  using assms unfolding upload_one_def
  by (auto simp: try_io_def bind_io_def return_io_def of_sum_def split: prod.splits sum.splits)

lemma upload_reply_refused: "upload_reply r = Inr (False, n, d) \<Longrightarrow> n = 0"
  by (auto simp: upload_reply_def and_then_Inr_iff split: if_splits)

lemma counted_upload:
  assumes counts: "counts_chunks st stored"
  shows "triple (\<lambda>s. c \<le> stored s) (upload_one st t b idx)
    (\<lambda>x s. c + (if fst x then fst (snd x) else 0) \<le> stored s \<and> (fst x \<longrightarrow> 1 \<le> fst (snd x))) E"
proof (rule tripleI)
  fix s x s' assume c: "c \<le> stored s" and "upload_one st t b idx s = (Inr x, s')"
  then obtain post where post: "st_post st (bot_url t b ''documents'') (build_upload_body idx) s = (post, s')"
    and x: "x = (case and_then post upload_reply of Inl e \<Rightarrow> (False, 0, JStr (exn_error e)) | Inr y \<Rightarrow> y)"
    by (auto elim: upload_oneE)
  note mono = counts_chunksD(1) [OF counts post]
  show "c + (if fst x then fst (snd x) else 0) \<le> stored s' \<and> (fst x \<longrightarrow> 1 \<le> fst (snd x))"
  proof (cases "fst x")
    case True
    with x obtain rep n d where "post = Inr rep" "upload_reply rep = Inr (True, n, d)" "x = (True, n, d)"
      by (cases post; cases "and_then post upload_reply") (auto split: sum.splits)
    with counts_chunksD(2) [OF counts, of "bot_url t b ''documents''" "build_upload_body idx" s rep s' n d] post c
    show ?thesis by simp
  next
    case False
    with c mono show ?thesis by simp
  qed
qed (auto elim: upload_oneE)

lemma counted_keeps:
  assumes counts: "counts_chunks st stored"
  shows "keeps (\<lambda>s. c \<le> stored s) (st_monotonic st)" "keeps (\<lambda>s. c \<le> stored s) (st_sleep st x)"
    "keeps (\<lambda>s. c \<le> stored s) (st_post st url body)"
  using counts_chunksD(3,4) [OF counts]
  by (auto intro!: keepsI) (meson counts_chunksD(1) [OF counts] order_trans)

lemma counted_upload_keeps:
  assumes "counts_chunks st stored"
  shows "keeps (\<lambda>s. c \<le> stored s) (upload_one st t b idx)"
  unfolding upload_one_def by (intro keeps_intro counted_keeps [OF assms])

lemma counted_search:
  assumes "counts_chunks st stored"
  shows "keeps (\<lambda>s. c \<le> stored s) (search_one st t b text)"
  unfolding search_one_def by (intro keeps_intro counted_keeps [OF assms])

lemma counted_tasks:
  assumes "counts_chunks st stored"
  shows "keeps (\<lambda>s. c \<le> stored s) (search_tasks left st t b end_at n)"
proof (induction left arbitrary: n)
  case 0
  show ?case unfolding search_tasks.simps by (intro keeps_intro)
next
  case (Suc left)
  show ?case unfolding search_tasks.simps
    by (intro keeps_intro counted_keeps [OF assms] counted_search [OF assms] Suc.IH)
qed

lemma counted_warm_up:
  assumes counts: "counts_chunks st stored"
  shows "triple (\<lambda>s. 0 \<le> stored s) (warm_up fuel st t b) (\<lambda>_ s. 1 \<le> stored s) (\<lambda>_ _. True)"
proof -
  have clock: "triple (\<lambda>s. 0 \<le> stored s) (st_monotonic st) (\<lambda>_ s. 0 \<le> stored s) (\<lambda>_ _. True)"
    "triple (\<lambda>s. 0 \<le> stored s) (st_sleep st x) (\<lambda>_ s. 0 \<le> stored s) (\<lambda>_ _. True)" for x
    using triple_keeps [OF counted_keeps(1) [OF counts]] triple_keeps [OF counted_keeps(2) [OF counts]]
    by (auto intro: triple_weaken)
  have loop: "triple (\<lambda>s. 0 \<le> stored s) (warmup_loop fuel st t b started) (\<lambda>_ s. 1 \<le> stored s) (\<lambda>_ _. True)" for started
  proof (induction fuel)
    case 0
    show ?case unfolding warmup_loop.simps by (rule triple_bind [OF clock(1)]) (auto intro: triple_raise)
  next
    case (Suc fuel)
    have up: "triple (\<lambda>s. 0 \<le> stored s) (upload_one st t b 0)
      (\<lambda>x s. 0 + (if fst x then fst (snd x) else 0) \<le> stored s \<and> (fst x \<longrightarrow> 1 \<le> fst (snd x))) (\<lambda>_ _. True)"
      by (rule counted_upload [OF counts])
    have rest: "triple (\<lambda>s. 0 + (if fst x then fst (snd x) else 0) \<le> stored s \<and> (fst x \<longrightarrow> 1 \<le> fst (snd x)))
      (case x of (ok, _, err) \<Rightarrow> if ok then return_io () else seq_io (st_sleep st 1) (warmup_loop fuel st t b started))
      (\<lambda>_ s. 1 \<le> stored s) (\<lambda>_ _. True)" for x :: "bool \<times> int \<times> json"
      using triple_seq [OF clock(2) Suc.IH] by (cases x) (auto intro: triple_return)
    show ?case unfolding warmup_loop.simps
      by (intro triple_bind [OF clock(1)] triple_if triple_bind [OF up rest] triple_raise TrueI)
  qed
  have search: "triple (\<lambda>s. 1 \<le> stored s) (search_one st t b q) (\<lambda>_ s. 1 \<le> stored s) (\<lambda>_ _. True)" for q
    by (rule triple_weaken [OF triple_keeps [OF counted_search [OF counts]]]) simp_all
  show ?thesis unfolding warm_up_def
    by (intro triple_bind [OF clock(1)] triple_seq [OF loop] triple_bind [OF search]) (auto intro: triple_return)
qed

lemma counted_uploads:
  assumes counts: "counts_chunks st stored"
  shows "triple (\<lambda>s. c \<le> stored s) (map_io (upload_one st t b) xs) (\<lambda>rs s. c + upload_chunks rs \<le> stored s) (\<lambda>_ _. True)"
proof (induction xs arbitrary: c)
  case Nil
  show ?case unfolding map_io.simps by (rule triple_return) (simp add: upload_chunks_def)
next
  case (Cons x xs)
  have one: "triple (\<lambda>s. c \<le> stored s) (upload_one st t b x)
      (\<lambda>y s. c + (if fst y then fst (snd y) else 0) \<le> stored s) (\<lambda>_ _. True)"
    by (rule triple_weaken [OF counted_upload [OF counts]]) auto
  show ?case unfolding map_io.simps
    by (rule triple_bind [OF one], rule triple_bind [OF Cons.IH], rule triple_return)
      (auto simp: upload_chunks_def case_prod_beta)
qed

text \<open>
  C38 (a defect: the load test cannot pass). Against a service that counts its chunks rightly and
  loses none, whatever the times, the test never reports success: the warm-up stores a document
  in the same collection that its sum leaves out, so its chunk-loss check compares different
  numbers.
\<close>

theorem load_test_cannot_pass:
  assumes counts: "counts_chunks st stored" and start: "0 \<le> stored s"
    and name: "collection_name tenant bot_id = Inr n"
    and run: "run_load_test fuel st args tenant bot_id s = (Inr code, s')"
  shows "code = 1"
proof -
  from run obtain u s1 ups s2 now s3 searches s4 k where
    warm: "warm_up fuel st tenant bot_id s = (Inr u, s1)"
    and up: "map_io (upload_one st tenant bot_id) (map Suc [0..<la_uploads args]) s1 = (Inr ups, s2)"
    and clock: "st_monotonic st s2 = (Inr now, s3)"
    and tasks: "search_tasks (la_searches args * 30) st tenant bot_id (now + of_nat (la_duration args)) 0 s3 = (Inr searches, s4)"
    and cnt: "chunk_count st tenant bot_id s4 = (Inr k, s')"
    and code: "code = (if passing ups searches k then 0 else 1)"
    unfolding run_load_test_def by (auto elim!: seq_io_InrE bind_io_InrE)
  have first: "1 \<le> stored s1" using triple_InrD [OF counted_warm_up [OF counts] start warm] .
  from triple_InrD [OF counted_uploads [OF counts] this up] have "1 + upload_chunks ups \<le> stored s2" .
  from keepsD [OF counted_keeps(1) [OF counts] this clock] have "1 + upload_chunks ups \<le> stored s3" .
  from keepsD [OF counted_tasks [OF counts] this tasks] have more: "1 + upload_chunks ups \<le> stored s4" .
  from counts_chunksD(5) [OF counts, of n s4] obtain s5 where "st_count st n s4 = (Inr (stored s4), s5)" ..
  with cnt name have "k = stored s4" by (simp add: chunk_count_def try_io_def bind_io_def)
  moreover have "1 \<le> stored s2"
    using keepsD [OF keeps_map [OF counted_upload_keeps [OF counts]] first up] .
  then have "1 \<le> stored s4"
    using keepsD [OF counted_keeps(1) [OF counts] _ clock] keepsD [OF counted_tasks [OF counts] _ tasks] by blast
  ultimately show ?thesis using more code by (simp add: passing_def Let_def)
qed

section \<open>Witness\<close>

text \<open>A service whose state is the number of its chunks and whose uploads make one each.\<close>

definition one_chunk_stack :: "int stack" where
  "one_chunk_stack = \<lparr>
     st_post = (\<lambda>url body s. if py_endswith url ''documents''
       then (Inr \<lparr>re_status_code = 201, re_text = [], re_json = Inr (JObj [(''chunks_created'', JInt 1)])\<rparr>, s + 1)
       else (Inr \<lparr>re_status_code = 200, re_text = [], re_json = Inr (JObj [])\<rparr>, s)),
     st_count = (\<lambda>n s. (Inr s, s)), st_monotonic = (\<lambda>s. (Inr 0, s)), st_sleep = (\<lambda>x s. (Inr (), s))\<rparr>"

theorem load_test_cannot_pass_witness:
  "fst (run_load_test 1 one_chunk_stack \<lparr>la_uploads = 2, la_searches = 1, la_duration = 0\<rparr> ''acme'' ''bot1'' 0) = Inr 1"
proof -
  have counts: "counts_chunks one_chunk_stack id"
    by (auto simp: counts_chunks_def one_chunk_stack_def upload_reply_def get_key_def lookup_def
        int_of_json_def or_default_def split: if_splits)
  have name: "collection_name ''acme'' ''bot1'' = Inr ''t_acme__b_bot1''" by code_simp
  have "(case run_load_test 1 one_chunk_stack \<lparr>la_uploads = 2, la_searches = 1, la_duration = 0\<rparr> ''acme'' ''bot1'' 0
    of (Inl e, s) \<Rightarrow> False | (Inr c, s) \<Rightarrow> True)" by code_simp
  then obtain code s' where run: "run_load_test 1 one_chunk_stack \<lparr>la_uploads = 2, la_searches = 1, la_duration = 0\<rparr>
    ''acme'' ''bot1'' 0 = (Inr code, s')" by (auto split: prod.splits sum.splits)
  have "(0::int) \<le> id 0" by simp
  from load_test_cannot_pass [OF counts this name run] run show ?thesis by simp
qed

end
