(* ===== verification/Logging.thy ===== *)
theory Logging
  imports Middleware
begin

text \<open>
  The logging configuration, \<^verbatim>\<open>apps/core/logging.py\<close>: the processors of structlog, and the
  dictionary given to \<^verbatim>\<open>logging.config.dictConfig\<close>, with what the standard library makes of it:
  level names are checked, a record goes to the handlers of its logger and of the loggers above
  it as far as they propagate. Processors, renderers and the class structlog filters with are
  the library's; \<open>bound_logger\<close> stands for making that class.
\<close>

section \<open>Levels\<close>

definition level_numbers :: "(string \<times> int) list" where
  "level_numbers = [(''CRITICAL'', 50), (''FATAL'', 50), (''ERROR'', 40), (''WARN'', 30), (''WARNING'', 30),
     (''INFO'', 20), (''DEBUG'', 10), (''NOTSET'', 0)]"

text \<open>
  \<open>str.upper()\<close>, but for the letters whose upper case lies beyond U+00FF or is two letters; no
  level name has any of these.
\<close>

definition py_upper_char :: "char \<Rightarrow> char" where
  "py_upper_char c = (let n = code_point c in
     if (97 \<le> n \<and> n \<le> 122) \<or> (224 \<le> n \<and> n \<le> 254 \<and> n \<noteq> 247) then char_of (n - 32) else c)"

definition py_upper :: "string \<Rightarrow> string" where
  "py_upper s = map py_upper_char s"

text \<open>\<open>logging.getLevelName\<close> of a name, and the check \<open>dictConfig\<close> makes of one.\<close>

definition level_name :: "string \<Rightarrow> int + string" where
  "level_name s = (case lookup level_numbers s of Some n \<Rightarrow> Inl n | None \<Rightarrow> Inr (''Level '' @ s))"

definition check_level :: "string \<Rightarrow> string \<Rightarrow> exn + int" where
  "check_level logger level = (case lookup level_numbers level of Some n \<Rightarrow> Inr n
     | None \<Rightarrow> Inl (ValueError (''Unable to configure logger '' @ py_repr logger)))"

section \<open>The configuration\<close>

datatype renderer = ConsoleRenderer | JSONRenderer

record logger_config =
  lg_handlers :: "string list"
  lg_level :: string
  lg_propagate :: bool

record logging_config =
  lc_processors :: "string list"
  lc_renderer :: renderer
  lc_foreign_pre_chain :: "string list"
  lc_cache_logger :: bool
  lc_disable_existing :: bool
  lc_handlers :: "(string \<times> string \<times> string) list"
  lc_loggers :: "(string \<times> logger_config) list"
  lc_bound :: "(string \<times> string) list"

definition SHARED_PROCESSORS :: "string list" where
  "SHARED_PROCESSORS = [''merge_contextvars'', ''add_log_level'', ''ExtraAdder'', ''add_logger_name'',
     ''TimeStamper'', ''StackInfoRenderer'', ''format_exc_info'', ''_request_context_processor'']"

definition select_renderer :: "bool \<Rightarrow> renderer" where
  "select_renderer debug = (if debug then ConsoleRenderer else JSONRenderer)"

definition structlog_processors :: "string list" where
  "structlog_processors = [''merge_contextvars'', ''filter_by_level'', ''add_log_level'', ''ExtraAdder'',
     ''add_logger_name'', ''TimeStamper'', ''PositionalArgumentsFormatter'', ''StackInfoRenderer'',
     ''format_exc_info'', ''UnicodeDecoder'', ''_request_context_processor'', ''wrap_for_formatter'']"

definition default_logger :: "string \<Rightarrow> logger_config" where
  "default_logger level = \<lparr>lg_handlers = [''default''], lg_level = level, lg_propagate = False\<rparr>"

definition logger_configs :: "string \<Rightarrow> (string \<times> logger_config) list" where
  "logger_configs log_level =
     [([], default_logger log_level), (''django'', default_logger log_level),
      (''django.request'', default_logger ''WARNING''), (''django.server'', default_logger ''INFO''),
      (''django.db.backends'', default_logger ''WARNING''), (''gunicorn.error'', default_logger ''INFO''),
      (''gunicorn.access'', default_logger ''INFO'')]"

fun check_levels :: "(string \<times> logger_config) list \<Rightarrow> exn + unit" where
  "check_levels [] = Inr ()"
| "check_levels ((name, c) # rest) = and_then (check_level name (lg_level c)) (\<lambda>_. check_levels rest)"

definition configure_logging :: "(int + string \<Rightarrow> exn + unit) \<Rightarrow> bool \<Rightarrow> string \<Rightarrow> exn + logging_config" where
  "configure_logging bound_logger debug log_level =
     and_then (bound_logger (level_name (py_upper log_level))) (\<lambda>_.
     and_then (check_levels (logger_configs log_level)) (\<lambda>_.
     Inr \<lparr>lc_processors = structlog_processors, lc_renderer = select_renderer debug,
       lc_foreign_pre_chain = SHARED_PROCESSORS, lc_cache_logger = True, lc_disable_existing = False,
       lc_handlers = [(''default'', ''logging.StreamHandler'', ''structlog'')],
       lc_loggers = logger_configs log_level,
       lc_bound = [(''service'', ''qdrant_rag''), (''version'', ''0.1.0-dev'')]\<rparr>))"

section \<open>Where a record goes\<close>

text \<open>The logger above: the name up to its last dot, the root logger in the end.\<close>

definition parent_logger :: "string \<Rightarrow> string" where
  "parent_logger name = rev (tl (dropWhile (\<lambda>c. c \<noteq> CHR ''.'') (rev name)))"

lemma parent_shorter: "name \<noteq> [] \<Longrightarrow> length (parent_logger name) < length name"
  using length_dropWhile_le [of "\<lambda>c. c \<noteq> CHR ''.''" "rev name"]
  by (cases name) (auto simp: parent_logger_def less_Suc_eq_le intro: diff_le_self order_trans)

text \<open>The handlers a record of a logger is given to; a logger not configured has none and propagates.\<close>

function handlers_for :: "(string \<times> logger_config) list \<Rightarrow> string \<Rightarrow> string list" where
  "handlers_for cs name =
     (let own = (case lookup cs name of None \<Rightarrow> [] | Some c \<Rightarrow> lg_handlers c);
          goes_on = (case lookup cs name of None \<Rightarrow> True | Some c \<Rightarrow> lg_propagate c)
      in own @ (if goes_on \<and> name \<noteq> [] then handlers_for cs (parent_logger name) else []))"
  by pat_completeness auto
termination by (relation "measure (\<lambda>(cs, name). length name)") (auto simp: parent_shorter)

declare handlers_for.simps [simp del]

lemma default_once:
  assumes own: "\<And>n c. lookup cs n = Some c \<Longrightarrow> lg_handlers c = [''default''] \<and> \<not> lg_propagate c"
    and root: "lookup cs [] \<noteq> None"
  shows "handlers_for cs name = [''default'']"
  using own root
proof (induction cs name rule: handlers_for.induct)
  case (1 cs name)
  show ?case
  proof (cases "lookup cs name")
    case None
    then have "name \<noteq> []" using "1.prems"(2) by auto
    moreover have "handlers_for cs (parent_logger name) = [''default'']"
      using "1.IH" [OF refl refl] "1.prems" None \<open>name \<noteq> []\<close> by simp
    ultimately show ?thesis using None by (simp add: handlers_for.simps [of cs name] Let_def)
  next
    case (Some c)
    then show ?thesis using "1.prems"(1) [of name c] by (simp add: handlers_for.simps [of cs name] Let_def)
  qed
qed

lemma default_loggers:
  "lookup (logger_configs log_level) n = Some c \<Longrightarrow> lg_handlers c = [''default''] \<and> \<not> lg_propagate c"
  "lookup (logger_configs log_level) [] \<noteq> None"
  by (auto simp: logger_configs_def default_logger_def split: if_splits)

lemma level_checked:
  "check_level n l = Inr k \<longleftrightarrow> lookup level_numbers l = Some k"
  by (simp add: check_level_def split: option.splits)

lemma levels_checked: "check_levels (logger_configs l) = Inr () \<longleftrightarrow> lookup level_numbers l \<noteq> None"
  by (simp add: logger_configs_def default_logger_def check_level_def level_numbers_def and_then_def
      split: sum.splits option.splits)

text \<open>
  Every record is logged once. If logging starts at all, the level asked for is, letter for
  letter, one of the standard library's upper-case names, and then a record of any logger,
  configured or not, reaches the one handler exactly once.
\<close>

theorem logs_once:
  assumes "configure_logging bound_logger debug log_level = Inr cfg"
  shows "handlers_for (lc_loggers cfg) name = [''default''] \<and> log_level \<in> set (keys level_numbers)"
proof
  show "handlers_for (lc_loggers cfg) name = [''default'']"
    using assms default_once [OF default_loggers] by (auto simp: configure_logging_def and_then_def split: sum.splits)
  have "lookup level_numbers log_level \<noteq> None"
    using assms levels_checked [of log_level] by (auto simp: configure_logging_def and_then_Inr_iff)
  then show "log_level \<in> set (keys level_numbers)"
    by (auto simp: lookup_def keys_def dest: map_of_SomeD intro: rev_image_eqI)
qed

lemma logs_once_witness:
  "handlers_for (logger_configs ''DEBUG'') ''apps.core.views'' = [''default''] \<and> ''info'' \<notin> set (keys level_numbers)"
proof -
  let ?bound = "case_sum (\<lambda>_. Inr ()) (\<lambda>_. Inl (KeyError []))"
  have "configure_logging ?bound False ''DEBUG'' = Inr
      \<lparr>lc_processors = structlog_processors, lc_renderer = select_renderer False,
       lc_foreign_pre_chain = SHARED_PROCESSORS, lc_cache_logger = True, lc_disable_existing = False,
       lc_handlers = [(''default'', ''logging.StreamHandler'', ''structlog'')],
       lc_loggers = logger_configs ''DEBUG'',
       lc_bound = [(''service'', ''qdrant_rag''), (''version'', ''0.1.0-dev'')]\<rparr>"
    by code_simp
  from logs_once [OF this] show ?thesis by (simp add: keys_def level_numbers_def)
qed

end
