(* ===== verification/Settings.thy ===== *)
theory Settings
  imports Logging
begin

text \<open>
  The settings, \<^verbatim>\<open>config/settings.py\<close>: what each is read from and its default, in the order the
  module reads them, the arguments \<^verbatim>\<open>qdrant_core/client.py\<close> makes the Qdrant client with, and
  the list of middlewares, composed around a view as Django does it. \<open>environ\<close> (django-environ),
  Django's own middlewares and its exception wrapper are parameters.
\<close>

section \<open>The environment\<close>

text \<open>
  A reader of \<open>environ.Env\<close> is given the variable and its default; without a default the variable
  has to be set. \<open>documented\<close> is what django-environ promises of variables that are not set.
\<close>

record environ =
  ev_str :: "string \<Rightarrow> string option \<Rightarrow> exn + string"
  ev_bool :: "string \<Rightarrow> bool option \<Rightarrow> exn + bool"
  ev_int :: "string \<Rightarrow> int option \<Rightarrow> exn + int"
  ev_float :: "string \<Rightarrow> rat option \<Rightarrow> exn + rat"
  ev_list :: "string \<Rightarrow> string list option \<Rightarrow> exn + string list"

definition unset_reads :: "(string \<Rightarrow> 'a option \<Rightarrow> exn + 'a) \<Rightarrow> string \<Rightarrow> bool" where
  "unset_reads get x \<longleftrightarrow> (\<forall>d. get x (Some d) = Inr d) \<and> (\<exists>e. get x None = Inl e)"

definition documented :: "(string \<times> string) list \<Rightarrow> environ \<Rightarrow> bool" where
  "documented vars env \<longleftrightarrow> (\<forall>x. x \<notin> set (keys vars) \<longrightarrow> unset_reads (ev_str env) x \<and> unset_reads (ev_bool env) x \<and>
     unset_reads (ev_int env) x \<and> unset_reads (ev_float env) x \<and> unset_reads (ev_list env) x)"

section \<open>Defaults\<close>

definition bool_defaults :: "(string \<times> bool) list" where
  "bool_defaults = [(''DJANGO_DEBUG'', False), (''QDRANT_PREFER_GRPC'', True), (''BGE_USE_FP16'', True)]"

definition int_defaults :: "(string \<times> int) list" where
  "int_defaults = [(''POSTGRES_PORT'', 5432), (''QDRANT_GRPC_PORT'', 6334), (''QDRANT_HTTP_PORT'', 6333),
     (''BGE_BATCH_SIZE'', 8), (''SEARCH_DEFAULT_TOP_K'', 5), (''SEARCH_MAX_TOP_K'', 20),
     (''SEARCH_PREFETCH_DENSE'', 50), (''SEARCH_PREFETCH_SPARSE'', 50)]"

definition float_defaults :: "(string \<times> rat) list" where
  "float_defaults = [(''SEARCH_THRESHOLD'', 65 / 100), (''SEARCH_RRF_DENSE_WEIGHT'', 3), (''SEARCH_RRF_SPARSE_WEIGHT'', 1)]"

definition str_defaults :: "(string \<times> string) list" where
  "str_defaults = [(''DJANGO_LOG_LEVEL'', ''INFO'')]"

definition list_defaults :: "(string \<times> string list) list" where
  "list_defaults = [(''DJANGO_ALLOWED_HOSTS'', [''localhost'', ''127.0.0.1'', ''web''])]"

definition env_str :: "environ \<Rightarrow> string \<Rightarrow> exn + string" where
  "env_str env x = ev_str env x (lookup str_defaults x)"

definition env_bool :: "environ \<Rightarrow> string \<Rightarrow> exn + bool" where
  "env_bool env x = ev_bool env x (lookup bool_defaults x)"

definition env_int :: "environ \<Rightarrow> string \<Rightarrow> exn + int" where
  "env_int env x = ev_int env x (lookup int_defaults x)"

definition env_float :: "environ \<Rightarrow> string \<Rightarrow> exn + rat" where
  "env_float env x = ev_float env x (lookup float_defaults x)"

definition env_list :: "environ \<Rightarrow> string \<Rightarrow> exn + string list" where
  "env_list env x = ev_list env x (lookup list_defaults x)"

section \<open>What is not read from the environment\<close>

definition INSTALLED_APPS :: "string list" where
  "INSTALLED_APPS = [''django.contrib.admin'', ''django.contrib.auth'', ''django.contrib.contenttypes'',
     ''django.contrib.sessions'', ''django.contrib.messages'', ''django.contrib.staticfiles'', ''rest_framework'',
     ''apps.core'', ''apps.tenants'', ''apps.documents'', ''apps.ingestion'', ''apps.qdrant_core'',
     ''apps.grpc_service'']"

definition MIDDLEWARE :: "string list" where
  "MIDDLEWARE = [''django.middleware.security.SecurityMiddleware'', ''apps.core.middleware.RequestIDMiddleware'',
     ''whitenoise.middleware.WhiteNoiseMiddleware'', ''django.contrib.sessions.middleware.SessionMiddleware'',
     ''django.middleware.common.CommonMiddleware'', ''django.middleware.csrf.CsrfViewMiddleware'',
     ''django.contrib.auth.middleware.AuthenticationMiddleware'',
     ''django.contrib.messages.middleware.MessageMiddleware'',
     ''django.middleware.clickjacking.XFrameOptionsMiddleware'', ''apps.core.middleware.AccessLogMiddleware'']"

definition TEMPLATES :: json where
  "TEMPLATES = JList [JObj [(''BACKEND'', JStr ''django.template.backends.django.DjangoTemplates''), (''DIRS'', JList []),
     (''APP_DIRS'', JBool True), (''OPTIONS'', JObj [(''context_processors'', JList (map JStr
       [''django.template.context_processors.request'', ''django.contrib.auth.context_processors.auth'',
        ''django.contrib.messages.context_processors.messages'']))])]]"

definition AUTH_PASSWORD_VALIDATORS :: json where
  "AUTH_PASSWORD_VALIDATORS = JList (map (\<lambda>n. JObj [(''NAME'', JStr (''django.contrib.auth.password_validation.'' @ n))])
     [''UserAttributeSimilarityValidator'', ''MinimumLengthValidator'', ''CommonPasswordValidator'',
      ''NumericPasswordValidator''])"

definition STATIC_URL :: string where "STATIC_URL = ''/static/''"

definition STORAGES :: json where
  "STORAGES = JObj [(''default'', JObj [(''BACKEND'', JStr ''django.core.files.storage.FileSystemStorage'')]),
     (''staticfiles'', JObj [(''BACKEND'', JStr ''whitenoise.storage.CompressedManifestStaticFilesStorage'')])]"

definition DEFAULT_PERMISSION_CLASSES :: "string list" where
  "DEFAULT_PERMISSION_CLASSES = [''rest_framework.permissions.AllowAny'']"

definition fixed_settings :: "string \<Rightarrow> (string \<times> json) list" where
  "fixed_settings BASE_DIR =
     [(''SECURE_PROXY_SSL_HEADER'', JList [JStr ''HTTP_X_FORWARDED_PROTO'', JStr ''https'']),
      (''INSTALLED_APPS'', JList (map JStr INSTALLED_APPS)), (''MIDDLEWARE'', JList (map JStr MIDDLEWARE)),
      (''ROOT_URLCONF'', JStr ''config.urls''), (''TEMPLATES'', TEMPLATES),
      (''WSGI_APPLICATION'', JStr ''config.wsgi.application''), (''ASGI_APPLICATION'', JStr ''config.asgi.application''),
      (''AUTH_PASSWORD_VALIDATORS'', AUTH_PASSWORD_VALIDATORS), (''LANGUAGE_CODE'', JStr ''en-us''),
      (''TIME_ZONE'', JStr ''UTC''), (''USE_I18N'', JBool True), (''USE_TZ'', JBool True),
      (''STATIC_URL'', JStr STATIC_URL), (''STATIC_ROOT'', JStr (BASE_DIR @ ''/staticfiles'')), (''STORAGES'', STORAGES),
      (''DEFAULT_AUTO_FIELD'', JStr ''django.db.models.BigAutoField''),
      (''REST_FRAMEWORK'', JObj [(''DEFAULT_PERMISSION_CLASSES'', JList (map JStr DEFAULT_PERMISSION_CLASSES))]),
      (''CELERY_TASK_SERIALIZER'', JStr ''json''), (''CELERY_ACCEPT_CONTENT'', JList [JStr ''json'']),
      (''CELERY_TIMEZONE'', JStr ''UTC''), (''LOGGING_CONFIG'', JNull)]"

section \<open>The settings\<close>

record database_config =
  pg_engine :: string
  pg_host :: string
  pg_port :: int
  pg_name :: string
  pg_user :: string
  pg_password :: string
  pg_conn_max_age :: int
  pg_connect_timeout :: int

record qdrant_config =
  qs_host :: string
  qs_grpc_port :: int
  qs_http_port :: int
  qs_prefer_grpc :: bool
  qs_api_key :: string

record bge_config =
  bs_model_name :: string
  bs_cache_dir :: string
  bs_use_fp16 :: bool
  bs_device :: string
  bs_batch_size :: int

record search_config =
  ss_default_top_k :: int
  ss_max_top_k :: int
  ss_threshold :: rat
  ss_prefetch_dense :: int
  ss_prefetch_sparse :: int
  ss_rrf_dense_weight :: rat
  ss_rrf_sparse_weight :: rat

record settings =
  SECRET_KEY :: string
  DEBUG :: bool
  ALLOWED_HOSTS :: "string list"
  CSRF_TRUSTED_ORIGINS :: "string list"
  DATABASES :: database_config
  QDRANT :: qdrant_config
  BGE :: bge_config
  SEARCH :: search_config
  CELERY_BROKER_URL :: string
  CELERY_RESULT_BACKEND :: string
  LOGGING :: logging_config
  FIXED :: "(string \<times> json) list"

definition database_settings :: "environ \<Rightarrow> exn + database_config" where
  "database_settings env =
     and_then (env_str env ''POSTGRES_HOST'') (\<lambda>host.
     and_then (env_int env ''POSTGRES_PORT'') (\<lambda>port.
     and_then (env_str env ''POSTGRES_DB'') (\<lambda>name.
     and_then (env_str env ''POSTGRES_USER'') (\<lambda>user.
     and_then (env_str env ''POSTGRES_PASSWORD'') (\<lambda>password.
     Inr \<lparr>pg_engine = ''django.db.backends.postgresql'', pg_host = host, pg_port = port, pg_name = name, pg_user = user, pg_password = password,
       pg_conn_max_age = 60, pg_connect_timeout = 2\<rparr>)))))"

definition qdrant_settings :: "environ \<Rightarrow> exn + qdrant_config" where
  "qdrant_settings env =
     and_then (env_str env ''QDRANT_HOST'') (\<lambda>host.
     and_then (env_int env ''QDRANT_GRPC_PORT'') (\<lambda>grpc_port.
     and_then (env_int env ''QDRANT_HTTP_PORT'') (\<lambda>http_port.
     and_then (env_bool env ''QDRANT_PREFER_GRPC'') (\<lambda>prefer_grpc.
     and_then (env_str env ''QDRANT_API_KEY'') (\<lambda>api_key.
     Inr \<lparr>qs_host = host, qs_grpc_port = grpc_port, qs_http_port = http_port, qs_prefer_grpc = prefer_grpc,
       qs_api_key = api_key\<rparr>)))))"

definition bge_settings :: "environ \<Rightarrow> exn + bge_config" where
  "bge_settings env =
     and_then (ev_str env ''BGE_MODEL_NAME'' (Some ''BAAI/bge-m3'')) (\<lambda>model_name.
     and_then (ev_str env ''BGE_CACHE_DIR'' (Some ''/app/.cache/bge'')) (\<lambda>cache_dir.
     and_then (env_bool env ''BGE_USE_FP16'') (\<lambda>use_fp16.
     and_then (ev_str env ''BGE_DEVICE'' (Some ''cpu'')) (\<lambda>device.
     and_then (env_int env ''BGE_BATCH_SIZE'') (\<lambda>batch_size.
     Inr \<lparr>bs_model_name = model_name, bs_cache_dir = cache_dir, bs_use_fp16 = use_fp16, bs_device = device,
       bs_batch_size = batch_size\<rparr>)))))"

definition search_settings :: "environ \<Rightarrow> exn + search_config" where
  "search_settings env =
     and_then (env_int env ''SEARCH_DEFAULT_TOP_K'') (\<lambda>default_top_k.
     and_then (env_int env ''SEARCH_MAX_TOP_K'') (\<lambda>max_top_k.
     and_then (env_float env ''SEARCH_THRESHOLD'') (\<lambda>threshold.
     and_then (env_int env ''SEARCH_PREFETCH_DENSE'') (\<lambda>prefetch_dense.
     and_then (env_int env ''SEARCH_PREFETCH_SPARSE'') (\<lambda>prefetch_sparse.
     and_then (env_float env ''SEARCH_RRF_DENSE_WEIGHT'') (\<lambda>dense_weight.
     and_then (env_float env ''SEARCH_RRF_SPARSE_WEIGHT'') (\<lambda>sparse_weight.
     Inr \<lparr>ss_default_top_k = default_top_k, ss_max_top_k = max_top_k, ss_threshold = threshold,
       ss_prefetch_dense = prefetch_dense, ss_prefetch_sparse = prefetch_sparse,
       ss_rrf_dense_weight = dense_weight, ss_rrf_sparse_weight = sparse_weight\<rparr>)))))))"

text \<open>\<open>read_env\<close> is the environment after the file \<^verbatim>\<open>.env\<close>, when there is one.\<close>

definition load_settings ::
  "string \<Rightarrow> (environ \<Rightarrow> environ) option \<Rightarrow> (int + string \<Rightarrow> exn + unit) \<Rightarrow> environ \<Rightarrow> exn + settings" where
  "load_settings BASE_DIR read_env bound_logger env0 = (let env = (case read_env of None \<Rightarrow> env0 | Some f \<Rightarrow> f env0) in
     and_then (env_str env ''DJANGO_SECRET_KEY'') (\<lambda>secret_key.
     and_then (env_bool env ''DJANGO_DEBUG'') (\<lambda>debug.
     and_then (env_list env ''DJANGO_ALLOWED_HOSTS'') (\<lambda>allowed_hosts.
     and_then (ev_list env ''DJANGO_CSRF_TRUSTED_ORIGINS'' (Some [''https://quadrant.bol7.com''])) (\<lambda>origins.
     and_then (database_settings env) (\<lambda>databases.
     and_then (qdrant_settings env) (\<lambda>qdrant.
     and_then (bge_settings env) (\<lambda>bge.
     and_then (search_settings env) (\<lambda>search.
     and_then (env_str env ''REDIS_URL'') (\<lambda>broker.
     and_then (env_str env ''REDIS_URL'') (\<lambda>backend.
     and_then (env_str env ''DJANGO_LOG_LEVEL'') (\<lambda>log_level.
     and_then (configure_logging bound_logger debug log_level) (\<lambda>logging.
     Inr \<lparr>SECRET_KEY = secret_key, DEBUG = debug, ALLOWED_HOSTS = allowed_hosts, CSRF_TRUSTED_ORIGINS = origins,
       DATABASES = databases, QDRANT = qdrant, BGE = bge, SEARCH = search, CELERY_BROKER_URL = broker,
       CELERY_RESULT_BACKEND = backend, LOGGING = logging, FIXED = fixed_settings BASE_DIR\<rparr>)))))))))))))"

section \<open>The Qdrant client\<close>

record client_args =
  ca_host :: string
  ca_grpc_port :: int
  ca_port :: int
  ca_prefer_grpc :: bool
  ca_api_key :: "string option"
  ca_https :: bool
  ca_timeout :: int

definition qdrant_client_args :: "qdrant_config \<Rightarrow> client_args" where
  "qdrant_client_args cfg = \<lparr>ca_host = qs_host cfg, ca_grpc_port = qs_grpc_port cfg, ca_port = qs_http_port cfg,
     ca_prefer_grpc = qs_prefer_grpc cfg, ca_api_key = (if qs_api_key cfg = [] then None else Some (qs_api_key cfg)),
     ca_https = False, ca_timeout = 10\<rparr>"

text \<open>
  \<open>@functools.lru_cache(maxsize=1)\<close> on a function of no arguments: what it made is kept, what it
  raised is not.
\<close>

definition cached :: "('q, 'a) action \<Rightarrow> 'a option \<Rightarrow> ('q, 'a \<times> 'a option) action" where
  "cached build slot = (case slot of Some x \<Rightarrow> return_io (x, Some x)
     | None \<Rightarrow> bind_io build (\<lambda>x. return_io (x, Some x)))"

definition get_qdrant_client ::
  "(client_args \<Rightarrow> ('q, 'c) action) \<Rightarrow> settings \<Rightarrow> 'c option \<Rightarrow> ('q, 'c \<times> 'c option) action" where
  "get_qdrant_client QdrantClient settings = cached (QdrantClient (qdrant_client_args (QDRANT settings)))"

section \<open>The middlewares\<close>

text \<open>
  The chain Django builds of the list, the first name outermost; \<open>wrap\<close> is its
  \<open>convert_exception_to_response\<close>, \<open>third\<close> the middlewares that are not the program's.
\<close>

definition middleware_named ::
  "(string \<Rightarrow> 'q handler \<Rightarrow> 'q handler) \<Rightarrow> 'q env \<Rightarrow> string \<Rightarrow> 'q handler \<Rightarrow> 'q handler" where
  "middleware_named third env name =
     (if name = ''apps.core.middleware.RequestIDMiddleware'' then request_id_middleware env
      else if name = ''apps.core.middleware.AccessLogMiddleware'' then access_log_middleware env
      else third name)"

fun load_middleware ::
  "('q handler \<Rightarrow> 'q handler) \<Rightarrow> (string \<Rightarrow> 'q handler \<Rightarrow> 'q handler) \<Rightarrow> string list \<Rightarrow> 'q handler \<Rightarrow> 'q handler" where
  "load_middleware wrap named [] view = wrap view"
| "load_middleware wrap named (name # names) view = wrap (named name (load_middleware wrap named names view))"

definition application :: "('q handler \<Rightarrow> 'q handler) \<Rightarrow> (string \<Rightarrow> 'q handler \<Rightarrow> 'q handler) \<Rightarrow> 'q env \<Rightarrow>
  'q handler \<Rightarrow> 'q handler" where
  "application wrap third env = load_middleware wrap (middleware_named third env) MIDDLEWARE"

section \<open>What starting promises\<close>

definition required_variables :: "string list" where
  "required_variables = [''DJANGO_SECRET_KEY'', ''POSTGRES_HOST'', ''POSTGRES_DB'', ''POSTGRES_USER'',
     ''POSTGRES_PASSWORD'', ''QDRANT_HOST'', ''QDRANT_API_KEY'', ''REDIS_URL'']"

lemma required_is_set:
  assumes "documented vars env" and "env_str env x = Inr v" and "x \<noteq> ''DJANGO_LOG_LEVEL''"
  shows "x \<in> set (keys vars)"
proof (rule ccontr)
  assume "x \<notin> set (keys vars)"
  then have "\<exists>e. ev_str env x None = Inl e" using assms(1) by (auto simp: documented_def unset_reads_def)
  then show False using assms(2,3) by (auto simp: env_str_def str_defaults_def)
qed

lemma unset_bool:
  assumes "documented vars env" and "x \<notin> set (keys vars)" and "lookup bool_defaults x = Some d"
  shows "env_bool env x = Inr d"
  using assms by (auto simp: documented_def unset_reads_def env_bool_def)

lemmas settings_groups = database_settings_def qdrant_settings_def bge_settings_def search_settings_def

lemma database_variables:
  "database_settings env = Inr d \<Longrightarrow> x \<in> {''POSTGRES_HOST'', ''POSTGRES_DB'', ''POSTGRES_USER'', ''POSTGRES_PASSWORD''} \<Longrightarrow>
     \<exists>v. env_str env x = Inr v"
  by (auto simp: database_settings_def and_then_Inr_iff)

lemma qdrant_variables:
  "qdrant_settings env = Inr q \<Longrightarrow> x \<in> {''QDRANT_HOST'', ''QDRANT_API_KEY''} \<Longrightarrow> \<exists>v. env_str env x = Inr v"
  by (auto simp: qdrant_settings_def and_then_Inr_iff)

lemma required_read:
  assumes "load_settings base None bound_logger env = Inr s" and "x \<in> set required_variables"
  shows "\<exists>v. env_str env x = Inr v"
proof -
  obtain d q where "database_settings env = Inr d" "qdrant_settings env = Inr q"
    "\<exists>v. env_str env ''DJANGO_SECRET_KEY'' = Inr v" "\<exists>v. env_str env ''REDIS_URL'' = Inr v"
    using assms(1) by (auto simp: load_settings_def Let_def and_then_Inr_iff)
  then show ?thesis using assms(2) database_variables qdrant_variables
    unfolding required_variables_def list.set by blast
qed

lemma load_settings_logging:
  "load_settings base None bound_logger env = Inr s \<Longrightarrow> \<exists>level.
     env_bool env ''DJANGO_DEBUG'' = Inr (DEBUG s) \<and> configure_logging bound_logger (DEBUG s) level = Inr (LOGGING s)"
  by (auto simp: load_settings_def Let_def and_then_Inr_iff)

lemma configured_renderer:
  "configure_logging bound_logger debug level = Inr cfg \<Longrightarrow> lc_renderer cfg = select_renderer debug"
  by (auto simp: configure_logging_def and_then_Inr_iff)


section \<open>One line in the access log\<close>

text \<open>
  A middleware that calls the next handler at most once and writes no access log: what it logs
  is what one such call logs, or nothing.
\<close>

definition log_after :: "'q handler \<Rightarrow> request \<Rightarrow> 'q world \<Rightarrow> access_entry list" where
  "log_after g rq w = w_access_log (snd (g rq w))"

definition passes_on :: "('q handler \<Rightarrow> 'q handler) \<Rightarrow> bool" where
  "passes_on m \<longleftrightarrow> (\<forall>g rq w. log_after (m g) rq w = w_access_log w \<or>
     (\<exists>rq' w'. w_access_log w' = w_access_log w \<and> log_after (m g) rq w = log_after g rq' w'))"

text \<open>A handler that logs at most \<open>n\<close> lines.\<close>

definition logs_at_most :: "nat \<Rightarrow> 'q handler \<Rightarrow> bool" where
  "logs_at_most n g \<longleftrightarrow> (\<forall>rq w. \<exists>es. log_after g rq w = w_access_log w @ es \<and> length es \<le> n)"

lemma passes_on_id [simp]: "passes_on (\<lambda>g. g)"
  by (auto simp: passes_on_def)

lemma passes_on_logs: "passes_on m \<Longrightarrow> logs_at_most n g \<Longrightarrow> logs_at_most n (m g)"
  unfolding passes_on_def logs_at_most_def by (metis append_Nil2 le0 list.size(3))

lemma request_id_passes_on: "passes_on (request_id_middleware env)"
  unfolding passes_on_def
proof (intro allI)
  fix g rq w
  show "log_after (request_id_middleware env g) rq w = w_access_log w \<or>
     (\<exists>rq' w'. w_access_log w' = w_access_log w \<and> log_after (request_id_middleware env g) rq w = log_after g rq' w')"
  proof (cases "excluded REQUESTID_EXCLUDED_PATHS rq")
    case True
    then have "log_after (request_id_middleware env g) rq w = log_after g rq w"
      by (simp add: request_id_middleware_def log_after_def)
    then show ?thesis by blast
  next
    case False
    obtain r w1 where run: "g rq (request_scope env rq w) = (r, w1)" by force
    with request_id_middleware_run [where g = g and env = env, OF False run]
    have "log_after (request_id_middleware env g) rq w = log_after g rq (request_scope env rq w)"
      by (simp add: log_after_def)
    then show ?thesis by (metis request_scope_simps(1))
  qed
qed

lemma access_log_logs: "logs_at_most n g \<Longrightarrow> logs_at_most (Suc n) (access_log_middleware env g)"
  unfolding logs_at_most_def
proof (intro allI)
  fix rq w
  assume inner: "\<forall>rq w. \<exists>es. log_after g rq w = w_access_log w @ es \<and> length es \<le> n"
  show "\<exists>es. log_after (access_log_middleware env g) rq w = w_access_log w @ es \<and> length es \<le> Suc n"
  proof (cases "excluded ACCESSLOG_EXCLUDED_PATHS rq")
    case True
    then have "log_after (access_log_middleware env g) rq w = log_after g rq w"
      by (simp add: access_log_middleware_def log_after_def)
    then show ?thesis using inner by (metis le_SucI)
  next
    case False
    let ?w0 = "pass_time env 0 (w\<lparr>w_phases := Some []\<rparr>)"
    obtain r w1 where run: "g rq ?w0 = (r, w1)" by force
    obtain es where es: "w_access_log w1 = w_access_log w @ es" "length es \<le> n"
      using inner [rule_format, of rq ?w0] run by (auto simp: log_after_def)
    have "log_after (access_log_middleware env g) rq w =
        w_access_log (snd (finish_request env rq (seconds (w_clock (pass_time env 0 w))) (status_of r) w1))"
      using access_log_middleware_run [where g = g and env = env, OF False run] by (simp add: log_after_def)
    also have "\<dots> = w_access_log w @ es @ [access_entry_of rq (status_of r)
        ((seconds (w_clock (pass_time env 0 w1)) - seconds (w_clock (pass_time env 0 w))) * 1000)
        (or_default [] (w_phases w1)) (w_context w1)]"
      by (simp add: finish_request_run Let_def es)
    finally show ?thesis using es(2) by (intro exI conjI) (assumption, simp)
  qed
qed

lemma stack_logs:
  assumes "passes_on wrap" and "\<And>name. passes_on (third name)" and "logs_at_most 0 view"
  shows "logs_at_most (count_list names ''apps.core.middleware.AccessLogMiddleware'')
    (load_middleware wrap (middleware_named third env) names view)"
proof (induction names)
  case Nil
  then show ?case using passes_on_logs [OF assms(1,3)] by simp
next
  case (Cons name names)
  let ?k = "count_list (name # names) ''apps.core.middleware.AccessLogMiddleware''"
  let ?inner = "load_middleware wrap (middleware_named third env) names view"
  have "logs_at_most ?k (middleware_named third env name ?inner)"
  proof (cases "name = ''apps.core.middleware.AccessLogMiddleware''")
    case True
    then have "middleware_named third env name = access_log_middleware env" by (simp add: middleware_named_def)
    then show ?thesis using access_log_logs [OF Cons] True by simp
  next
    case False
    then have "passes_on (middleware_named third env name)"
      by (simp add: middleware_named_def request_id_passes_on assms(2))
    from passes_on_logs [OF this Cons] False show ?thesis by simp
  qed
  then show ?case using passes_on_logs [OF assms(1)] by simp
qed


lemma application_bare: "application (\<lambda>g. g) (\<lambda>_ g. g) env view = observed env view"
  by (simp add: application_def MIDDLEWARE_def middleware_named_def observed_def)

end
