(* ===== verification/VerifySetup.thy ===== *)
theory VerifySetup
  imports Settings Health LoadTest
begin

text \<open>
  The setup check, \<^verbatim>\<open>scripts/verify_setup.py\<close>: the two probes it always makes, and with
  \<^verbatim>\<open>--full\<close> the round trip of a collection on the code of \<open>Collection\<close>, the embedding of one
  sentence and a search over gRPC that has to be refused. Postgres, the client it makes itself,
  \<open>django.setup\<close>, the clock and the gRPC channel are the fields of a \<open>site\<close>. What is printed
  on the way is left out; the line that reports a failure is the result.
\<close>

section \<open>The site\<close>

record pg_args =
  pa_host :: string
  pa_port :: int
  pa_dbname :: string
  pa_user :: string
  pa_password :: string
  pa_connect_timeout :: int

record 'q site =
  si_environ :: environ
  si_variable :: "string \<Rightarrow> string option"
  si_django_setup :: "('q, unit) action"
  si_time :: "('q, nat) action"
  si_connect :: "pg_args \<Rightarrow> ('q, unit) action"
  si_select_1 :: "('q, unit) action"
  si_list_collections :: "client_args \<Rightarrow> ('q, unit) action"
  si_channel_ready :: "string \<Rightarrow> ('q, bool) action"
  si_health_check :: "('q, fields rpc_outcome) action"
  si_search :: "search_call \<Rightarrow> ('q, search_reply rpc_outcome) action"

type_synonym check = "bool \<times> string"

definition verify_int_defaults :: "(string \<times> int) list" where
  "verify_int_defaults = [(''POSTGRES_PORT'', 5432), (''QDRANT_GRPC_PORT'', 6334), (''QDRANT_HTTP_PORT'', 6333)]"

definition verify_bool_defaults :: "(string \<times> bool) list" where
  "verify_bool_defaults = [(''QDRANT_PREFER_GRPC'', True)]"

definition site_str :: "'q site \<Rightarrow> string \<Rightarrow> exn + string" where
  "site_str site x = ev_str (si_environ site) x None"

definition site_int :: "'q site \<Rightarrow> string \<Rightarrow> exn + int" where
  "site_int site x = ev_int (si_environ site) x (lookup verify_int_defaults x)"

definition site_bool :: "'q site \<Rightarrow> string \<Rightarrow> exn + bool" where
  "site_bool site x = ev_bool (si_environ site) x (lookup verify_bool_defaults x)"

text \<open>The body of a check inside its \<open>try\<close>, and what the \<open>except Exception\<close> makes of a raise.\<close>

definition guarded :: "('q, check) action \<Rightarrow> ('q, check) action" where
  "guarded body = try_io body (\<lambda>exc. return_io (False, exn_error exc))"

definition fine :: check where "fine = (True, ''ok'')"

section \<open>The two probes\<close>

definition postgres_args :: "'q site \<Rightarrow> exn + pg_args" where
  "postgres_args site =
     and_then (site_str site ''POSTGRES_HOST'') (\<lambda>host.
     and_then (site_int site ''POSTGRES_PORT'') (\<lambda>port.
     and_then (site_str site ''POSTGRES_DB'') (\<lambda>dbname.
     and_then (site_str site ''POSTGRES_USER'') (\<lambda>user.
     and_then (site_str site ''POSTGRES_PASSWORD'') (\<lambda>password.
     Inr \<lparr>pa_host = host, pa_port = port, pa_dbname = dbname, pa_user = user, pa_password = password,
       pa_connect_timeout = 5\<rparr>)))))"

definition check_postgres :: "'q site \<Rightarrow> ('q, check) action" where
  "check_postgres site = guarded (
     bind_io (of_sum (postgres_args site)) (\<lambda>args.
     seq_io (si_connect site args)
    (seq_io (si_select_1 site)
    (return_io fine))))"

definition verify_client_args :: "'q site \<Rightarrow> exn + client_args" where
  "verify_client_args site =
     and_then (site_str site ''QDRANT_HOST'') (\<lambda>host.
     and_then (site_int site ''QDRANT_GRPC_PORT'') (\<lambda>grpc_port.
     and_then (site_int site ''QDRANT_HTTP_PORT'') (\<lambda>port.
     and_then (site_bool site ''QDRANT_PREFER_GRPC'') (\<lambda>prefer_grpc.
     and_then (site_str site ''QDRANT_API_KEY'') (\<lambda>api_key.
     Inr \<lparr>ca_host = host, ca_grpc_port = grpc_port, ca_port = port, ca_prefer_grpc = prefer_grpc,
       ca_api_key = (if api_key = [] then None else Some api_key), ca_https = False, ca_timeout = 5\<rparr>)))))"

definition check_qdrant :: "'q site \<Rightarrow> ('q, check) action" where
  "check_qdrant site = guarded (
     bind_io (of_sum (verify_client_args site)) (\<lambda>args.
     seq_io (si_list_collections site args)
    (return_io fine)))"

section \<open>The round trip of a collection\<close>

definition verify_tenant :: "nat \<Rightarrow> string" where
  "verify_tenant now = ''verify_'' @ show_nat now"

definition verify_point :: "string \<Rightarrow> string \<Rightarrow> string \<Rightarrow> point" where
  "verify_point pid test_tenant test_doc_id = \<lparr>p_id = pid, p_dense = replicate 1024 0,
     p_bm25 = \<lparr>indices = [0], sparse_values = [1 / 10]\<rparr>, p_colbert = [replicate 1024 0],
     p_payload = [(''doc_id'', JStr test_doc_id), (''tenant_id'', JStr test_tenant), (''bot_id'', JStr ''rt0''),
       (''is_active'', JBool True), (''source_type'', JStr ''verify''), (''tags'', JList [JStr ''verify'']),
       (''category'', JStr ''verify''), (''language'', JStr ''en''), (''source_url'', JStr ''verify://'')]\<rparr>"

definition insert_and_delete :: "'q env \<Rightarrow> string \<Rightarrow> string \<Rightarrow> string \<Rightarrow> ('q, check) action" where
  "insert_and_delete env name test_tenant test_doc_id =
     bind_io (tick (e_uuid4 env)) (\<lambda>pid.
     seq_io (on_store (upsert_points (e_client env) name [verify_point pid test_tenant test_doc_id]))
    (bind_io (on_store (delete_by_doc_id (e_client env) test_tenant ''rt0'' test_doc_id)) (\<lambda>deleted.
     return_io (if deleted \<noteq> 1 then (False, ''expected to delete 1 point, deleted '' @ show_nat deleted)
       else fine))))"

definition drop_test_collection :: "'q env \<Rightarrow> string \<Rightarrow> ('q, unit) action" where
  "drop_test_collection env test_tenant =
     try_io (seq_io (on_store (drop_collection (e_client env) test_tenant ''rt0'')) (return_io ())) (\<lambda>exc. return_io ())"

definition roundtrip_qdrant_collection :: "'q env \<Rightarrow> 'q site \<Rightarrow> ('q, check) action" where
  "roundtrip_qdrant_collection env site =
     seq_io (si_django_setup site)
    (bind_io (si_time site) (\<lambda>now.
     bind_io (tick (e_uuid4 env)) (\<lambda>test_doc_id.
     bind_io (on_store (create_collection_for_bot (e_client env) (verify_tenant now) ''rt0'')) (\<lambda>name.
     finally_io (insert_and_delete env name (verify_tenant now) test_doc_id)
       (drop_test_collection env (verify_tenant now))))))"

section \<open>The embedder\<close>

text \<open>The inner dimension of the ColBERT vectors is read off the first row.\<close>

definition embedding_check :: "embeddings \<Rightarrow> exn + check" where
  "embedding_check out =
     and_then (py_head (dense out)) (\<lambda>d.
     and_then (py_head (sparse out)) (\<lambda>s.
     and_then (py_head (colbert out)) (\<lambda>c.
     let colbert_inner = (case c of [] \<Rightarrow> 0 | row # _ \<Rightarrow> length row) in
     Inr (if length d \<noteq> DENSE_DIM then
            (False, ''dense dim mismatch: got '' @ show_nat (length d) @ '', want '' @ show_nat DENSE_DIM)
          else if s = [] then (False, ''sparse must be non-empty dict, got dict'')
          else if colbert_inner \<noteq> COLBERT_DIM then
            (False, ''colbert inner dim: got '' @ show_nat colbert_inner @ '', want '' @ show_nat COLBERT_DIM)
          else fine))))"

definition warmup_embedder :: "'q env \<Rightarrow> 'q site \<Rightarrow> ('q, check) action" where
  "warmup_embedder env site = guarded (
     seq_io (si_django_setup site)
    (bind_io (embed_batch env [''A short sentence to verify embeddings produce all three vectors.'']) (\<lambda>out.
     of_sum (embedding_check out))))"

section \<open>The search\<close>

text \<open>What a client of grpc sees of a call: the code it was aborted with, UNKNOWN for a raise.\<close>

definition seen_code :: "('q, 'a rpc_outcome) action \<Rightarrow> ('q, grpc_code) action" where
  "seen_code call = bind_io (attempt_io call) (\<lambda>outcome. return_io (case outcome of
     Inl e \<Rightarrow> UNKNOWN | Inr (Inl (code, text)) \<Rightarrow> code | Inr (Inr reply) \<Rightarrow> OK))"

definition empty_search :: search_call where
  "empty_search = \<lparr>gs_tenant_id = ''x123'', gs_bot_id = ''y456'', gs_query = [], gs_top_k = 0,
     gs_filters = \<lparr>gf_source_types = [], gf_tags = [], gf_category = [], gf_only_active = True\<rparr>\<rparr>"

definition search_verdict :: "grpc_code \<Rightarrow> check" where
  "search_verdict code = (if code = OK then (False, ''expected INVALID_ARGUMENT for empty query, got OK'')
     else if code \<noteq> INVALID_ARGUMENT then (False, ''expected INVALID_ARGUMENT, got '' @ code_name code)
     else fine)"

definition search_roundtrip :: "'q site \<Rightarrow> ('q, check) action" where
  "search_roundtrip site = guarded (
     bind_io (of_sum (py_int (or_default ''50051'' (si_variable site ''GRPC_PORT'')))) (\<lambda>port.
     let addr = or_default ''localhost'' (si_variable site ''GRPC_HOST'') @ '':'' @ show_int port in
     bind_io (si_channel_ready site addr) (\<lambda>ready.
     if \<not> ready then return_io (False, ''gRPC channel not ready at '' @ addr @ '' within 5s'')
     else bind_io (seen_code (si_health_check site)) (\<lambda>health.
       if health \<noteq> OK then raise_io (RpcError ''_InactiveRpcError'' (Some health) [])
       else bind_io (seen_code (si_search site empty_search)) (\<lambda>code. return_io (search_verdict code))))))"

section \<open>The script\<close>

text \<open>
  The exit code, and on a failure the subsystem and the message of the line
  \<^verbatim>\<open>[verify_setup] FAIL <subsystem>: <message>\<close>. \<open>run_checks\<close> is the chain of the \<open>if not ok\<close>.
\<close>

fun run_checks :: "(string \<times> ('q, check) action) list \<Rightarrow> ('q, nat \<times> (string \<times> string) option) action" where
  "run_checks [] = return_io (0, None)"
| "run_checks ((subsystem, check) # rest) = bind_io check (\<lambda>(ok, msg).
     if \<not> ok then return_io (1, Some (subsystem, msg)) else run_checks rest)"

definition verify_main :: "'q env \<Rightarrow> 'q site \<Rightarrow> bool \<Rightarrow> ('q, nat \<times> (string \<times> string) option) action" where
  "verify_main env site full = run_checks (
     [(''postgres'', check_postgres site), (''qdrant'', check_qdrant site)] @
     (if full then [(''roundtrip'', roundtrip_qdrant_collection env site),
        (''embedder'', warmup_embedder env site), (''search'', search_roundtrip site)] else []))"

section \<open>What the check reports\<close>

lemma guarded_returns: "\<exists>r w'. guarded body w = (Inr r, w')"
  by (auto simp: guarded_def try_io_def return_io_def split: prod.split sum.split)

lemma run_checks_reports:
  assumes "run_checks cs w = (r, w')"
  shows "case r of Inr (code, line) \<Rightarrow> code = (if line = None then 0 else 1)
     | Inl e \<Rightarrow> (\<exists>(subsystem, c) \<in> set cs. \<exists>w1 w2. c w1 = (Inl e, w2))"
  using assms
proof (induction cs arbitrary: w)
  case Nil
  then show ?case by auto
next
  case (Cons c cs)
  obtain subsystem check where c: "c = (subsystem, check)" by force
  obtain res w1 where first: "check w = (res, w1)" by force
  show ?case
  proof (cases res)
    case (Inl e)
    with Cons.prems first c have "check w = (Inl e, w')" and r: "r = Inl e" by (auto simp: bind_io_def)
    then have "\<exists>w1 w2. check w1 = (Inl e, w2)" by blast
    then show ?thesis by (simp add: c r)
  next
    case (Inr okmsg)
    obtain ok msg where "okmsg = (ok, msg)" by force
    with Cons.prems first c Inr have "if ok then run_checks cs w1 = (r, w') else r = Inr (1, Some (subsystem, msg))"
      by (auto simp: bind_io_def split: if_splits)
    then show ?thesis using Cons.IH [of w1] by (cases ok) (auto split: sum.splits)
  qed
qed

text \<open>
  The script exits with 0 exactly if it names no failed subsystem, and the only exceptions that
  leave it without such a line are those of the collection round trip, which has no handler.
\<close>

lemma setup_check_reports:
  assumes "verify_main env site full w = (r, w')"
  shows "case r of Inr (code, line) \<Rightarrow> code = (if line = None then 0 else 1)
     | Inl e \<Rightarrow> full \<and> (\<exists>w1 w2. roundtrip_qdrant_collection env site w1 = (Inl e, w2))"
proof (cases r)
  case (Inl e)
  have "guarded body w1 \<noteq> (Inl e, w2)" for body :: "('a, check) action" and w1 w2
    using guarded_returns [of body w1] by auto
  with Inl run_checks_reports [OF assms [unfolded verify_main_def]] show ?thesis
    by (auto simp: check_postgres_def check_qdrant_def warmup_embedder_def search_roundtrip_def split: if_splits)
qed (use run_checks_reports [OF assms [unfolded verify_main_def]] in auto)

section \<open>Other collections\<close>

lemma keeps_prod: "(\<And>a b. keeps I (g a b)) \<Longrightarrow> keeps I (case x of (a, b) \<Rightarrow> g a b)"
  by (cases x) simp

lemma keeps_bind_when:
  assumes "keeps I x" and "\<And>y s t. x s = (Inr y, t) \<Longrightarrow> keeps I (k y)"
  shows "keeps I (bind_io x k)"
  using assms by (fastforce simp: bind_io_def intro!: keepsI dest: keepsD split: prod.splits sum.splits)

context qdrant_api
begin

lemma keeps_elsewhere_reads: "frame view x \<Longrightarrow> keeps (\<lambda>q. view q m = v) x"
  by (rule keeps_frame [where f = view and J = "\<lambda>u. u m = v"]) simp_all

lemma keeps_elsewhere_calls:
  assumes "n \<noteq> m"
  shows "keeps (\<lambda>q. view q m = v) (create_collection client n vs ss)"
    and "keeps (\<lambda>q. view q m = v) (create_payload_index client n k sc)"
    and "keeps (\<lambda>q. view q m = v) (delete_points client n f)"
    and "keeps (\<lambda>q. view q m = v) (upsert_points client n ps)"
    and "keeps (\<lambda>q. view q m = v) (delete_collection client n)"
  using assms by (auto intro!: keepsI dest!: create_law index_law delete_law upsert_law drop_law)

lemmas keeps_elsewhere_steps = keeps_retried keeps_bind keeps_seq keeps_for keeps_if keeps_return keeps_prod
  keeps_elsewhere_calls keeps_elsewhere_reads frame_view_reads

lemma keeps_elsewhere:
  assumes "collection_name t b = Inr n" and "n \<noteq> m"
  shows "keeps (\<lambda>q. view q m = v) (create_collection_for_bot client t b)"
    and "keeps (\<lambda>q. view q m = v) (delete_by_doc_id client t b d)"
    and "keeps (\<lambda>q. view q m = v) (drop_collection client t b)"
  unfolding create_collection_for_bot_def delete_by_doc_id_def drop_collection_def assms(1) of_sum_Inr bind_io_return
  by (intro keeps_elsewhere_steps assms(2))+

lemma keeps_elsewhere_create:
  assumes "collection_name t b \<noteq> Inr m"
  shows "keeps (\<lambda>q. view q m = v) (create_collection_for_bot client t b)"
proof (cases "collection_name t b")
  case (Inl e)
  then show ?thesis unfolding create_collection_for_bot_def by (auto intro: keeps_intro)
next
  case (Inr n)
  with assms show ?thesis by (intro keeps_elsewhere) auto
qed

end

lemma keeps_on_store: "keeps I x \<Longrightarrow> keeps (\<lambda>w. I (w_store w)) (on_store x)"
  by (rule keepsI) (auto elim!: on_storeE dest: keepsD)

lemma keeps_run_checks: "(\<And>n c. (n, c) \<in> set cs \<Longrightarrow> keeps I c) \<Longrightarrow> keeps I (run_checks cs)"
proof (induction cs)
  case (Cons nc cs)
  obtain n c where nc: "nc = (n, c)" by force
  show ?case unfolding nc run_checks.simps
    by (intro keeps_bind keeps_prod keeps_if keeps_return) (use Cons nc in auto)
qed (simp add: keeps_return)

text \<open>The actions of a site keep what holds of the world.\<close>

definition site_keeps :: "('q world \<Rightarrow> bool) \<Rightarrow> 'q site \<Rightarrow> bool" where
  "site_keeps I site \<longleftrightarrow> keeps I (si_django_setup site) \<and> keeps I (si_time site) \<and>
     (\<forall>a. keeps I (si_connect site a)) \<and> keeps I (si_select_1 site) \<and> (\<forall>a. keeps I (si_list_collections site a)) \<and>
     (\<forall>a. keeps I (si_channel_ready site a)) \<and> keeps I (si_health_check site) \<and> (\<forall>c. keeps I (si_search site c))"

lemma site_keepsD:
  assumes "site_keeps I site"
  shows "keeps I (si_django_setup site)" "keeps I (si_time site)" "keeps I (si_connect site a)"
    "keeps I (si_select_1 site)" "keeps I (si_list_collections site b)" "keeps I (si_channel_ready site c)"
    "keeps I (si_health_check site)" "keeps I (si_search site d)"
  using assms by (simp_all add: site_keeps_def)

lemma keeps_seen_code: "keeps I call \<Longrightarrow> keeps I (seen_code call)"
  unfolding seen_code_def by (intro keeps_intro) (auto simp: keeps_def attempt_io_def split: prod.split)

lemma keeps_guarded: "keeps I body \<Longrightarrow> keeps I (guarded body)"
  unfolding guarded_def by (intro keeps_intro)

lemma keeps_probes:
  assumes "site_keeps I site"
  shows "keeps I (check_postgres site)" and "keeps I (check_qdrant site)" and "keeps I (search_roundtrip site)"
proof -
  note steps = keeps_guarded keeps_intro keeps_seen_code site_keepsD [OF assms]
  show "keeps I (check_postgres site)" unfolding check_postgres_def by (intro steps)
  show "keeps I (check_qdrant site)" unfolding check_qdrant_def by (intro steps)
  show "keeps I (search_roundtrip site)" unfolding search_roundtrip_def Let_def by (intro steps)
qed

lemma keeps_roundtrip:
  assumes api: "qdrant_api (e_client env) view" and other: "\<And>now. collection_name (verify_tenant now) ''rt0'' \<noteq> Inr m"
    and site: "site_keeps (\<lambda>w. view (w_store w) m = v) site"
  shows "keeps (\<lambda>w. view (w_store w) m = v) (roundtrip_qdrant_collection env site)"
proof -
  let ?I = "\<lambda>w. view (w_store w) m = v"
  have tick: "keeps ?I (tick f)" for f :: "nat \<Rightarrow> string" by (rule keepsI) auto
  have inner: "keeps ?I (insert_and_delete env n (verify_tenant now) d)" "keeps ?I (drop_test_collection env (verify_tenant now))"
    if n: "collection_name (verify_tenant now) ''rt0'' = Inr n" for now n d
  proof -
    from other [of now] n have nm: "n \<noteq> m" by auto
    note calls = qdrant_api.keeps_elsewhere [OF api n nm, THEN keeps_on_store]
      qdrant_api.keeps_elsewhere_calls [OF api nm, THEN keeps_on_store]
    show "keeps ?I (insert_and_delete env n (verify_tenant now) d)"
      unfolding insert_and_delete_def by (intro keeps_bind keeps_seq keeps_return tick calls)
    show "keeps ?I (drop_test_collection env (verify_tenant now))"
      unfolding drop_test_collection_def by (intro keeps_try keeps_seq keeps_return calls)
  qed
  have named: "collection_name (verify_tenant now) ''rt0'' = Inr n"
    if "on_store (create_collection_for_bot (e_client env) (verify_tenant now) ''rt0'') s = (Inr n, t)" for now n s t
    using that by (auto elim!: on_storeE dest: create_collection_for_bot_name)
  show ?thesis
    unfolding roundtrip_qdrant_collection_def
    by (rule keeps_seq, rule site_keepsD [OF site], rule keeps_bind, rule site_keepsD [OF site], rule keeps_bind,
        rule tick, rule keeps_bind_when)
      (auto intro!: keeps_finally inner dest!: named
        intro: keeps_on_store qdrant_api.keeps_elsewhere_create [OF api other])
qed

text \<open>
  C36 (what the setup check does and says). It exits with 0 exactly if it names no failed
  subsystem; an exception leaves it only with \<^verbatim>\<open>--full\<close>, out of the collection round trip; and
  however it ends, every collection that is not its own is as it was.
\<close>

theorem setup_check_correct:
  assumes api: "qdrant_api (e_client env) view" and other: "\<And>now. collection_name (verify_tenant now) ''rt0'' \<noteq> Inr m"
    and site: "site_keeps (\<lambda>w'. view (w_store w') m = view (w_store w) m) site"
    and run: "verify_main env site full w = (r, w')"
  shows "view (w_store w') m = view (w_store w) m \<and>
    (case r of Inr (code, line) \<Rightarrow> code = (if line = None then 0 else 1)
     | Inl e \<Rightarrow> full \<and> (\<exists>w1 w2. roundtrip_qdrant_collection env site w1 = (Inl e, w2)))"
proof
  let ?I = "\<lambda>w'. view (w_store w') m = view (w_store w) m"
  have "keeps ?I (embed_batch env ts)" for ts
    by (rule keepsI) (auto simp: embed_batch_def bind_io_def split: prod.splits)
  then have "keeps ?I (warmup_embedder env site)"
    unfolding warmup_embedder_def by (intro keeps_guarded keeps_intro site_keepsD [OF site])
  with keeps_probes [OF site] keeps_roundtrip [OF api other site]
  have "keeps ?I (verify_main env site full)"
    unfolding verify_main_def by (intro keeps_run_checks) (auto split: if_splits)
  from keepsD [OF this refl run] show "view (w_store w') m = view (w_store w) m" .
qed (rule setup_check_reports [OF run])

text \<open>Against the service itself the search check passes: the empty query is refused as it wants.\<close>

lemma empty_search_refused:
  "\<exists>w'. seen_code (Search_rpc env pb empty_search) w = (Inr INVALID_ARGUMENT, w')"
proof -
  have "path_identifiers ''x123'' ''y456'' = Inr (''x123'', ''y456'')" by code_simp
  moreover have "py_strip [] = []" by code_simp
  ultimately have "search_handler env pb empty_search = abort INVALID_ARGUMENT ''Query must be non-empty.''"
    by (simp add: search_handler_def empty_search_def Let_def)
  then show ?thesis
    by (simp add: seen_code_def Search_rpc_def record_metrics_run Let_def bind_io_def attempt_io_run abort_def)
qed

lemma search_check_passes:
  assumes "py_int (or_default ''50051'' (si_variable site ''GRPC_PORT'')) = Inr port"
    and ready: "\<And>addr w. \<exists>w'. si_channel_ready site addr w = (Inr True, w')"
    and health: "\<And>w. \<exists>w'. seen_code (si_health_check site) w = (Inr OK, w')" and "si_search site = Search_rpc env pb"
  shows "\<exists>w'. search_roundtrip site w = (Inr fine, w')"
proof -
  let ?addr = "or_default ''localhost'' (si_variable site ''GRPC_HOST'') @ '':'' @ show_int port"
  from ready obtain w1 where "si_channel_ready site ?addr w = (Inr True, w1)" by blast
  moreover from health obtain w2 where "seen_code (si_health_check site) w1 = (Inr OK, w2)" by blast
  moreover from empty_search_refused obtain w3 where
    "seen_code (Search_rpc env pb empty_search) w2 = (Inr INVALID_ARGUMENT, w3)" by blast
  ultimately show ?thesis using assms(1,4)
    by (simp add: search_roundtrip_def guarded_def try_io_def bind_io_def Let_def search_verdict_def)
qed

end
