(* ===== verification/Server.thy ===== *)
theory Server
  imports Health
begin

text \<open>
  The gRPC server process, \<^verbatim>\<open>apps/grpc_service/server.py\<close>: \<open>serve\<close> reads its settings, builds a
  server on a thread pool, binds its port, installs the signal handlers and starts; \<open>shutdown\<close>
  is what those handlers do. What grpc knows of the server is the record \<open>grpc_server\<close>; binding
  a port and the reflection package are of the host.
\<close>

section \<open>The host and the server\<close>

text \<open>
  \<open>ho_bind\<close> is the port \<open>add_insecure_port\<close> answers with, 0 if it could not bind;
  \<open>ho_reflection\<close> is the name of the reflection service, \<open>None\<close> if the package is not installed.
\<close>

record host =
  ho_environ :: "string \<Rightarrow> string option"
  ho_bind :: "string \<Rightarrow> int"
  ho_reflection :: "string option"
  ho_vector_search :: string

datatype signal = SIGTERM | SIGINT

record grpc_server =
  sv_workers :: "int option"
  sv_servicers :: "string list"
  sv_reflection :: "string list"
  sv_port :: "int option"
  sv_handled :: "signal list"
  sv_started :: bool
  sv_stopped :: "int option"
  sv_log :: "string list"

definition no_server :: grpc_server where
  "no_server = \<lparr>sv_workers = None, sv_servicers = [], sv_reflection = [], sv_port = None, sv_handled = [],
     sv_started = False, sv_stopped = None, sv_log = []\<rparr>"

definition server_log :: "string \<Rightarrow> (grpc_server, unit) prog" where
  "server_log event = modify_io (\<lambda>s. s\<lparr>sv_log := sv_log s @ [event]\<rparr>)"

section \<open>Starting\<close>

definition DEFAULT_PORT :: int where "DEFAULT_PORT = 50051"
definition DEFAULT_MAX_WORKERS :: int where "DEFAULT_MAX_WORKERS = 10"
definition DEFAULT_GRACEFUL_SHUTDOWN_S :: int where "DEFAULT_GRACEFUL_SHUTDOWN_S = 10"

text \<open>\<open>int(os.environ.get(name, default))\<close>\<close>

definition int_variable :: "host \<Rightarrow> string \<Rightarrow> int \<Rightarrow> exn + int" where
  "int_variable host name d = (case ho_environ host name of None \<Rightarrow> Inr d | Some s \<Rightarrow> py_int s)"

definition grace_seconds :: "host \<Rightarrow> exn + int" where
  "grace_seconds host = int_variable host ''GRPC_SHUTDOWN_GRACE_SECONDS'' DEFAULT_GRACEFUL_SHUTDOWN_S"

text \<open>\<open>grpc.server(ThreadPoolExecutor(max_workers=n))\<close>\<close>

definition new_server :: "int \<Rightarrow> (grpc_server, unit) prog" where
  "new_server n = (if n \<le> 0 then raise_io (ValueError ''max_workers must be greater than 0'')
     else modify_io (\<lambda>s. s\<lparr>sv_workers := Some n\<rparr>))"

definition add_servicer :: "string \<Rightarrow> (grpc_server, unit) prog" where
  "add_servicer name = modify_io (\<lambda>s. s\<lparr>sv_servicers := sv_servicers s @ [name]\<rparr>)"

definition add_reflection :: "host \<Rightarrow> (grpc_server, unit) prog" where
  "add_reflection host = (case ho_reflection host of
     None \<Rightarrow> server_log ''grpc_reflection_unavailable''
   | Some service \<Rightarrow> seq_io (modify_io (\<lambda>s. s\<lparr>sv_reflection := [ho_vector_search host, service]\<rparr>))
       (server_log ''grpc_reflection_enabled''))"

definition bind_port :: "host \<Rightarrow> int \<Rightarrow> (grpc_server, unit) prog" where
  "bind_port host port = (let bind_addr = ''0.0.0.0:'' @ show_int port; bound_port = ho_bind host bind_addr in
     if bound_port = 0 then raise_io (OtherError ''SystemExit'' (''grpc_server bind failed: '' @ bind_addr))
     else modify_io (\<lambda>s. s\<lparr>sv_port := Some bound_port\<rparr>))"

definition handle_signal :: "signal \<Rightarrow> (grpc_server, unit) prog" where
  "handle_signal sig = modify_io (\<lambda>s. s\<lparr>sv_handled := sv_handled s @ [sig]\<rparr>)"

text \<open>Up to \<open>wait_for_termination\<close>, which does not return until the server is stopped.\<close>

definition serve :: "host \<Rightarrow> (grpc_server, unit) prog" where
  "serve host =
     bind_io (of_sum (int_variable host ''GRPC_PORT'' DEFAULT_PORT)) (\<lambda>port.
     bind_io (of_sum (int_variable host ''GRPC_MAX_WORKERS'' DEFAULT_MAX_WORKERS)) (\<lambda>max_workers.
     bind_io (of_sum (grace_seconds host)) (\<lambda>grace_s.
     seq_io (new_server max_workers)
    (seq_io (add_servicer ''VectorSearchService'')
    (seq_io (if env_flag (ho_environ host ''GRPC_ENABLE_REFLECTION'') then add_reflection host else return_io ())
    (seq_io (bind_port host port)
    (seq_io (handle_signal SIGTERM)
    (seq_io (handle_signal SIGINT)
    (seq_io (modify_io (\<lambda>s. s\<lparr>sv_started := True\<rparr>))
    (server_log ''grpc_server_started''))))))))))"

section \<open>Stopping\<close>

text \<open>\<open>_shutdown\<close>: stop with the grace given, wait until the last call is done, exit with 0.\<close>

definition shutdown :: "int \<Rightarrow> (grpc_server, unit) prog" where
  "shutdown grace_s = seq_io (server_log ''grpc_shutdown_initiated'')
     (seq_io (modify_io (\<lambda>s. s\<lparr>sv_stopped := Some grace_s\<rparr>))
     (seq_io (server_log ''grpc_shutdown_complete'')
     (raise_io (OtherError ''SystemExit'' ''0''))))"

text \<open>The process, sent a signal once it waits; a signal no handler is installed for kills it.\<close>

definition server_process :: "host \<Rightarrow> signal \<Rightarrow> (grpc_server, unit) prog" where
  "server_process host sig = seq_io (serve host)
     (bind_io (of_sum (grace_seconds host)) (\<lambda>grace_s.
      bind_io (gets_io sv_handled) (\<lambda>handled.
      if sig \<in> set handled then shutdown grace_s else raise_io (OtherError ''Killed'' []))))"

section \<open>Properties\<close>

text \<open>The settings a server can start with.\<close>

definition startable :: "host \<Rightarrow> int \<Rightarrow> int \<Rightarrow> int \<Rightarrow> bool" where
  "startable host port workers grace \<longleftrightarrow> int_variable host ''GRPC_PORT'' DEFAULT_PORT = Inr port \<and>
     int_variable host ''GRPC_MAX_WORKERS'' DEFAULT_MAX_WORKERS = Inr workers \<and> grace_seconds host = Inr grace \<and>
     0 < workers \<and> ho_bind host (''0.0.0.0:'' @ show_int port) \<noteq> 0"

lemmas server_steps = new_server_def add_servicer_def add_reflection_def bind_port_def handle_signal_def
  server_log_def no_server_def Let_def

lemma serve_runs:
  "startable host port workers grace \<Longrightarrow> \<exists>s. serve host no_server = (Inr (), s) \<and> sv_started s \<and>
     sv_servicers s = [''VectorSearchService''] \<and> sv_port s = Some (ho_bind host (''0.0.0.0:'' @ show_int port)) \<and>
     sv_workers s = Some workers \<and> sv_handled s = [SIGTERM, SIGINT] \<and> sv_stopped s = None \<and>
     (sv_reflection s = [] \<or> env_flag (ho_environ host ''GRPC_ENABLE_REFLECTION''))"
  by (auto simp: serve_def startable_def server_steps seq_io_def bind_io_def split: option.splits)

lemma serve_fails:
  assumes "\<And>port workers grace. \<not> startable host port workers grace"
  shows "\<exists>e s. serve host no_server = (Inl e, s) \<and> \<not> sv_started s \<and> sv_handled s = []"
proof -
  consider (port) e where "int_variable host ''GRPC_PORT'' DEFAULT_PORT = Inl e"
    | (workers) port e where "int_variable host ''GRPC_PORT'' DEFAULT_PORT = Inr port"
        "int_variable host ''GRPC_MAX_WORKERS'' DEFAULT_MAX_WORKERS = Inl e"
    | (grace) port workers e where "int_variable host ''GRPC_PORT'' DEFAULT_PORT = Inr port"
        "int_variable host ''GRPC_MAX_WORKERS'' DEFAULT_MAX_WORKERS = Inr workers" "grace_seconds host = Inl e"
    | (read) port workers grace where "int_variable host ''GRPC_PORT'' DEFAULT_PORT = Inr port"
        "int_variable host ''GRPC_MAX_WORKERS'' DEFAULT_MAX_WORKERS = Inr workers" "grace_seconds host = Inr grace"
    by (metis sumE)
  then show ?thesis
  proof cases
    case (read port workers grace)
    with assms [of port workers grace] have "workers \<le> 0 \<or> ho_bind host (''0.0.0.0:'' @ show_int port) = 0"
      by (auto simp: startable_def)
    then show ?thesis using read
      by (auto simp: serve_def server_steps seq_io_def bind_io_def raise_io_def split: option.splits)
  qed (auto simp: serve_def no_server_def bind_io_def)
qed

lemma process_exits:
  assumes "startable host port workers grace"
  shows "\<exists>s. server_process host sig no_server = (Inl (OtherError ''SystemExit'' ''0''), s) \<and> sv_started s \<and>
     sv_servicers s = [''VectorSearchService''] \<and> sv_stopped s = Some grace"
proof -
  from serve_runs [OF assms] obtain s where "serve host no_server = (Inr (), s)" "sv_started s"
    "sv_servicers s = [''VectorSearchService'']" "set (sv_handled s) = {SIGTERM, SIGINT}" by auto
  moreover have "sig \<in> {SIGTERM, SIGINT}" by (cases sig) simp_all
  moreover have "grace_seconds host = Inr grace" using assms by (simp add: startable_def)
  ultimately show ?thesis
    by (simp add: server_process_def shutdown_def server_log_def seq_io_def bind_io_def raise_io_def)
qed

text \<open>
  C32 (a server that starts stops gracefully). The process starts, with the service on its
  port, and on \<open>SIGTERM\<close> or \<open>SIGINT\<close> stops with the grace configured and exits with 0, exactly
  if its three numbers parse, it has at least one worker and the port can be bound.
\<close>

theorem server_lifecycle:
  "(\<exists>port workers. startable host port workers grace) \<longleftrightarrow>
   (\<exists>s. server_process host sig no_server = (Inl (OtherError ''SystemExit'' ''0''), s) \<and> sv_started s \<and>
     sv_servicers s = [''VectorSearchService''] \<and> sv_stopped s = Some grace)"
proof
  assume "\<exists>s. server_process host sig no_server = (Inl (OtherError ''SystemExit'' ''0''), s) \<and> sv_started s \<and>
     sv_servicers s = [''VectorSearchService''] \<and> sv_stopped s = Some grace"
  then obtain s where run: "server_process host sig no_server = (Inl (OtherError ''SystemExit'' ''0''), s)"
    "sv_started s" "sv_stopped s = Some grace" by blast
  have "\<exists>port workers grace'. startable host port workers grace'"
  proof (rule ccontr)
    assume "\<not> (\<exists>port workers grace'. startable host port workers grace')"
    then obtain e t where "serve host no_server = (Inl e, t)" "\<not> sv_started t" using serve_fails by blast
    with run show False by (simp add: server_process_def seq_io_def bind_io_def)
  qed
  then obtain port workers grace' where ok: "startable host port workers grace'" by blast
  from process_exits [OF this, of sig] run have "grace' = grace" by simp
  with ok show "\<exists>port workers. startable host port workers grace" by blast
qed (use process_exits in blast)

end
