(* ===== verification/Startup.thy ===== *)
theory Startup
  imports VerifySetup Server Scenarios
begin

text \<open>
  The properties of the settings, the middleware chain and the gRPC server process at concrete
  inputs: an environment of the variables that have no default, with readers made of a list of
  variables.
\<close>

section \<open>Settings\<close>

definition read_with :: "(string \<times> string) list \<Rightarrow> (string \<Rightarrow> exn + 'a) \<Rightarrow> string \<Rightarrow> 'a option \<Rightarrow> exn + 'a" where
  "read_with vars cast x d = (case lookup vars x of Some s \<Rightarrow> cast s
     | None \<Rightarrow> (case d of Some v \<Rightarrow> Inr v | None \<Rightarrow> Inl (OtherError ''ImproperlyConfigured''
         (''Set the '' @ x @ '' environment variable''))))"

definition demo_environ :: "(string \<times> string) list \<Rightarrow> environ" where
  "demo_environ vars = \<lparr>ev_str = read_with vars Inr,
     ev_bool = read_with vars (\<lambda>s. Inr (py_lower s \<in> {''true'', ''on'', ''ok'', ''y'', ''yes'', ''1''})),
     ev_int = read_with vars py_int, ev_float = read_with vars (\<lambda>s. and_then (py_int s) (\<lambda>i. Inr (rat_of_int i))),
     ev_list = read_with vars (\<lambda>s. Inr [s])\<rparr>"

definition demo_variables :: "(string \<times> string) list" where
  "demo_variables = [(''DJANGO_SECRET_KEY'', ''s''), (''POSTGRES_HOST'', ''db''), (''POSTGRES_DB'', ''d''),
     (''POSTGRES_USER'', ''u''), (''POSTGRES_PASSWORD'', ''p''), (''QDRANT_HOST'', ''q''), (''QDRANT_API_KEY'', []),
     (''REDIS_URL'', ''r'')]"

definition demo_bound_logger :: "int + string \<Rightarrow> exn + unit" where
  "demo_bound_logger = case_sum (\<lambda>_. Inr ()) (\<lambda>s. Inl (KeyError s))"

lemma read_with_unset: "x \<notin> set (keys vars) \<Longrightarrow> unset_reads (read_with vars cast) x"
  by (auto simp: unset_reads_def read_with_def lookup_def keys_def split: option.split dest: map_of_SomeD
      intro: rev_image_eqI)

lemma demo_documented: "documented vars (demo_environ vars)"
  by (simp add: documented_def demo_environ_def read_with_unset)

lemma demo_logging: "\<exists>cfg. configure_logging demo_bound_logger False ''INFO'' = Inr cfg"
proof -
  have "case configure_logging demo_bound_logger False ''INFO'' of Inl e \<Rightarrow> False | Inr cfg \<Rightarrow> True" by code_simp
  then show ?thesis by (simp split: sum.splits)
qed

lemma demo_settings: "\<exists>s. load_settings ''/app'' None demo_bound_logger (demo_environ demo_variables) = Inr s \<and>
    qs_api_key (QDRANT s) = [] \<and> bs_batch_size (BGE s) = 8 \<and> ss_threshold (SEARCH s) = 65 / 100"
proof -
  from demo_logging obtain cfg where "configure_logging demo_bound_logger False ''INFO'' = Inr cfg" by blast
  then show ?thesis
    by (simp add: load_settings_def Let_def settings_groups env_str_def env_bool_def env_int_def env_float_def
        env_list_def demo_environ_def read_with_def demo_variables_def str_defaults_def bool_defaults_def
        int_defaults_def float_defaults_def list_defaults_def)
qed


section \<open>The middleware chain\<close>

text \<open>A chain in which WhiteNoise answers every request by itself.\<close>

definition demo_ok :: response where
  "demo_ok = \<lparr>rs_status = 200, rs_headers = [], rs_body = None\<rparr>"

definition demo_third :: "string \<Rightarrow> 'q handler \<Rightarrow> 'q handler" where
  "demo_third name g = (if name = ''whitenoise.middleware.WhiteNoiseMiddleware'' then (\<lambda>_. return_io demo_ok) else g)"

definition demo_request :: request where
  "demo_request = \<lparr>rq_method = ''GET'', rq_path = ''/v1/x'', rq_request_id = Some ''r1'', rq_url_name = None\<rparr>"

lemma demo_third_passes: "passes_on (demo_third name)"
  by (auto simp: passes_on_def demo_third_def log_after_def return_io_def)


lemma whitenoise_answers_unlogged:
  "w_access_log (snd (application (\<lambda>g. g) demo_third demo_env (\<lambda>_. return_io demo_ok) demo_request demo_world)) = []"
  by code_simp

section \<open>The server process\<close>

definition demo_host :: "string \<Rightarrow> host" where
  "demo_host workers = \<lparr>ho_environ = (\<lambda>x. if x = ''GRPC_MAX_WORKERS'' then Some workers else None),
     ho_bind = (\<lambda>_. 50051), ho_reflection = None, ho_vector_search = ''VectorSearch''\<rparr>"

lemma demo_server_starts: "sv_started (snd (serve (demo_host ''4'') no_server)) \<and> \<not> sv_started (snd (serve (demo_host ''0'') no_server))"
  by code_simp

section \<open>The setup check\<close>

text \<open>A site on which everything answers, and a vector database that refuses the first call.\<close>

definition demo_site :: "mem site" where
  "demo_site = \<lparr>si_environ = demo_environ demo_variables, si_variable = (\<lambda>_. None), si_django_setup = return_io (),
     si_time = return_io 7, si_connect = (\<lambda>_. return_io ()), si_select_1 = return_io (),
     si_list_collections = (\<lambda>_. return_io ()), si_channel_ready = (\<lambda>_. return_io True),
     si_health_check = return_io (Inr []), si_search = (\<lambda>_. return_io (Inl (INVALID_ARGUMENT, [])))\<rparr>"

definition refusing_world :: "mem world" where
  "refusing_world = demo_world\<lparr>w_store := \<lparr>mem_colls = (\<lambda>_. None), mem_script = [Some (Lost INTERNAL)]\<rparr>\<rparr>"

lemma demo_probes: "check_postgres demo_site w = (Inr fine, w)" "check_qdrant demo_site w = (Inr fine, w)"
  by (simp_all add: check_postgres_def check_qdrant_def guarded_def try_io_def bind_io_def seq_io_def
      postgres_args_def verify_client_args_def site_str_def site_int_def site_bool_def demo_site_def demo_environ_def
      read_with_def demo_variables_def verify_int_defaults_def verify_bool_defaults_def)

lemma refused_create:
  "fst (create_collection_for_bot mem_client ''verify_7'' ''rt0'' (w_store refusing_world)) = Inl (connection_lost INTERNAL)"
  by code_simp

lemma refused_run: "\<exists>w'. verify_main demo_env demo_site True refusing_world = (Inl (connection_lost INTERNAL), w')"
proof -
  have name: "verify_tenant 7 = ''verify_7''" by code_simp
  obtain q where "create_collection_for_bot mem_client ''verify_7'' ''rt0'' (w_store refusing_world) =
      (Inl (connection_lost INTERNAL), q)" using refused_create by (metis prod.collapse)
  then have "\<exists>w'. roundtrip_qdrant_collection demo_env demo_site refusing_world = (Inl (connection_lost INTERNAL), w')"
    by (simp add: roundtrip_qdrant_collection_def demo_site_def seq_io_def bind_io_def name on_store_def on_part_def
        demo_env_def)
  then show ?thesis by (auto simp: verify_main_def bind_io_def demo_probes fine_def)
qed

lemma demo_other: "collection_name (verify_tenant now) ''rt0'' \<noteq> Inr ''t_acme__b_bot1''"
  by (simp add: verify_tenant_def collection_name_Inr)

lemma demo_site_keeps: "site_keeps I demo_site"
  by (simp add: site_keeps_def demo_site_def keeps_return)

theorem setup_check_correct_witness:
  "\<exists>w'. verify_main demo_env demo_site True refusing_world = (Inl (connection_lost INTERNAL), w') \<and>
    mem_view (w_store w') ''t_acme__b_bot1'' = None \<and>
    (\<exists>w1 w2. roundtrip_qdrant_collection demo_env demo_site w1 = (Inl (connection_lost INTERNAL), w2))"
proof -
  obtain w' where run: "verify_main demo_env demo_site True refusing_world = (Inl (connection_lost INTERNAL), w')"
    using refused_run by blast
  from setup_check_correct [OF demo_api demo_other demo_site_keeps run] run show ?thesis
    by (simp add: refusing_world_def mem_view_def)
qed

end
