(* ===== verification/Schema.thy ===== *)
theory Schema
  imports Tables
begin

text \<open>
  The declarations behind \<open>Tables\<close>: the models of \<^verbatim>\<open>apps/tenants/models.py\<close> and
  \<^verbatim>\<open>apps/documents/models.py\<close> as data, the migrations of both apps, what applying the
  migrations makes of an empty schema, and the admin pages. Attributes of a field that are
  about forms, serialisation or labels only are left out, and so are the names Django
  generates for indexes.
\<close>

section \<open>Fields and models\<close>

datatype field_type =
    CharField nat
  | TextField
  | IntegerField
  | BigAutoField
  | UUIDField
  | DateTimeField
  | JSONField
  | ForeignKey string string

datatype default_value = NoDefault | Uuid4 | DefaultStr string | DefaultInt int | AutoNow | AutoNowAdd

record field =
  fd_type :: field_type
  fd_null :: bool
  fd_blank :: bool
  fd_unique :: bool
  fd_primary_key :: bool
  fd_default :: default_value
  fd_choices :: "(string \<times> string) list"
  fd_validators :: "(string \<times> string) list"

definition plain :: "field_type \<Rightarrow> field" where
  "plain ty = \<lparr>fd_type = ty, fd_null = False, fd_blank = False, fd_unique = False, fd_primary_key = False,
     fd_default = NoDefault, fd_choices = [], fd_validators = []\<rparr>"

definition optional :: "field_type \<Rightarrow> field" where
  "optional ty = (plain ty)\<lparr>fd_null := True, fd_blank := True\<rparr>"

text \<open>\<open>slug_validator\<close>: its pattern and its code.\<close>

definition slug_column_check :: "string \<times> string" where
  "slug_column_check = (''^[a-z0-9][a-z0-9_]{2,39}$'', ''invalid_slug'')"

definition slug_field :: field where
  "slug_field = (plain (CharField 40))\<lparr>fd_validators := [slug_column_check]\<rparr>"

record model =
  md_fields :: "(string \<times> field) list"
  md_ordering :: "string list"
  md_indexes :: "string list list"
  md_unique :: "(string \<times> string list) list"

section \<open>The declared models\<close>

definition Tenant :: model where
  "Tenant = \<lparr>md_fields =
       [(''tenant_id'', slug_field\<lparr>fd_primary_key := True\<rparr>), (''name'', plain (CharField 255)),
        (''created_at'', (plain DateTimeField)\<lparr>fd_default := AutoNowAdd\<rparr>)],
     md_ordering = [''tenant_id''], md_indexes = [], md_unique = []\<rparr>"

definition Bot :: model where
  "Bot = \<lparr>md_fields =
       [(''tenant'', plain (ForeignKey ''tenants.tenant'' ''bots'')), (''bot_id'', slug_field),
        (''name'', plain (CharField 255)), (''collection_name'', (plain (CharField 100))\<lparr>fd_unique := True\<rparr>),
        (''created_at'', (plain DateTimeField)\<lparr>fd_default := AutoNowAdd\<rparr>)],
     md_ordering = [''tenant_id'', ''bot_id''], md_indexes = [[''tenant'', ''bot_id'']],
     md_unique = [(''unique_bot_per_tenant'', [''tenant'', ''bot_id''])]\<rparr>"

definition STATUS_CHOICES :: "(string \<times> string) list" where
  "STATUS_CHOICES = [(PENDING, ''Pending''), (ACTIVE, ''Active''), (DELETED, ''Deleted''), (FAILED, ''Failed'')]"

definition Document :: model where
  "Document = \<lparr>md_fields =
       [(''doc_id'', (plain UUIDField)\<lparr>fd_primary_key := True, fd_default := Uuid4\<rparr>),
        (''bot_ref'', plain (ForeignKey ''tenants.bot'' ''documents'')),
        (''tenant_id'', slug_field), (''bot_id'', slug_field), (''source_type'', plain (CharField 20)),
        (''source_filename'', optional (CharField 500)), (''source_url'', optional TextField),
        (''content_hash'', plain (CharField 80)),
        (''chunk_count'', (plain IntegerField)\<lparr>fd_default := DefaultInt 0\<rparr>),
        (''item_count'', (plain IntegerField)\<lparr>fd_default := DefaultInt 0\<rparr>),
        (''status'', (plain (CharField 20))\<lparr>fd_choices := STATUS_CHOICES, fd_default := DefaultStr PENDING\<rparr>),
        (''error_message'', optional TextField), (''raw_payload'', optional JSONField),
        (''uploaded_at'', (plain DateTimeField)\<lparr>fd_default := AutoNowAdd\<rparr>),
        (''last_refreshed_at'', (plain DateTimeField)\<lparr>fd_default := AutoNow\<rparr>)],
     md_ordering = [''-uploaded_at''], md_indexes = [[''tenant_id'', ''bot_id''], [''status'']], md_unique = []\<rparr>"

text \<open>A model without a primary key gets the one the app configurations name.\<close>

definition with_auto_pk :: "model \<Rightarrow> model" where
  "with_auto_pk m = (if list_ex (\<lambda>(n, f). fd_primary_key f) (md_fields m) then m
     else m\<lparr>md_fields := (''id'', (plain BigAutoField)\<lparr>fd_primary_key := True\<rparr>) # md_fields m\<rparr>)"

definition declared :: "(string \<times> model) list" where
  "declared = [(''tenants.tenant'', with_auto_pk Tenant), (''tenants.bot'', with_auto_pk Bot),
     (''documents.document'', with_auto_pk Document)]"

section \<open>Migrations\<close>

datatype operation = CreateModel string model | AddField string string field

record migration =
  mg_app :: string
  mg_name :: string
  mg_dependencies :: "(string \<times> string) list"
  mg_operations :: "operation list"

definition tenants_0001 :: migration where
  "tenants_0001 = \<lparr>mg_app = ''tenants'', mg_name = ''0001_initial'', mg_dependencies = [], mg_operations =
     [CreateModel ''tenant'' \<lparr>md_fields =
        [(''tenant_id'', (plain (CharField 40))\<lparr>fd_primary_key := True,
            fd_validators := [(''^[a-z0-9][a-z0-9_]{2,39}$'', ''invalid_slug'')]\<rparr>),
         (''name'', plain (CharField 255)), (''created_at'', (plain DateTimeField)\<lparr>fd_default := AutoNowAdd\<rparr>)],
        md_ordering = [''tenant_id''], md_indexes = [], md_unique = []\<rparr>,
      CreateModel ''bot'' \<lparr>md_fields =
        [(''id'', (plain BigAutoField)\<lparr>fd_primary_key := True\<rparr>),
         (''bot_id'', (plain (CharField 40))\<lparr>fd_validators := [(''^[a-z0-9][a-z0-9_]{2,39}$'', ''invalid_slug'')]\<rparr>),
         (''name'', plain (CharField 255)), (''collection_name'', (plain (CharField 100))\<lparr>fd_unique := True\<rparr>),
         (''created_at'', (plain DateTimeField)\<lparr>fd_default := AutoNowAdd\<rparr>),
         (''tenant'', plain (ForeignKey ''tenants.tenant'' ''bots''))],
        md_ordering = [''tenant_id'', ''bot_id''], md_indexes = [[''tenant'', ''bot_id'']],
        md_unique = [(''unique_bot_per_tenant'', [''tenant'', ''bot_id''])]\<rparr>]\<rparr>"

definition documents_0001 :: migration where
  "documents_0001 = \<lparr>mg_app = ''documents'', mg_name = ''0001_initial'',
     mg_dependencies = [(''tenants'', ''0001_initial'')], mg_operations =
     [CreateModel ''document'' \<lparr>md_fields =
        [(''doc_id'', (plain UUIDField)\<lparr>fd_primary_key := True, fd_default := Uuid4\<rparr>),
         (''tenant_id'', (plain (CharField 40))\<lparr>fd_validators := [(''^[a-z0-9][a-z0-9_]{2,39}$'', ''invalid_slug'')]\<rparr>),
         (''bot_id'', (plain (CharField 40))\<lparr>fd_validators := [(''^[a-z0-9][a-z0-9_]{2,39}$'', ''invalid_slug'')]\<rparr>),
         (''source_type'', plain (CharField 20)), (''source_filename'', optional (CharField 500)),
         (''source_url'', optional TextField), (''content_hash'', plain (CharField 80)),
         (''chunk_count'', (plain IntegerField)\<lparr>fd_default := DefaultInt 0\<rparr>),
         (''item_count'', (plain IntegerField)\<lparr>fd_default := DefaultInt 0\<rparr>),
         (''status'', (plain (CharField 20))\<lparr>fd_choices := [(''pending'', ''Pending''), (''active'', ''Active''),
            (''deleted'', ''Deleted''), (''failed'', ''Failed'')], fd_default := DefaultStr ''pending''\<rparr>),
         (''error_message'', optional TextField),
         (''uploaded_at'', (plain DateTimeField)\<lparr>fd_default := AutoNowAdd\<rparr>),
         (''last_refreshed_at'', (plain DateTimeField)\<lparr>fd_default := AutoNow\<rparr>),
         (''bot_ref'', plain (ForeignKey ''tenants.bot'' ''documents''))],
        md_ordering = [''-uploaded_at''], md_indexes = [[''tenant_id'', ''bot_id''], [''status'']], md_unique = []\<rparr>]\<rparr>"

definition documents_0002 :: migration where
  "documents_0002 = \<lparr>mg_app = ''documents'', mg_name = ''0002_document_raw_payload'',
     mg_dependencies = [(''documents'', ''0001_initial'')], mg_operations =
     [AddField ''document'' ''raw_payload'' (optional JSONField)]\<rparr>"

definition migrations :: "migration list" where
  "migrations = [tenants_0001, documents_0001, documents_0002]"

section \<open>Applying them\<close>

text \<open>The schema, by app and lower-case model name; \<open>None\<close> is a refusal of the database.\<close>

definition targets_exist :: "(string \<times> model) list \<Rightarrow> string \<Rightarrow> field \<Rightarrow> bool" where
  "targets_exist s self f = (case fd_type f of ForeignKey to _ \<Rightarrow> to = self \<or> to \<in> set (keys s) | _ \<Rightarrow> True)"

fun apply_operation :: "string \<Rightarrow> (string \<times> model) list \<Rightarrow> operation \<Rightarrow> (string \<times> model) list option" where
  "apply_operation app s (CreateModel name m) = (let key = app @ ''.'' @ name in
     if key \<in> set (keys s) \<or> \<not> list_all (\<lambda>(n, f). targets_exist s key f) (md_fields m) then None
     else Some (s @ [(key, m)]))"
| "apply_operation app s (AddField model_name name f) = (let key = app @ ''.'' @ model_name in
     case lookup s key of
       None \<Rightarrow> None
     | Some m \<Rightarrow> if name \<in> set (keys (md_fields m)) \<or> \<not> targets_exist s key f then None
         else Some (map (\<lambda>(k, x). (k, if k = key then m\<lparr>md_fields := md_fields m @ [(name, f)]\<rparr> else x)) s))"

fun apply_operations :: "string \<Rightarrow> (string \<times> model) list \<Rightarrow> operation list \<Rightarrow> (string \<times> model) list option" where
  "apply_operations app s [] = Some s"
| "apply_operations app s (x # xs) = Option.bind (apply_operation app s x) (\<lambda>s'. apply_operations app s' xs)"

text \<open>\<^verbatim>\<open>manage.py migrate\<close>: a migration is only applied after those it depends on.\<close>

fun migrate :: "(string \<times> string) list \<Rightarrow> (string \<times> model) list \<Rightarrow> migration list \<Rightarrow> (string \<times> model) list option" where
  "migrate applied s [] = Some s"
| "migrate applied s (m # ms) = (if set (mg_dependencies m) \<subseteq> set applied
     then Option.bind (apply_operations (mg_app m) s (mg_operations m))
       (\<lambda>s'. migrate ((mg_app m, mg_name m) # applied) s' ms)
     else None)"

text \<open>Two schemas are the same up to the order of models and fields.\<close>

definition same_entries :: "('v \<Rightarrow> 'v \<Rightarrow> bool) \<Rightarrow> (string \<times> 'v) list \<Rightarrow> (string \<times> 'v) list \<Rightarrow> bool" where
  "same_entries eq xs ys = (length xs = length ys \<and> distinct (keys xs) \<and> distinct (keys ys) \<and>
     list_all (\<lambda>(k, v). case lookup ys k of None \<Rightarrow> False | Some v' \<Rightarrow> eq v v') xs)"

definition same_model :: "model \<Rightarrow> model \<Rightarrow> bool" where
  "same_model m m' = (same_entries (=) (md_fields m) (md_fields m') \<and> md_ordering m = md_ordering m' \<and>
     md_indexes m = md_indexes m' \<and> md_unique m = md_unique m')"

definition same_schema :: "(string \<times> model) list \<Rightarrow> (string \<times> model) list \<Rightarrow> bool" where
  "same_schema = same_entries same_model"

section \<open>The admin pages\<close>

record model_admin =
  ad_model :: string
  ad_list_display :: "string list"
  ad_list_filter :: "string list"
  ad_search_fields :: "string list"
  ad_ordering :: "string list"
  ad_exclude :: "string list"
  ad_readonly :: "string list"
  ad_methods :: "string list"

definition admin_page :: "string \<Rightarrow> string list \<Rightarrow> string list \<Rightarrow> string list \<Rightarrow> model_admin" where
  "admin_page m display search ord = \<lparr>ad_model = m, ad_list_display = display, ad_list_filter = [],
     ad_search_fields = search, ad_ordering = ord, ad_exclude = [], ad_readonly = [], ad_methods = []\<rparr>"

definition TenantAdmin :: model_admin where
  "TenantAdmin = (admin_page ''tenants.tenant'' [''tenant_id'', ''name'', ''created_at''] [''tenant_id'', ''name'']
     [''tenant_id''])\<lparr>ad_readonly := [''created_at'']\<rparr>"

definition BotAdmin :: model_admin where
  "BotAdmin = (admin_page ''tenants.bot'' [''tenant_id'', ''bot_id'', ''name'', ''collection_name'', ''created_at'']
     [''bot_id'', ''name'', ''collection_name''] [''tenant_id'', ''bot_id''])
     \<lparr>ad_list_filter := [''tenant''], ad_readonly := [''collection_name'', ''created_at''], ad_methods := [''tenant_id'']\<rparr>"

definition DocumentAdmin :: model_admin where
  "DocumentAdmin = (admin_page ''documents.document''
     [''doc_id'', ''tenant_id'', ''bot_id'', ''source_filename'', ''source_type'', ''status'', ''chunk_count'', ''uploaded_at'']
     [''doc_id'', ''source_filename'', ''source_url''] [''-uploaded_at''])
     \<lparr>ad_list_filter := [''status'', ''source_type'', ''tenant_id''], ad_exclude := [''raw_payload''],
      ad_readonly := [''doc_id'', ''uploaded_at'', ''last_refreshed_at'', ''chunk_count'', ''item_count'', ''raw_payload_pretty''],
      ad_methods := [''raw_payload_pretty'']\<rparr>"

text \<open>What a name on an admin page may refer to: a field, the key column of a foreign key, a method.\<close>

definition field_names :: "model \<Rightarrow> string list" where
  "field_names m = concat (map (\<lambda>(n, f). case fd_type f of ForeignKey _ _ \<Rightarrow> [n, n @ ''_id''] | _ \<Rightarrow> [n]) (md_fields m))"

definition without_minus :: "string \<Rightarrow> string" where
  "without_minus n = (case n of c # r \<Rightarrow> if c = CHR ''-'' then r else n | [] \<Rightarrow> n)"

definition admin_resolves :: "(string \<times> model) list \<Rightarrow> model_admin \<Rightarrow> bool" where
  "admin_resolves s ad = (case lookup s (ad_model ad) of None \<Rightarrow> False
     | Some m \<Rightarrow> list_all (\<lambda>n. without_minus n \<in> set (field_names m))
         (ad_list_filter ad @ ad_search_fields ad @ ad_ordering ad @ ad_exclude ad) \<and>
       list_all (\<lambda>n. n \<in> set (field_names m @ ad_methods ad)) (ad_list_display ad @ ad_readonly ad))"

section \<open>Properties\<close>

lemma migrated: "case migrate [] [] migrations of None \<Rightarrow> False
    | Some s \<Rightarrow> same_schema s declared \<and> list_all (admin_resolves s) [TenantAdmin, BotAdmin, DocumentAdmin]"
  by code_simp

lemma dependencies [simp]:
  "mg_dependencies tenants_0001 = []" "mg_dependencies documents_0001 = [(''tenants'', ''0001_initial'')]"
  "mg_dependencies documents_0002 = [(''documents'', ''0001_initial'')]"
  "mg_app tenants_0001 = ''tenants''" "mg_name tenants_0001 = ''0001_initial''"
  by (simp_all add: tenants_0001_def documents_0001_def documents_0002_def)

lemma migrate_Cons:
  assumes "migrate applied s (m # ms) = Some t"
  obtains s' where "set (mg_dependencies m) \<subseteq> set applied" "migrate ((mg_app m, mg_name m) # applied) s' ms = Some t"
  using assms by (auto split: if_splits bind_splits)

lemma distinct_migrations: "distinct migrations"
  by (simp add: migrations_def tenants_0001_def documents_0001_def documents_0002_def)

lemma migrate_order:
  assumes "set order = set migrations" and "distinct order" and run: "migrate [] [] order = Some s"
  shows "order = migrations"
proof -
  have "length order = length migrations" using assms(1,2) distinct_migrations by (metis distinct_card)
  then obtain a b c where order: "order = [a, b, c]" by (auto simp: migrations_def length_Suc_conv)
  have mem: "{a, b, c} = {tenants_0001, documents_0001, documents_0002}" and dist: "a \<noteq> b" "a \<noteq> c" "b \<noteq> c"
    using assms(1,2) order by (simp_all add: migrations_def)
  from run [unfolded order] obtain s1 where "set (mg_dependencies a) \<subseteq> {}" and
    rest: "migrate [(mg_app a, mg_name a)] s1 [b, c] = Some s" by (rule migrate_Cons) simp
  then have "mg_dependencies a = []" by simp
  moreover have "a \<in> {tenants_0001, documents_0001, documents_0002}" using mem by blast
  ultimately have a: "a = tenants_0001" by auto
  from rest obtain s2 where "set (mg_dependencies b) \<subseteq> {(mg_app a, mg_name a)}" by (rule migrate_Cons) simp
  then have b: "b \<noteq> documents_0002" by (auto simp: a)
  moreover have "b \<in> {tenants_0001, documents_0001, documents_0002}" "c \<in> {tenants_0001, documents_0001, documents_0002}"
    using mem by blast+
  ultimately have "b = documents_0001" "c = documents_0002" using dist a by auto
  with a order show ?thesis by (simp add: migrations_def)
qed

text \<open>
  There is one order the migrations can be applied in, and the schema it ends with is the one
  the models declare, field by field; every name on an admin page is a field or a method there.
\<close>

lemma migrations_build_models:
  assumes "set order = set migrations" and "distinct order"
  shows "(\<exists>s. migrate [] [] order = Some s) = (order = migrations) \<and>
    (\<exists>s. migrate [] [] migrations = Some s \<and> same_schema s declared \<and>
      list_all (admin_resolves s) [TenantAdmin, BotAdmin, DocumentAdmin])"
  using migrate_order [OF assms] migrated by (auto split: option.splits)

section \<open>Widths\<close>

definition char_width :: "model \<Rightarrow> string \<Rightarrow> nat option" where
  "char_width m n = (case lookup (md_fields m) n of None \<Rightarrow> None
     | Some f \<Rightarrow> (case fd_type f of CharField k \<Rightarrow> Some k | _ \<Rightarrow> None))"

definition fits :: "model \<Rightarrow> (string \<times> string) list \<Rightarrow> bool" where
  "fits m cols = list_all (\<lambda>(n, v). case char_width m n of None \<Rightarrow> True | Some k \<Rightarrow> length v \<le> k) cols"

text \<open>The text columns of a row, by the names of the models.\<close>

definition tenant_columns :: "tenant_row \<Rightarrow> (string \<times> string) list" where
  "tenant_columns r = [(''tenant_id'', tn_tenant_id r), (''name'', tn_name r)]"

definition bot_columns :: "bot_row \<Rightarrow> (string \<times> string) list" where
  "bot_columns r = [(''bot_id'', bt_bot_id r), (''name'', bt_name r), (''collection_name'', bt_collection_name r)]"

definition doc_columns :: "doc_row \<Rightarrow> (string \<times> string) list" where
  "doc_columns r = [(''tenant_id'', dc_tenant_id r), (''bot_id'', dc_bot_id r), (''source_type'', dc_source_type r),
     (''source_filename'', or_default [] (dc_source_filename r)), (''source_url'', or_default [] (dc_source_url r)),
     (''content_hash'', dc_content_hash r), (''status'', dc_status r),
     (''error_message'', or_default [] (dc_error_message r))]"

lemma check_integer_Inr: "check_integer n = Inr () \<longleftrightarrow> n \<le> 2147483647"
  by (simp add: check_integer_def)

lemma widths:
  "char_width Tenant ''tenant_id'' = Some 40" "char_width Tenant ''name'' = Some 255"
  "char_width Bot ''bot_id'' = Some 40" "char_width Bot ''name'' = Some 255" "char_width Bot ''collection_name'' = Some 100"
  "char_width Document ''tenant_id'' = Some 40" "char_width Document ''bot_id'' = Some 40"
  "char_width Document ''source_type'' = Some 20" "char_width Document ''source_filename'' = Some 500"
  "char_width Document ''source_url'' = None" "char_width Document ''content_hash'' = Some 80"
  "char_width Document ''status'' = Some 20" "char_width Document ''error_message'' = None"
  by (simp_all add: char_width_def Tenant_def Bot_def Document_def plain_def slug_field_def optional_def)

text \<open>
  The statements enforce the declared columns: a document row is accepted exactly if each
  of its texts fits the column the model declares for it and its two counters are 32-bit
  integers; a tenant or a bot that does not fit is refused as too long.
\<close>

lemma tables_enforce_columns:
  "(check_doc r = Inr ()) = (fits Document (doc_columns r) \<and> dc_chunk_count r \<le> 2147483647 \<and> dc_item_count r \<le> 2147483647) \<and>
   (fits Tenant (tenant_columns t) \<or> (\<exists>n. insert_tenant t db = (Inl (too_long n), db))) \<and>
   (fits Bot (bot_columns b) \<or> (\<exists>n. insert_bot b db = (Inl (too_long n), db)))"
proof (intro conjI)
  show "(check_doc r = Inr ()) = (fits Document (doc_columns r) \<and> dc_chunk_count r \<le> 2147483647 \<and> dc_item_count r \<le> 2147483647)"
    by (auto simp: check_doc_def and_then_Inr_iff check_widths_Inr check_integer_Inr fits_def doc_columns_def widths
        or_default_def split: option.splits)
  show "fits Tenant (tenant_columns t) \<or> (\<exists>n. insert_tenant t db = (Inl (too_long n), db))"
    by (auto simp: fits_def tenant_columns_def widths insert_tenant_def check_widths_def)
  show "fits Bot (bot_columns b) \<or> (\<exists>n. insert_bot b db = (Inl (too_long n), db))"
    by (auto simp: fits_def bot_columns_def widths insert_bot_def check_widths_def)
qed


definition wide_tenant :: tenant_row where
  "wide_tenant = \<lparr>tn_tenant_id = replicate 41 CHR ''a'', tn_name = [], tn_created_at = 0\<rparr>"


end
