(* ===== verification/Routes.thy ===== *)
theory Routes
  imports LoadTest Settings
begin

text \<open>
  The routes, \<^verbatim>\<open>config/urls.py\<close>, \<^verbatim>\<open>apps/core/urls.py\<close> and \<^verbatim>\<open>apps/documents/urls.py\<close>: which view a
  path leads to and with which arguments, and the path of a view. A route is the list of its
  parts between slashes; the two converters in use match within one part. The admin site below
  \<^verbatim>\<open>admin/\<close> is Django's and a parameter.
\<close>

section \<open>Parts of a path\<close>

fun split_slash :: "string \<Rightarrow> string list" where
  "split_slash [] = [[]]"
| "split_slash (c # cs) = (if c = CHR ''/'' then [] # split_slash cs
     else (case split_slash cs of p # ps \<Rightarrow> (c # p) # ps | [] \<Rightarrow> [[c]]))"

fun join_slash :: "string list \<Rightarrow> string" where
  "join_slash [] = []"
| "join_slash [p] = p"
| "join_slash (p # q # ps) = p @ ''/'' @ join_slash (q # ps)"

definition no_slash :: "string \<Rightarrow> bool" where
  "no_slash s = (CHR ''/'' \<notin> set s)"

lemma split_slash_plain: "no_slash p \<Longrightarrow> split_slash p = [p]"
  by (induction p) (auto simp: no_slash_def)

lemma split_slash_append: "no_slash p \<Longrightarrow> split_slash (p @ CHR ''/'' # r) = p # split_slash r"
  by (induction p) (auto simp: no_slash_def)

lemma split_join: "ps \<noteq> [] \<Longrightarrow> list_all no_slash ps \<Longrightarrow> split_slash (join_slash ps) = ps"
  by (induction ps rule: join_slash.induct) (auto simp: split_slash_plain split_slash_append)

lemma split_slash_nonempty: "split_slash s \<noteq> []"
  by (induction s) (auto split: list.splits)

lemma join_split: "join_slash (split_slash s) = s"
proof (induction s)
  case (Cons c cs)
  obtain p ps where "split_slash cs = p # ps" using split_slash_nonempty [of cs] by (cases "split_slash cs") auto
  with Cons show ?case by (cases ps) auto
qed simp

lemma split_slash_parts: "list_all no_slash (split_slash s)"
  by (induction s) (auto simp: no_slash_def split: list.splits)

section \<open>Routes\<close>

datatype converter = StrConverter | UuidConverter
datatype part = Lit string | Arg converter string

definition is_hex_lower :: "char \<Rightarrow> bool" where
  "is_hex_lower c = (c \<in> set ''0123456789abcdef'')"

fun uuid_shape :: "nat list \<Rightarrow> string \<Rightarrow> bool" where
  "uuid_shape [] s = False"
| "uuid_shape [n] s = (length s = n \<and> list_all is_hex_lower s)"
| "uuid_shape (n # k # ns) s = (n < length s \<and> list_all is_hex_lower (take n s) \<and> s ! n = CHR ''-'' \<and>
     uuid_shape (k # ns) (drop (Suc n) s))"

primrec converts :: "converter \<Rightarrow> string \<Rightarrow> bool" where
  "converts StrConverter s = (s \<noteq> [])"
| "converts UuidConverter s = uuid_shape [8, 4, 4, 4, 12] s"

text \<open>A match gives the arguments in order.\<close>

fun match_parts :: "part list \<Rightarrow> string list \<Rightarrow> (string \<times> string) list option" where
  "match_parts [] [] = Some []"
| "match_parts (Lit l # ps) (s # ss) = (if l = s then match_parts ps ss else None)"
| "match_parts (Arg c n # ps) (s # ss) = (if converts c s then map_option ((#) (n, s)) (match_parts ps ss) else None)"
| "match_parts _ _ = None"

record route =
  rt_parts :: "part list"
  rt_name :: string

definition core_urls :: "route list" where
  "core_urls = [\<lparr>rt_parts = [Lit ''healthz''], rt_name = ''healthz''\<rparr>]"

definition bot_parts :: "part list" where
  "bot_parts = [Lit ''tenants'', Arg StrConverter ''tenant_id'', Lit ''bots'', Arg StrConverter ''bot_id'']"

definition documents_urls :: "route list" where
  "documents_urls =
     [\<lparr>rt_parts = bot_parts @ [Lit ''documents''], rt_name = ''upload-document''\<rparr>,
      \<lparr>rt_parts = bot_parts @ [Lit ''documents'', Arg UuidConverter ''doc_id''], rt_name = ''delete-document''\<rparr>,
      \<lparr>rt_parts = bot_parts @ [Lit ''search''], rt_name = ''search-documents''\<rparr>]"

text \<open>\<open>include\<close> of a list below a prefix, and the list of the project after the admin site.\<close>

definition included :: "part list \<Rightarrow> route list \<Rightarrow> route list" where
  "included pre = map (\<lambda>r. r\<lparr>rt_parts := pre @ rt_parts r\<rparr>)"

definition project_urls :: "route list" where
  "project_urls = [\<lparr>rt_parts = [Lit ''metrics''], rt_name = ''metrics''\<rparr>] @ included [] core_urls @
     included [Lit ''v1''] documents_urls"

fun first_match :: "route list \<Rightarrow> string list \<Rightarrow> (string \<times> (string \<times> string) list) option" where
  "first_match [] ss = None"
| "first_match (r # rs) ss = (case match_parts (rt_parts r) ss of
     Some args \<Rightarrow> Some (rt_name r, args) | None \<Rightarrow> first_match rs ss)"

text \<open>A path begins with a slash; below \<^verbatim>\<open>/admin/\<close> the admin site is asked first.\<close>

definition resolve ::
  "(string \<Rightarrow> (string \<times> (string \<times> string) list) option) \<Rightarrow> string \<Rightarrow> (string \<times> (string \<times> string) list) option" where
  "resolve admin path = (case path of
     c # rest \<Rightarrow> if c \<noteq> CHR ''/'' then None
       else (case (if py_startswith rest ''admin/'' then admin (drop 6 rest) else None) of
         Some m \<Rightarrow> Some m | None \<Rightarrow> first_match project_urls (split_slash rest))
   | [] \<Rightarrow> None)"

text \<open>\<open>reverse(name, args)\<close>\<close>

fun fill_parts :: "part list \<Rightarrow> string list \<Rightarrow> string list option" where
  "fill_parts [] [] = Some []"
| "fill_parts (Lit l # ps) as = map_option ((#) l) (fill_parts ps as)"
| "fill_parts (Arg c n # ps) (a # as) = (if converts c a \<and> no_slash a then map_option ((#) a) (fill_parts ps as) else None)"
| "fill_parts _ _ = None"

definition reverse_url :: "string \<Rightarrow> string list \<Rightarrow> string option" where
  "reverse_url name as = (case find (\<lambda>r. rt_name r = name) project_urls of None \<Rightarrow> None
     | Some r \<Rightarrow> map_option (\<lambda>ps. CHR ''/'' # join_slash ps) (fill_parts (rt_parts r) as))"

section \<open>The metrics page\<close>

text \<open>\<open>metrics_view\<close> of \<^verbatim>\<open>metrics.py\<close>: what was recorded, in the format of prometheus_client.\<close>

definition metrics_view :: "(metric list \<Rightarrow> string) \<Rightarrow> string \<Rightarrow> 'q handler" where
  "metrics_view generate_latest CONTENT_TYPE_LATEST request = bind_io (gets_io w_metrics) (\<lambda>ms.
     return_io \<lparr>rs_status = 200, rs_headers = [(''Content-Type'', CONTENT_TYPE_LATEST)],
       rs_body = Some (JStr (generate_latest (metrics_at_import @ ms)))\<rparr>)"

section \<open>Properties\<close>

lemma fill_Arg: "fill_parts (Arg c n # ps) as = Some ss \<longleftrightarrow>
    (\<exists>a as' ss'. as = a # as' \<and> ss = a # ss' \<and> converts c a \<and> no_slash a \<and> fill_parts ps as' = Some ss')"
  by (cases as) auto

lemma fill_Nil: "fill_parts [] as = Some ss \<longleftrightarrow> as = [] \<and> ss = []"
  by (cases as) auto

lemma fill_parts_plain:
  "fill_parts ps as = Some ss \<Longrightarrow> (\<And>l. Lit l \<in> set ps \<Longrightarrow> no_slash l) \<Longrightarrow> list_all no_slash ss"
  by (induction ps as arbitrary: ss rule: fill_parts.induct) (auto split: if_splits)

lemma match_fill:
  "match_parts ps ss = Some args \<Longrightarrow> list_all no_slash ss \<Longrightarrow> fill_parts ps (map snd args) = Some ss"
  by (induction ps ss arbitrary: args rule: match_parts.induct) (auto split: if_splits)

lemma project_routes: "project_urls =
    [\<lparr>rt_parts = [Lit ''metrics''], rt_name = ''metrics''\<rparr>, \<lparr>rt_parts = [Lit ''healthz''], rt_name = ''healthz''\<rparr>,
     \<lparr>rt_parts = [Lit ''v1'', Lit ''tenants'', Arg StrConverter ''tenant_id'', Lit ''bots'', Arg StrConverter ''bot_id'',
        Lit ''documents''], rt_name = ''upload-document''\<rparr>,
     \<lparr>rt_parts = [Lit ''v1'', Lit ''tenants'', Arg StrConverter ''tenant_id'', Lit ''bots'', Arg StrConverter ''bot_id'',
        Lit ''documents'', Arg UuidConverter ''doc_id''], rt_name = ''delete-document''\<rparr>,
     \<lparr>rt_parts = [Lit ''v1'', Lit ''tenants'', Arg StrConverter ''tenant_id'', Lit ''bots'', Arg StrConverter ''bot_id'',
        Lit ''search''], rt_name = ''search-documents''\<rparr>]"
  by (simp add: project_urls_def included_def core_urls_def documents_urls_def bot_parts_def)

lemma literals_plain: "r \<in> set project_urls \<Longrightarrow> Lit l \<in> set (rt_parts r) \<Longrightarrow> no_slash l"
  by (auto simp: project_routes no_slash_def)

text \<open>The parts of a reversed route are matched by that route and no earlier one.\<close>

lemma filled_resolves:
  assumes "r \<in> set project_urls" and "fill_parts (rt_parts r) as = Some ss"
  shows "\<exists>args. first_match project_urls ss = Some (rt_name r, args) \<and> map snd args = as \<and> ss \<noteq> [] \<and> hd ss \<noteq> ''admin''"
  using assms by (auto simp: project_routes fill_Arg fill_Nil)

lemma first_match_route:
  "first_match rs ss = Some (name, args) \<Longrightarrow> \<exists>r \<in> set rs. rt_name r = name \<and> match_parts (rt_parts r) ss = Some args"
  by (induction rs) (auto split: option.splits)

lemma find_by_name: "distinct (map rt_name rs) \<Longrightarrow> r \<in> set rs \<Longrightarrow> find (\<lambda>r'. rt_name r' = rt_name r) rs = Some r"
  by (induction rs) auto

lemma route_by_name: "r \<in> set project_urls \<Longrightarrow> find (\<lambda>r'. rt_name r' = rt_name r) project_urls = Some r"
  by (rule find_by_name) (simp_all add: project_routes)

lemma admin_part:
  assumes "py_startswith (join_slash ss) ''admin/''" and "list_all no_slash ss" and "ss \<noteq> []"
  shows "hd ss = ''admin''"
proof -
  have "take 6 (join_slash ss) = ''admin/''" using assms(1) by (simp add: py_startswith_def eval_nat_numeral)
  then have "join_slash ss = ''admin/'' @ drop 6 (join_slash ss)" by (metis append_take_drop_id)
  then have "join_slash ss = ''admin'' @ CHR ''/'' # drop 6 (join_slash ss)" by simp
  then have "ss = split_slash (''admin'' @ CHR ''/'' # drop 6 (join_slash ss))"
    using split_join [OF assms(3,2)] by simp
  also have "\<dots> = ''admin'' # split_slash (drop 6 (join_slash ss))"
    by (rule split_slash_append) (simp add: no_slash_def)
  finally show ?thesis by (metis list.sel(1))
qed



text \<open>The paths the load test asks lead to the two views it means.\<close>

lemma load_test_paths:
  assumes "no_slash t" "t \<noteq> []" "no_slash b" "b \<noteq> []"
  shows "resolve admin (bot_url t b ''documents'') = Some (''upload-document'', [(''tenant_id'', t), (''bot_id'', b)])"
    and "resolve admin (bot_url t b ''search'') = Some (''search-documents'', [(''tenant_id'', t), (''bot_id'', b)])"
proof -
  have plain: "no_slash ''v1''" "no_slash ''tenants''" "no_slash ''bots''" "no_slash ''documents''" "no_slash ''search''"
    by (simp_all add: no_slash_def)
  have path: "bot_url t b e = CHR ''/'' # join_slash [''v1'', ''tenants'', t, ''bots'', b, e]" for e
    by (simp add: bot_url_def)
  have parts: "split_slash (join_slash [''v1'', ''tenants'', t, ''bots'', b, e]) = [''v1'', ''tenants'', t, ''bots'', b, e]"
    if "no_slash e" for e using assms plain that by (intro split_join) simp_all
  have outside: "\<not> py_startswith (join_slash [''v1'', ''tenants'', t, ''bots'', b, e]) ''admin/''" for e
    by (simp add: py_startswith_def)
  show "resolve admin (bot_url t b ''documents'') = Some (''upload-document'', [(''tenant_id'', t), (''bot_id'', b)])"
    "resolve admin (bot_url t b ''search'') = Some (''search-documents'', [(''tenant_id'', t), (''bot_id'', b)])"
    using parts outside plain assms by (simp_all add: resolve_def path project_routes del: join_slash.simps)
qed

end
