(* ===== verification/ModelLoading.thy ===== *)
theory ModelLoading
  imports Settings
begin

text \<open>
  How the model and the tokenizer of \<^verbatim>\<open>apps/ingestion/embedder.py\<close> are made: with which
  arguments, and behind \<open>functools.lru_cache(maxsize=1)\<close>. One call after the other is the
  function \<open>cached\<close> of \<open>Settings\<close>; the threads of a process may also call at the same time, and
  \<open>cache_step\<close> is the cache as they see it: it is looked up and filled under the interpreter's
  lock, the call of the function in between is not.
\<close>

section \<open>What is loaded\<close>

record model_args =
  ma_model_name :: string
  ma_use_fp16 :: bool
  ma_cache_dir :: string
  ma_devices :: string

definition model_args_of :: "bge_config \<Rightarrow> model_args" where
  "model_args_of cfg = \<lparr>ma_model_name = bs_model_name cfg, ma_use_fp16 = bs_use_fp16 cfg,
     ma_cache_dir = bs_cache_dir cfg, ma_devices = bs_device cfg\<rparr>"

definition load_model :: "(model_args \<Rightarrow> ('q, 'm) action) \<Rightarrow> 'q env \<Rightarrow> bge_config \<Rightarrow> ('q, 'm) action" where
  "load_model BGEM3FlagModel env cfg =
     bind_io (monotonic env) (\<lambda>started.
     bind_io (BGEM3FlagModel (model_args_of cfg)) (\<lambda>model.
     bind_io (monotonic env) (\<lambda>now.
     seq_io (try_io (recording [SetGauge embedder_loaded 1]) (\<lambda>exc. return_io ()))
     (return_io model))))"

definition get_model ::
  "(model_args \<Rightarrow> ('q, 'm) action) \<Rightarrow> 'q env \<Rightarrow> settings \<Rightarrow> 'm option \<Rightarrow> ('q, 'm \<times> 'm option) action" where
  "get_model BGEM3FlagModel env settings = cached (load_model BGEM3FlagModel env (BGE settings))"

definition get_tokenizer ::
  "(string \<Rightarrow> string \<Rightarrow> ('q, 't) action) \<Rightarrow> settings \<Rightarrow> 't option \<Rightarrow> ('q, 't \<times> 't option) action" where
  "get_tokenizer from_pretrained settings =
     cached (from_pretrained (bs_model_name (BGE settings)) (bs_cache_dir (BGE settings)))"

definition embedder_warmup ::
  "(model_args \<Rightarrow> ('q, 'm) action) \<Rightarrow> (string \<Rightarrow> string \<Rightarrow> ('q, 't) action) \<Rightarrow> 'q env \<Rightarrow> settings \<Rightarrow>
     'm option \<times> 't option \<Rightarrow> ('q, 'm option \<times> 't option) action" where
  "embedder_warmup BGEM3FlagModel from_pretrained env settings slots =
     bind_io (get_model BGEM3FlagModel env settings (fst slots)) (\<lambda>(model, m).
     bind_io (get_tokenizer from_pretrained settings (snd slots)) (\<lambda>(tokenizer, t).
     return_io (m, t)))"

text \<open>A filled cache answers without loading, and a warmup that returns has filled both.\<close>

lemma cached_full: "cached build (Some x) w = (Inr (x, Some x), w)"
  by (simp add: cached_def)

lemma cached_fills: "cached build slot w = (Inr (x, slot'), w') \<Longrightarrow> slot' = Some x"
  by (auto simp: cached_def split: option.splits elim!: bind_io_InrE)

lemma warmup_fills:
  assumes "embedder_warmup B f env s slots w = (Inr (m, t), w')"
  shows "m \<noteq> None \<and> t \<noteq> None \<and> embedder_warmup B f env s (m, t) w' = (Inr (m, t), w')"
proof -
  from assms obtain model tokenizer where "m = Some model" "t = Some tokenizer"
    by (auto simp: embedder_warmup_def get_model_def get_tokenizer_def elim!: bind_io_InrE dest!: cached_fills)
  then show ?thesis
    by (simp add: embedder_warmup_def get_model_def get_tokenizer_def bind_io_def cached_full)
qed

section \<open>Threads\<close>

text \<open>Models are numbered in the order they get ready.\<close>

datatype caller = Idle | Loading | Has nat

record cache_state =
  cs_slot :: "nat option"
  cs_callers :: "nat \<Rightarrow> caller"
  cs_made :: nat

definition empty_cache :: cache_state where
  "empty_cache = \<lparr>cs_slot = None, cs_callers = (\<lambda>_. Idle), cs_made = 0\<rparr>"

definition set_caller :: "nat \<Rightarrow> caller \<Rightarrow> cache_state \<Rightarrow> cache_state" where
  "set_caller i c s = s\<lparr>cs_callers := (cs_callers s)(i := c)\<rparr>"

text \<open>
  With \<open>alone\<close>, nobody starts to load while another thread does. A thread that finds the cache
  filled when its own model is ready returns its own model and leaves the cache.
\<close>

inductive cache_step :: "bool \<Rightarrow> cache_state \<Rightarrow> cache_state \<Rightarrow> bool" for alone where
  hit: "cs_callers s i = Idle \<Longrightarrow> cs_slot s = Some m \<Longrightarrow> cache_step alone s (set_caller i (Has m) s)"
| miss: "cs_callers s i = Idle \<Longrightarrow> cs_slot s = None \<Longrightarrow> (alone \<Longrightarrow> \<forall>j. cs_callers s j \<noteq> Loading) \<Longrightarrow>
    cache_step alone s (set_caller i Loading s)"
| loaded: "cs_callers s i = Loading \<Longrightarrow> cache_step alone s ((set_caller i (Has (cs_made s)) s)
    \<lparr>cs_made := Suc (cs_made s), cs_slot := (case cs_slot s of None \<Rightarrow> Some (cs_made s) | Some m \<Rightarrow> Some m)\<rparr>)"
| failed: "cs_callers s i = Loading \<Longrightarrow> cache_step alone s (set_caller i Idle s)"

inductive cache_reachable :: "bool \<Rightarrow> cache_state \<Rightarrow> bool" for alone where
  start: "cache_reachable alone empty_cache"
| step: "cache_reachable alone s \<Longrightarrow> cache_step alone s s' \<Longrightarrow> cache_reachable alone s'"

inductive_cases cache_stepE: "cache_step alone s s'"

definition numbered :: "cache_state \<Rightarrow> bool" where
  "numbered s \<longleftrightarrow> (cs_slot s = None) = (cs_made s = 0) \<and> (\<forall>i m. cs_callers s i = Has m \<longrightarrow> m < cs_made s)"

definition loaders :: "cache_state \<Rightarrow> nat set" where
  "loaders s = {i. cs_callers s i = Loading}"

definition one_load :: "cache_state \<Rightarrow> bool" where
  "one_load s \<longleftrightarrow> (loaders s = {} \<and> cs_made s \<le> 1) \<or> (\<exists>i. loaders s = {i} \<and> cs_made s = 0)"

lemma loaders_set: "loaders (set_caller i c s) = (if c = Loading then insert i (loaders s) else loaders s - {i})"
  by (auto simp: loaders_def set_caller_def)

lemma set_caller_simps [simp]:
  "cs_slot (set_caller i c s) = cs_slot s" "cs_made (set_caller i c s) = cs_made s"
  "cs_callers (set_caller i c s) = (cs_callers s)(i := c)"
  by (simp_all add: set_caller_def)

lemma hit_number: "cs_slot s = Some m \<Longrightarrow> m < cs_made s \<Longrightarrow> numbered s \<Longrightarrow> numbered (set_caller i (Has m) s)"
  by (auto simp: numbered_def)

lemma slot_number:
  assumes "cache_reachable alone s"
  shows "numbered s \<and> (\<forall>m. cs_slot s = Some m \<longrightarrow> m < cs_made s)"
  using assms
proof (induction rule: cache_reachable.induct)
  case start
  then show ?case by (simp add: numbered_def empty_cache_def)
next
  case (step s s')
  note IH = step.IH
  from step.hyps(2) show ?case
  proof (cases rule: cache_step.cases)
    case (hit i m)
    with IH show ?thesis by (simp add: hit_number)
  next
    case (miss i)
    with IH show ?thesis by (auto simp: numbered_def)
  next
    case (loaded i)
    with IH show ?thesis by (cases "cs_slot s") (auto simp: numbered_def less_Suc_eq)
  next
    case (failed i)
    with IH show ?thesis by (auto simp: numbered_def)
  qed
qed

lemma alone_loads_once: "cache_reachable True s \<Longrightarrow> one_load s"
proof (induction rule: cache_reachable.induct)
  case start
  then show ?case by (simp add: one_load_def empty_cache_def loaders_def)
next
  case (step s s')
  from slot_number [OF step.hyps(1)] have slot: "(cs_slot s = None) = (cs_made s = 0)" by (simp add: numbered_def)
  from step.hyps(2) show ?case
  proof (cases rule: cache_step.cases)
    case (hit i m)
    then have "cs_made s \<noteq> 0" "i \<notin> loaders s" using slot by (simp_all add: loaders_def)
    with step.IH hit show ?thesis by (auto simp: one_load_def loaders_set)
  next
    case (miss i)
    then have "cs_made s = 0" "loaders s = {}" using slot by (simp_all add: loaders_def)
    with miss show ?thesis by (simp add: one_load_def loaders_set)
  next
    case (loaded i)
    then have "i \<in> loaders s" by (simp add: loaders_def)
    with step.IH have "loaders s = {i}" "cs_made s = 0" by (auto simp: one_load_def)
    moreover from loaded have "loaders s' = loaders (set_caller i (Has (cs_made s)) s)" by (simp add: loaders_def)
    ultimately show ?thesis using loaded by (simp add: one_load_def loaders_set)
  next
    case (failed i)
    with step.IH show ?thesis by (auto simp: one_load_def loaders_set)
  qed
qed

section \<open>Properties\<close>

definition both_loading :: cache_state where
  "both_loading = set_caller 1 Loading (set_caller 0 Loading empty_cache)"

definition first_ready :: cache_state where
  "first_ready = (set_caller 0 (Has 0) both_loading)\<lparr>cs_made := 1, cs_slot := Some 0\<rparr>"

definition both_ready :: cache_state where
  "both_ready = (set_caller 1 (Has 1) first_ready)\<lparr>cs_made := 2, cs_slot := Some 0\<rparr>"

lemma both_loading_reachable: "cache_reachable False both_loading"
proof -
  have "cache_step False empty_cache (set_caller 0 Loading empty_cache)"
    by (rule miss) (simp_all add: empty_cache_def)
  moreover have "cache_step False (set_caller 0 Loading empty_cache) both_loading"
    unfolding both_loading_def by (rule miss) (simp_all add: empty_cache_def)
  ultimately show ?thesis by (blast intro: cache_reachable.intros)
qed

lemma both_ready_reachable: "cache_reachable False both_ready"
proof -
  have "cache_step False both_loading first_ready"
    using loaded [of both_loading 0 False] by (simp add: first_ready_def both_loading_def empty_cache_def)
  moreover have "cache_step False first_ready both_ready"
    using loaded [of first_ready 1 False]
    by (simp add: both_ready_def first_ready_def both_loading_def empty_cache_def numeral_2_eq_2)
  ultimately show ?thesis using both_loading_reachable by (blast intro: cache_reachable.step)
qed


lemma alone_reachable: "cache_reachable True ((set_caller 0 (Has 0) empty_cache)\<lparr>cs_made := 1, cs_slot := Some 0\<rparr>)"
proof -
  let ?s = "set_caller 0 Loading empty_cache"
  have "cache_step True empty_cache ?s" by (rule miss) (simp_all add: empty_cache_def)
  moreover have "cache_step True ?s ((set_caller 0 (Has 0) empty_cache)\<lparr>cs_made := 1, cs_slot := Some 0\<rparr>)"
    using loaded [of ?s 0 True] by (simp add: empty_cache_def set_caller_def)
  ultimately show ?thesis by (blast intro: cache_reachable.intros)
qed


end
