(* ===== verification/Spec2Isabelle.thy ===== *)
theory Spec2Isabelle
  imports Races LoadTest Startup Schema Routes ModelLoading
begin

text \<open>
  \<^bold>\<open>A multi-tenant document store over Qdrant: model and properties\<close>

  The program takes documents of tenants and their bots over HTTP, cuts them into chunks, embeds
  the chunks and stores them in one Qdrant collection per bot; a table in Postgres says which
  document has how many chunks of which content. Search runs over HTTP and gRPC. This library is
  a shallow embedding of the Python code under \<^verbatim>\<open>src/apps/\<close>, \<^verbatim>\<open>src/config/\<close> and
  \<^verbatim>\<open>src/scripts/\<close>: each function is an Isabelle
  function of the same name (or close to it), each raise, early return and fallback a branch.

  \<^bold>\<open>The pieces, bottom up\<close>

  \<^item> \<open>Prelude\<close>: computations \<open>'s \<Rightarrow> (exn + 'a) \<times> 's\<close> with bind, try, finally; the three ways the
    proofs speak of them: \<open>frame\<close> (a part of the state never changes), \<open>keeps\<close> (an invariant),
    \<open>triple\<close> (with a postcondition for each outcome); JSON values.
  \<^item> \<open>PyString\<close>, \<open>Errors\<close>, \<open>Slugs\<close>: Python's text operations the code uses; every exception class
    with text, class name, HTTP status and code (\<^verbatim>\<open>documents/exceptions.py\<close>,
    \<^verbatim>\<open>qdrant_core/exceptions.py\<close>); identifiers (\<^verbatim>\<open>tenants/validators.py\<close>).
  \<^item> \<open>Naming\<close>, \<open>Embedder\<close>, \<open>Chunker\<close>, \<open>Payload\<close>: the pure parts of the files of those names.
  \<^item> \<open>QdrantClient\<close>, \<open>Collection\<close>, \<open>VectorStore\<close>: retries (\<^verbatim>\<open>qdrant_core/client.py\<close>), the four
    collection operations (\<^verbatim>\<open>qdrant_core/collection.py\<close>), and two interfaces as locales:
    \<open>qdrant_api\<close> is what Qdrant documents of the calls used, \<open>chunk_store\<close> what the pipelines
    need; a \<open>sublocale\<close> proves that the code of \<open>Collection\<close> turns the first into the second.
    \<open>MemoryStore\<close> is a database in memory that may lose connections by a script; it is proved to
    satisfy \<open>qdrant_api\<close>, so the hypothesis of the properties can hold.
  \<^item> \<open>Search\<close>: filter, prefetches, rerank (\<^verbatim>\<open>qdrant_core/search.py\<close>).
  \<^item> \<open>Tables\<close>, \<open>World\<close>: the three tables with widths, keys and constraints (\<^verbatim>\<open>tenants/models.py\<close>,
    \<^verbatim>\<open>documents/models.py\<close>) and the statements the ORM issues; the whole state of the service and
    the environment it asks.
  \<^item> \<open>Locks\<close>, \<open>Timing\<close>, \<open>Pipeline\<close>: the advisory lock with its polling loop (\<^verbatim>\<open>ingestion/locks.py\<close>,
    with the interface \<open>exclusive_section\<close>), the phase timers (\<^verbatim>\<open>core/timing.py\<close>), and
    \<open>UploadPipeline.execute\<close> and \<open>DeletePipeline.execute\<close> (\<^verbatim>\<open>ingestion/pipeline.py\<close>).
  \<^item> \<open>Metrics\<close>, \<open>Middleware\<close>, \<open>Serializers\<close>, \<open>Views\<close>: the HTTP side (\<^verbatim>\<open>core/metrics*.py\<close>,
    \<^verbatim>\<open>core/middleware.py\<close>, \<^verbatim>\<open>core/logging.py\<close>, \<^verbatim>\<open>documents/serializers.py\<close>,
    \<^verbatim>\<open>documents/views.py\<close>). \<open>GrpcHandler\<close>, \<open>Health\<close>: \<^verbatim>\<open>grpc_service/handler.py\<close>, the warmup
    and the probes (\<^verbatim>\<open>ingestion/_warmup.py\<close>, \<^verbatim>\<open>ingestion/apps.py\<close>, \<^verbatim>\<open>core/views.py\<close>).
  \<^item> \<open>Upload\<close>, \<open>Delete\<close>: the proofs about the two pipelines. \<open>Scenarios\<close>, \<open>HttpScenarios\<close>: concrete
    runs and the witnesses of properties with hypotheses. \<open>Defects\<close>: runs that end where the
    documentation says they cannot.
  \<^item> \<open>Threads\<close>, \<open>Concurrency\<close>, \<open>Races\<close>: requests that overlap. The sections under the lock are cut
    into steps, one per statement or phase (a phase's own calls are not separated);
    \<open>sys_step\<close> interleaves the steps of any number of workers, which share tables and vector
    database and hold locks of the same key one at a time. \<open>Races\<close> runs schedules of it.
  \<^item> \<open>DocumentStore\<close>: what the service promises, as a map from document ids to documents with a
    relation between an answer and two such maps, and the proof that runs of uploads and deletes
    are histories of it.
  \<^item> \<open>Logging\<close>, \<open>Settings\<close>, \<open>Routes\<close>, \<open>Server\<close>, \<open>ModelLoading\<close>: the start of the processes. The
    logging configuration (\<^verbatim>\<open>core/logging.py\<close>) and where a record goes; every variable with its
    default, the arguments of the Qdrant client, the chain of middlewares
    (\<^verbatim>\<open>config/settings.py\<close>); resolving and reversing paths (the three \<^verbatim>\<open>urls.py\<close>); the gRPC
    process from its variables to its stop on a signal (\<^verbatim>\<open>grpc_service/server.py\<close>); the cache the
    model is kept in, as threads see it (\<^verbatim>\<open>ingestion/embedder.py\<close>). \<open>Startup\<close> runs them.
  \<^item> \<open>Schema\<close>: the declared models, the migrations and what applying them gives, the admin pages
    (\<^verbatim>\<open>*/migrations/\<close>, \<^verbatim>\<open>*/admin.py\<close>), and that the statements of \<open>Tables\<close> enforce the columns.
  \<^item> \<open>LoadTest\<close>, \<open>VerifySetup\<close>: the two operator scripts in Python (\<^verbatim>\<open>scripts/load_test.py\<close>,
    \<^verbatim>\<open>scripts/verify_setup.py\<close>). The warm-up loop of the first has fuel; thirty rounds are enough
    (\<open>warm_up_ends\<close>).

  \<^bold>\<open>What is shown\<close>

  A completed upload leaves exactly its own chunks and one row that counts them; a failed one
  leaves the rows as they were; no upload or delete touches points of other documents or
  collections; locks are given back and the tables stay well-formed however a request ends; the
  polling for a lock ends after at most 101 attempts, 303 questions to clock and database. A
  completed delete leaves no chunk. Deduplication answers \<open>no_change\<close> only on the strength of a
  live row. Where requests overlap, a worker that holds its lock is alone with its document as
  long as no other tenant or bot uses the same id, and a holder always ends; but uploads of one
  content under two ids, and of one id by two tenants, get past each other's checks. Completed
  requests, one after the other, are a history of an abstract map of documents. Collection names
  separate bots unless identifiers contain the separator, and then they collide. Retries are
  bounded; chunks cover the text and are numbered; truncation ends within the token limit; the
  prefetches fuse with weights 3 and 1. Every HTTP request is
  answered with a documented status, a 201 means stored, refused requests change nothing,
  foreign documents cannot be told from missing ones, each request is logged once and sees no
  variable of another, also through the whole chain of middlewares; HTTP and gRPC run the same
  search. The service only starts with all its credentials, logs every record once, and its gRPC
  process stops gracefully; paths and views correspond; the migrations build the declared models;
  the setup check leaves other collections alone. Several properties state defects of
  the code; the manifest lists them as findings.

  \<^bold>\<open>What is assumed\<close>

  Parameters stand for code outside the repository: SHA-256, UUID generation, the text
  splitter, the tokenizer, the model, the Qdrant client (laws in \<open>qdrant_api\<close>, holding also when
  a call fails half-way), REST framework's field validation, the protobuf classes, and the
  answers of other database sessions to a lock request. Clock readings never go back and a
  sleep lasts at least as long as asked. Of Postgres the model has what the code relies on:
  statements are atomic, constraints and widths are checked; it does not go away. Texts are
  lists of code points up to U+00FF without NUL (an em dash in three messages is written as two
  hyphens); floats are rationals, and the two products that size chunks are exact quotients. A
  retry sleeps without moving the clock of the model.

  Of django-environ, Django's chain of handlers and \<open>lru_cache\<close> the model has what their
  documentation says, the last two in the definitions \<open>load_middleware\<close>, \<open>cached\<close> and \<open>cache_step\<close>.

  \<^bold>\<open>Not modelled\<close>

  Log lines and the clock readings that only feed them; what grpc, prometheus_client, structlog
  and Django's own middlewares and admin site do inside; the tasks of the load test's \<open>gather\<close>
  run in order; the HTML of one admin column; the shell scripts and the entry points of Celery
  and the web servers, which have no logic of their own.
\<close>

end
